theory Spec2Isabelle
  imports Main "HOL-Library.Word"
begin

section \<open>JavaScript strings and code points\<close>

text \<open>
  A JavaScript string is a sequence of UTF-16 code units, each a 16-bit word; a code
  point above \<open>0xFFFF\<close> takes two code units (a high surrogate followed by a low
  surrogate). Positions in a document count code units. Character codes and code
  points are numbers: a number that may be \<open>NaN\<close> is a \<open>nat option\<close>, with
  \<open>None\<close> for \<open>NaN\<close>, which \<open>charCodeAt\<close> returns outside the string.
\<close>

type_synonym code_unit = "16 word"
type_synonym jsstring = "code_unit list"

definition js :: "string \<Rightarrow> jsstring" where
  "js s = map (\<lambda>c. of_nat (of_char c)) s"

definition charCodeAt :: "jsstring \<Rightarrow> nat \<Rightarrow> nat option" where
  "charCodeAt str i = (if i < length str then Some (unat (str ! i)) else None)"

definition charAt :: "jsstring \<Rightarrow> nat \<Rightarrow> jsstring" where
  "charAt str i = (if i < length str then [str ! i] else [])"

text \<open>
  \<open>slice\<close> with both bounds, for bounds that may be negative or beyond the end the
  way \<open>Text.sliceString\<close> and \<open>state.sliceDoc\<close> receive them in this package: a
  negative start reads from 0, an end beyond the string reads to the end of the string.
\<close>

definition sliceString :: "jsstring \<Rightarrow> int \<Rightarrow> int \<Rightarrow> jsstring" where
  "sliceString doc from to =
     (let f = nat (max 0 from); t = nat (max 0 to) in take (t - f) (drop f doc))"

subsection \<open>The code point helpers of the text package\<close>

definition surrogateLow :: "nat \<Rightarrow> bool" where
  "surrogateLow ch = (ch \<ge> 0xDC00 \<and> ch < 0xE000)"

definition surrogateHigh :: "nat \<Rightarrow> bool" where
  "surrogateHigh ch = (ch \<ge> 0xD800 \<and> ch < 0xDC00)"

definition codePointAt :: "jsstring \<Rightarrow> nat \<Rightarrow> nat option" where
  "codePointAt str pos =
     (case charCodeAt str pos of
        None \<Rightarrow> None
      | Some code0 \<Rightarrow>
          if \<not> surrogateHigh code0 \<or> pos + 1 = length str then Some code0
          else (case charCodeAt str (pos + 1) of
                  None \<Rightarrow> Some code0
                | Some code1 \<Rightarrow>
                    if \<not> surrogateLow code1 then Some code0
                    else Some ((code0 - 0xD800) * 1024 + (code1 - 0xDC00) + 0x10000)))"

text \<open>\<open>NaN < 0x10000\<close> is false, so the size of \<open>NaN\<close> is 2.\<close>

definition codePointSize :: "nat option \<Rightarrow> nat" where
  "codePointSize code = (case code of None \<Rightarrow> 2 | Some c \<Rightarrow> if c < 0x10000 then 1 else 2)"

text \<open>
  \<open>String.fromCharCode\<close> keeps the low 16 bits of its arguments, as \<open>of_nat\<close>
  into a 16-bit word does. On \<open>NaN\<close> the comparison fails and the bit operations
  read \<open>NaN\<close> as 0.
\<close>

definition fromCharCode :: "nat \<Rightarrow> code_unit" where
  "fromCharCode n = of_nat n"

definition fromCodePoint :: "nat option \<Rightarrow> jsstring" where
  "fromCodePoint code =
     (case code of
        None \<Rightarrow> [fromCharCode 0xD800, fromCharCode 0xDC00]
      | Some c \<Rightarrow>
          if c \<le> 0xFFFF then [fromCharCode c]
          else (let d = c - 0x10000
                in [fromCharCode (d div 1024 + 0xD800), fromCharCode (d mod 1024 + 0xDC00)]))"

section \<open>The delimiter table\<close>

definition definedClosing :: jsstring where
  "definedClosing = js ''()[]{}<>''"

function closing_loop :: "nat \<Rightarrow> nat option \<Rightarrow> jsstring option" where
  "closing_loop i ch =
     (if i < length definedClosing
      then (if charCodeAt definedClosing i = ch
            then Some (charAt definedClosing (i + 1))
            else closing_loop (i + 2) ch)
      else None)"
  by pat_completeness auto
termination
  by (relation "measure (\<lambda>(i, ch). length definedClosing - i)") auto

declare closing_loop.simps [simp del]

definition closing :: "nat option \<Rightarrow> jsstring" where
  "closing ch =
     (case closing_loop 0 ch of
        Some c \<Rightarrow> c
      | None \<Rightarrow>
          fromCodePoint (case ch of None \<Rightarrow> None
                         | Some c \<Rightarrow> if c < 128 then Some c else Some (c + 1)))"

section \<open>Context classifiers on the document text\<close>

definition nextChar :: "jsstring \<Rightarrow> int \<Rightarrow> jsstring" where
  "nextChar doc pos =
     (let next = sliceString doc pos (pos + 2)
      in take (codePointSize (codePointAt next 0)) next)"

definition prevChar :: "jsstring \<Rightarrow> int \<Rightarrow> jsstring" where
  "prevChar doc pos =
     (let prev = sliceString doc (pos - 2) pos
      in if codePointSize (codePointAt prev 0) = length prev then prev else drop 1 prev)"

text \<open>A string that is exactly one code point: one code unit, or a surrogate pair.\<close>

definition single_code_point :: "jsstring \<Rightarrow> bool" where
  "single_code_point s =
     (length s = 1 \<or>
      (length s = 2 \<and> surrogateHigh (unat (s ! 0)) \<and> surrogateLow (unat (s ! 1))))"

text \<open>The number of code points of a string, read from the left as \<open>codePointAt\<close> does.\<close>

fun code_points :: "jsstring \<Rightarrow> nat" where
  "code_points [] = 0"
| "code_points [a] = 1"
| "code_points (a # b # s) =
     (if surrogateHigh (unat a) \<and> surrogateLow (unat b) then 1 + code_points s
      else 1 + code_points (b # s))"

section \<open>Errors\<close>

text \<open>
  A thrown exception is a value: \<open>Inl\<close> of the error. \<open>RangeError\<close> is what the
  editor state library throws on a position outside the document; \<open>TypeError\<close> is
  the property access on \<open>undefined\<close> (a selection whose main index names no range).
  \<open>OutOfOrder\<close> marks the one case in which the model does not follow the library:
  changes that are not in document order or that overlap, which the library composes
  and on which the model stops. Of the functions of this package only
  \<open>deleteBracketPair\<close> produces them, from two carets less than two token lengths
  apart; the properties of that command below are about one range, or about a
  selection of one caret.
\<close>

datatype error = RangeError | TypeError | OutOfOrder

definition bindE :: "error + 'a \<Rightarrow> ('a \<Rightarrow> error + 'b) \<Rightarrow> error + 'b" where
  "bindE m f = (case m of Inl e \<Rightarrow> Inl e | Inr x \<Rightarrow> f x)"

fun mapE :: "('a \<Rightarrow> error + 'b) \<Rightarrow> 'a list \<Rightarrow> error + 'b list" where
  "mapE f [] = Inr []"
| "mapE f (x # xs) = bindE (f x) (\<lambda>y. bindE (mapE f xs) (\<lambda>ys. Inr (y # ys)))"

section \<open>The editor state library: changes\<close>

text \<open>
  A change set is the list of its sections, in document order: a stretch of \<open>len\<close>
  unchanged code units, or a stretch of \<open>len\<close> code units replaced by a text (the
  library stores the pair \<open>(len, ins)\<close> with \<open>ins = -1\<close> for an unchanged stretch and
  the inserted texts beside it).
\<close>

datatype changeSection = Unchanged int | Changed int jsstring

type_synonym ChangeSet = "changeSection list"

datatype MapMode = Simple | TrackDel | TrackBefore | TrackAfter

text \<open>
  \<open>mapPos\<close> returns the new position (\<open>Some\<close>), \<open>null\<close> (\<open>None\<close>) when the mode
  tracks a deletion that hits the position, and throws beyond the end.
\<close>

fun mapPos_loop ::
  "changeSection list \<Rightarrow> int \<Rightarrow> int \<Rightarrow> int \<Rightarrow> int \<Rightarrow> MapMode \<Rightarrow> error + int option" where
  "mapPos_loop [] posA posB pos assoc mode =
     (if pos > posA then Inl RangeError else Inr (Some posB))"
| "mapPos_loop (Unchanged len # rest) posA posB pos assoc mode =
     (let endA = posA + len
      in if endA > pos then Inr (Some (posB + (pos - posA)))
         else mapPos_loop rest endA (posB + len) pos assoc mode)"
| "mapPos_loop (Changed len text # rest) posA posB pos assoc mode =
     (let ins = int (length text); endA = posA + len
      in if mode \<noteq> Simple \<and> endA \<ge> pos \<and>
            (mode = TrackDel \<and> posA < pos \<and> endA > pos \<or>
             mode = TrackBefore \<and> posA < pos \<or>
             mode = TrackAfter \<and> endA > pos)
         then Inr None
         else if endA > pos \<or> endA = pos \<and> assoc < 0 \<and> len = 0
         then Inr (Some (if pos = posA \<or> assoc < 0 then posB else posB + ins))
         else mapPos_loop rest endA (posB + ins) pos assoc mode)"

definition mapPos :: "ChangeSet \<Rightarrow> int \<Rightarrow> int \<Rightarrow> MapMode \<Rightarrow> error + int option" where
  "mapPos changes pos assoc mode = mapPos_loop changes 0 0 pos assoc mode"

text \<open>The length of the document a change set starts from, and of the one it produces.\<close>

fun changes_length :: "ChangeSet \<Rightarrow> int" where
  "changes_length [] = 0"
| "changes_length (Unchanged len # rest) = len + changes_length rest"
| "changes_length (Changed len text # rest) = len + changes_length rest"

fun changes_newLength :: "ChangeSet \<Rightarrow> int" where
  "changes_newLength [] = 0"
| "changes_newLength (Unchanged len # rest) = len + changes_newLength rest"
| "changes_newLength (Changed len text # rest) = int (length text) + changes_newLength rest"

definition changes_empty :: "ChangeSet \<Rightarrow> bool" where
  "changes_empty changes =
     (case changes of [] \<Rightarrow> True | [Unchanged len] \<Rightarrow> True | _ \<Rightarrow> False)"

fun apply_sections :: "changeSection list \<Rightarrow> jsstring \<Rightarrow> jsstring" where
  "apply_sections [] d = []"
| "apply_sections (Unchanged len # rest) d =
     take (nat len) d @ apply_sections rest (drop (nat len) d)"
| "apply_sections (Changed len text # rest) d =
     text @ apply_sections rest (drop (nat len) d)"

definition changes_apply :: "ChangeSet \<Rightarrow> jsstring \<Rightarrow> error + jsstring" where
  "changes_apply changes d =
     (if changes_length changes \<noteq> int (length d) then Inl RangeError
      else Inr (apply_sections changes d))"

subsection \<open>Building a change set from change specs\<close>

text \<open>
  A change spec \<open>{from, to, insert}\<close> names a stretch of the start document and its
  replacement; \<open>to\<close> defaults to \<open>from\<close> and \<open>insert\<close> to the empty text.
\<close>

record ChangeSpec =
  cs_from :: int
  cs_to :: int
  cs_insert :: jsstring

text \<open>
  \<open>addSection\<close> appends a section to the list and joins it with the last one when both
  are unchanged, both are deletions, or both are insertions at one place.
\<close>

definition join_section :: "changeSection \<Rightarrow> changeSection \<Rightarrow> changeSection list" where
  "join_section l s =
     (case (l, s) of
        (Unchanged l0, Unchanged len) \<Rightarrow> [Unchanged (l0 + len)]
      | (Changed l0 t0, Changed len text) \<Rightarrow>
          if text = [] \<and> t0 = [] then [Changed (l0 + len) []]
          else if len = 0 \<and> l0 = 0 then [Changed 0 (t0 @ text)]
          else [l, s]
      | _ \<Rightarrow> [l, s])"

fun addSection :: "changeSection list \<Rightarrow> changeSection \<Rightarrow> changeSection list" where
  "addSection sections (Unchanged len) =
     (if len = 0 then sections
      else case sections of [] \<Rightarrow> [Unchanged len]
           | _ \<Rightarrow> butlast sections @ join_section (last sections) (Unchanged len))"
| "addSection sections (Changed len text) =
     (if len = 0 \<and> text = [] then sections
      else case sections of [] \<Rightarrow> [Changed len text]
           | _ \<Rightarrow> butlast sections @ join_section (last sections) (Changed len text))"

fun changeSet_of_loop ::
  "ChangeSpec list \<Rightarrow> int \<Rightarrow> int \<Rightarrow> changeSection list \<Rightarrow> error + ChangeSet" where
  "changeSet_of_loop [] len pos sections =
     Inr (if pos < len then addSection sections (Unchanged (len - pos)) else sections)"
| "changeSet_of_loop (spec # rest) len pos sections =
     (if cs_from spec > cs_to spec \<or> cs_from spec < 0 \<or> cs_to spec > len then Inl RangeError
      else if cs_from spec = cs_to spec \<and> cs_insert spec = []
      then changeSet_of_loop rest len pos sections
      else if cs_from spec < pos then Inl OutOfOrder
      else changeSet_of_loop rest len (cs_to spec)
             (addSection
                (if cs_from spec > pos
                 then addSection sections (Unchanged (cs_from spec - pos)) else sections)
                (Changed (cs_to spec - cs_from spec) (cs_insert spec))))"

definition changeSet_of :: "ChangeSpec list \<Rightarrow> int \<Rightarrow> error + ChangeSet" where
  "changeSet_of specs len = changeSet_of_loop specs len 0 []"

section \<open>The editor state library: selections\<close>

record SelectionRange =
  anchor :: int
  head :: int

definition range_from :: "SelectionRange \<Rightarrow> int" where
  "range_from r = min (anchor r) (head r)"

definition range_to :: "SelectionRange \<Rightarrow> int" where
  "range_to r = max (anchor r) (head r)"

definition range_empty :: "SelectionRange \<Rightarrow> bool" where
  "range_empty r = (range_from r = range_to r)"

definition mkRange :: "int \<Rightarrow> int \<Rightarrow> SelectionRange" where
  "mkRange a h = \<lparr>anchor = a, head = h\<rparr>"

definition cursor :: "int \<Rightarrow> SelectionRange" where
  "cursor pos = mkRange pos pos"

record EditorSelection =
  ranges :: "SelectionRange list"
  mainIndex :: nat

definition selection_main :: "EditorSelection \<Rightarrow> error + SelectionRange" where
  "selection_main sel =
     (if mainIndex sel < length (ranges sel) then Inr (ranges sel ! mainIndex sel)
      else Inl TypeError)"

text \<open>
  \<open>SelectionRange.map\<close>: both ends go through \<open>mapPos\<close> with the same side; the
  direction of the range is kept. A \<open>mapPos\<close> in mode \<open>Simple\<close> returns a position.
\<close>

definition mapPos_simple :: "ChangeSet \<Rightarrow> int \<Rightarrow> int \<Rightarrow> error + int" where
  "mapPos_simple changes pos assoc =
     bindE (mapPos changes pos assoc Simple)
       (\<lambda>m. case m of Some p \<Rightarrow> Inr p | None \<Rightarrow> Inl TypeError)"

definition range_map :: "SelectionRange \<Rightarrow> ChangeSet \<Rightarrow> int \<Rightarrow> error + SelectionRange" where
  "range_map r change assoc =
     bindE (mapPos_simple change (range_from r) assoc) (\<lambda>from.
     bindE (mapPos_simple change (range_to r) assoc) (\<lambda>to.
       Inr (if anchor r > head r then mkRange to from else mkRange from to)))"

subsection \<open>\<open>EditorSelection.create\<close> and the normal form of a selection\<close>

text \<open>
  \<open>create\<close> keeps the ranges as they are when they are sorted and apart; otherwise
  \<open>normalized\<close> sorts them by their start (a stable sort) and joins ranges that
  overlap, and a cursor that touches the range before it.
\<close>

fun create_unsorted :: "int \<Rightarrow> SelectionRange list \<Rightarrow> bool" where
  "create_unsorted pos [] = False"
| "create_unsorted pos (r # rest) =
     ((if range_empty r then range_from r \<le> pos else range_from r < pos) \<or>
      create_unsorted (range_to r) rest)"

fun indexOf_list :: "'a list \<Rightarrow> 'a \<Rightarrow> nat \<Rightarrow> nat" where
  "indexOf_list [] x i = i"
| "indexOf_list (y # ys) x i = (if y = x then i else indexOf_list ys x (i + 1))"

text \<open>
  The loop of \<open>normalized\<close>: \<open>done\<close> holds the ranges before index \<open>i\<close>, last one
  first; a join replaces the last of them and leaves \<open>i\<close> where it is.
\<close>

fun normalized_loop ::
  "SelectionRange list \<Rightarrow> SelectionRange list \<Rightarrow> nat \<Rightarrow> nat \<Rightarrow> SelectionRange list \<times> nat" where
  "normalized_loop done [] i mi = (rev done, mi)"
| "normalized_loop [] (r # rest) i mi = normalized_loop [r] rest i mi"
| "normalized_loop (prev # before) (r # rest) i mi =
     (if (if range_empty r then range_from r \<le> range_to prev else range_from r < range_to prev)
      then (let from = range_from prev; to = max (range_to r) (range_to prev)
            in normalized_loop
                 ((if anchor r > head r then mkRange to from else mkRange from to) # before)
                 rest i (if i \<le> mi then mi - 1 else mi))
      else normalized_loop (r # prev # before) rest (i + 1) mi)"

definition normalized :: "SelectionRange list \<Rightarrow> nat \<Rightarrow> error + EditorSelection" where
  "normalized rs mi =
     (if mi < length rs
      then (let main = rs ! mi;
                sorted = sort_key range_from rs;
                (rs', mi') = normalized_loop [] sorted 1 (indexOf_list sorted main 0)
            in Inr \<lparr>ranges = rs', mainIndex = mi'\<rparr>)
      else Inl TypeError)"

definition create :: "SelectionRange list \<Rightarrow> nat \<Rightarrow> error + EditorSelection" where
  "create rs mi =
     (if rs = [] then Inl RangeError
      else if create_unsorted 0 rs then normalized rs mi
      else Inr \<lparr>ranges = rs, mainIndex = mi\<rparr>)"

section \<open>Configuration, syntax tree and editor state\<close>

record CloseBracketConfig =
  brackets :: "jsstring list option"
  before :: "jsstring option"

definition defaults_brackets :: "jsstring list" where
  "defaults_brackets = [js ''('', js ''['', js ''{'', js [CHR 0x27], js [CHR 0x22]]"

definition defaults_before :: jsstring where
  "defaults_before = js ('')]}'' @ [CHR 0x27, CHR 0x22] @ '':;>'')"

definition defaults :: CloseBracketConfig where
  "defaults = \<lparr>brackets = Some defaults_brackets, before = Some defaults_before\<rparr>"

text \<open>
  A syntax node as this package reads it: its bounds and its parent. The character
  categories are those of \<open>state.charCategorizer\<close>.
\<close>

datatype SyntaxNode = SyntaxNode (node_from: int) (node_to: int) (node_parent: "SyntaxNode option")

datatype CharCategory = Word | Space | Other

text \<open>
  What the host provides for a document: the language data in effect at a position
  (\<open>state.languageDataAt("closeBrackets", pos)\<close>), the innermost syntax node at a
  position and side (\<open>syntaxTree(state).resolveInner(pos, side)\<close>) and the character
  categorizer at a position. They are functions of the document, so that the state a
  transaction produces carries them for its new document.
\<close>

record Language =
  languageDataAt :: "jsstring \<Rightarrow> int \<Rightarrow> CloseBracketConfig list"
  resolveInner :: "jsstring \<Rightarrow> int \<Rightarrow> int \<Rightarrow> SyntaxNode"
  charCategorizer :: "jsstring \<Rightarrow> int \<Rightarrow> jsstring \<Rightarrow> CharCategory"

text \<open>
  The field \<open>bracketState\<close> holds the range set of closed-bracket marks: the list of
  the ranges \<open>(from, to)\<close> of its marks, in position order.
\<close>

type_synonym RangeSet = "(int \<times> int) list"

record EditorState =
  doc :: jsstring
  selection :: EditorSelection
  readOnly :: bool
  bracketState :: RangeSet
  language :: Language

definition sliceDoc :: "EditorState \<Rightarrow> int \<Rightarrow> int \<Rightarrow> jsstring" where
  "sliceDoc st from to = sliceString (doc st) from to"

text \<open>
  \<open>doc.lineAt(pos).from\<close>: the start of the line around \<open>pos\<close>; a line break is the
  code unit 10. \<open>lineAt\<close> throws outside the document.
\<close>

definition lineAt_from :: "jsstring \<Rightarrow> int \<Rightarrow> error + int" where
  "lineAt_from d pos =
     (if pos < 0 \<or> pos > int (length d) then Inl RangeError
      else Inr (pos - int (length (takeWhile (\<lambda>c. c \<noteq> 10) (rev (take (nat pos) d))))))"

section \<open>The closed-bracket tracker\<close>

datatype StateEffect = CloseBracketEffect int | SkipBracketEffect int

text \<open>
  The \<open>map\<close> functions of the two effect types; \<open>None\<close> is \<open>undefined\<close>, on which
  the library drops the effect.
\<close>

definition closeBracketEffect_map :: "int \<Rightarrow> ChangeSet \<Rightarrow> error + int option" where
  "closeBracketEffect_map v mapping =
     bindE (mapPos mapping v (- 1) TrackAfter)
       (\<lambda>mapped. Inr (case mapped of None \<Rightarrow> None | Some m \<Rightarrow> Some m))"

definition skipBracketEffect_map :: "int \<Rightarrow> ChangeSet \<Rightarrow> error + int option" where
  "skipBracketEffect_map v mapping = mapPos mapping v (- 1) Simple"

definition effect_map :: "ChangeSet \<Rightarrow> StateEffect \<Rightarrow> error + StateEffect option" where
  "effect_map mapping e =
     (case e of
        CloseBracketEffect v \<Rightarrow>
          bindE (closeBracketEffect_map v mapping) (\<lambda>m. Inr (map_option CloseBracketEffect m))
      | SkipBracketEffect v \<Rightarrow>
          bindE (skipBracketEffect_map v mapping) (\<lambda>m. Inr (map_option SkipBracketEffect m)))"

definition mapEffects :: "StateEffect list \<Rightarrow> ChangeSet \<Rightarrow> error + StateEffect list" where
  "mapEffects effs mapping =
     bindE (mapE (effect_map mapping) effs) (\<lambda>ms. Inr (List.map_filter id ms))"

subsection \<open>Mapping the range set\<close>

text \<open>
  \<open>closedBracket\<close> has \<open>startSide = 1\<close> and \<open>endSide = -1\<close>. The range set maps the
  start of a range with its start side and the end with its end side, and drops the
  range when nothing is left of it.
\<close>

definition closedBracket_startSide :: int where
  "closedBracket_startSide = 1"

definition closedBracket_endSide :: int where
  "closedBracket_endSide = - 1"

definition mark_map :: "ChangeSet \<Rightarrow> int \<times> int \<Rightarrow> error + (int \<times> int) option" where
  "mark_map changes m =
     (let curFrom = fst m; curTo = snd m
      in if curFrom = curTo
         then bindE (mapPos changes curFrom closedBracket_startSide TrackDel) (\<lambda>mapped.
                case mapped of
                  None \<Rightarrow> Inr None
                | Some newFrom \<Rightarrow>
                    bindE (mapPos_simple changes curFrom closedBracket_endSide) (\<lambda>newTo.
                      Inr (if newTo < newFrom \<or>
                              (if newTo - newFrom \<noteq> 0 then newTo - newFrom
                               else closedBracket_endSide - closedBracket_startSide) < 0
                           then None else Some (newFrom, newTo))))
         else bindE (mapPos_simple changes curFrom closedBracket_startSide) (\<lambda>newFrom.
              bindE (mapPos_simple changes curTo closedBracket_endSide) (\<lambda>newTo.
                Inr (if newFrom > newTo \<or>
                        newFrom = newTo \<and> closedBracket_startSide > 0 \<and> closedBracket_endSide \<le> 0
                     then None
                     else if (if newTo - newFrom \<noteq> 0 then newTo - newFrom
                              else closedBracket_endSide - closedBracket_startSide) < 0
                     then None
                     else Some (newFrom, newTo)))))"

definition rangeSet_map :: "RangeSet \<Rightarrow> ChangeSet \<Rightarrow> error + RangeSet" where
  "rangeSet_map v changes =
     (if changes_empty changes \<or> v = [] then Inr v
      else bindE (mapE (mark_map changes) v) (\<lambda>ms. Inr (List.map_filter id ms)))"

definition rangeSet_add :: "RangeSet \<Rightarrow> int \<times> int \<Rightarrow> RangeSet" where
  "rangeSet_add v m = insort_key fst m v"

definition rangeSet_filter :: "RangeSet \<Rightarrow> (int \<Rightarrow> bool) \<Rightarrow> RangeSet" where
  "rangeSet_filter v f = filter (\<lambda>m. f (fst m)) v"

text \<open>
  \<open>between(0, doc.length, f)\<close> calls \<open>f\<close> on the ranges that touch the document.
\<close>

definition closedBracketAt :: "EditorState \<Rightarrow> int \<Rightarrow> bool" where
  "closedBracketAt st pos =
     list_ex (\<lambda>m. fst m \<le> int (length (doc st)) \<and> snd m \<ge> 0 \<and> fst m = pos)
       (bracketState st)"

section \<open>Transactions\<close>

record Transaction =
  startState :: EditorState
  changes :: ChangeSet
  newDoc :: jsstring
  tr_selection :: "EditorSelection option"
  effects :: "StateEffect list"
  scrollIntoView :: bool
  userEvent :: "string option"

text \<open>
  What \<open>state.update\<close> receives here: the change set, the new selection, the effects
  and the two annotations. It throws when the selection points outside the new
  document.
\<close>

record TransactionSpec =
  spec_changes :: ChangeSet
  spec_selection :: "EditorSelection option"
  spec_effects :: "StateEffect list"
  spec_scrollIntoView :: bool
  spec_userEvent :: "string option"

definition checkSelection :: "EditorSelection \<Rightarrow> int \<Rightarrow> bool" where
  "checkSelection sel docLength = list_all (\<lambda>r. range_to r \<le> docLength) (ranges sel)"

definition state_update :: "EditorState \<Rightarrow> TransactionSpec \<Rightarrow> error + Transaction" where
  "state_update st spec =
     bindE (changes_apply (spec_changes spec) (doc st)) (\<lambda>d.
       if (case spec_selection spec of None \<Rightarrow> False
           | Some sel \<Rightarrow> \<not> checkSelection sel (int (length d)))
       then Inl RangeError
       else Inr \<lparr>startState = st, changes = spec_changes spec, newDoc = d,
                  tr_selection = spec_selection spec, effects = spec_effects spec,
                  scrollIntoView = spec_scrollIntoView spec,
                  userEvent = spec_userEvent spec\<rparr>)"

subsection \<open>The update of the tracker field\<close>

definition apply_effect :: "RangeSet \<Rightarrow> StateEffect \<Rightarrow> RangeSet" where
  "apply_effect v effect =
     (case effect of
        CloseBracketEffect p \<Rightarrow> rangeSet_add v (p, p + 1)
      | SkipBracketEffect p \<Rightarrow> rangeSet_filter v (\<lambda>from. from \<noteq> p))"

definition line_changed :: "Transaction \<Rightarrow> EditorSelection \<Rightarrow> error + bool" where
  "line_changed tr sel =
     bindE (selection_main sel) (\<lambda>main.
     bindE (lineAt_from (newDoc tr) (head main)) (\<lambda>lineStart.
     bindE (selection_main (selection (startState tr))) (\<lambda>prevMain.
     bindE (lineAt_from (doc (startState tr)) (head prevMain)) (\<lambda>prevLineStart.
     bindE (mapPos_simple (changes tr) prevLineStart (- 1)) (\<lambda>mapped.
       Inr (lineStart \<noteq> mapped))))))"

definition update_bracketState :: "RangeSet \<Rightarrow> Transaction \<Rightarrow> error + RangeSet" where
  "update_bracketState v tr =
     bindE (case tr_selection tr of
              None \<Rightarrow> Inr v
            | Some sel \<Rightarrow> bindE (line_changed tr sel) (\<lambda>c. Inr (if c then [] else v)))
       (\<lambda>v1. bindE (rangeSet_map v1 (changes tr))
       (\<lambda>v2. Inr (foldl apply_effect v2 (effects tr))))"

text \<open>
  The state a transaction produces. Its selection is the transaction's, or the old
  one mapped through the changes.
\<close>

definition selection_map :: "EditorSelection \<Rightarrow> ChangeSet \<Rightarrow> error + EditorSelection" where
  "selection_map sel change =
     (if changes_empty change then Inr sel
      else bindE (mapE (\<lambda>r. range_map r change (- 1)) (ranges sel))
             (\<lambda>rs. create rs (mainIndex sel)))"

definition tr_state :: "Transaction \<Rightarrow> error + EditorState" where
  "tr_state tr =
     bindE (case tr_selection tr of
              Some sel \<Rightarrow> Inr sel
            | None \<Rightarrow> selection_map (selection (startState tr)) (changes tr)) (\<lambda>sel.
     bindE (update_bracketState (bracketState (startState tr)) tr) (\<lambda>v.
       Inr \<lparr>doc = newDoc tr, selection = sel, readOnly = readOnly (startState tr),
            bracketState = v, language = language (startState tr)\<rparr>))"

subsection \<open>\<open>changeByRange\<close>\<close>

text \<open>
  What the function given to \<open>changeByRange\<close> returns for one range: its changes, in
  the coordinates of the start document; its effects and its new range, in the
  coordinates of the document its own changes produce. \<open>rr_dont\<close> records that the
  function assigned the range to the variable \<open>dont\<close> of its caller.
\<close>

record RangeResult =
  rr_changes :: "ChangeSpec list"
  rr_effects :: "StateEffect list"
  rr_range :: SelectionRange
  rr_dont :: bool

definition specs_delta :: "ChangeSpec list \<Rightarrow> int" where
  "specs_delta specs =
     sum_list (map (\<lambda>c. int (length (cs_insert c)) - (cs_to c - cs_from c)) specs)"

definition specs_end :: "ChangeSpec list \<Rightarrow> int" where
  "specs_end specs = foldl max 0 (map cs_to specs)"

definition shift_spec :: "int \<Rightarrow> ChangeSpec \<Rightarrow> ChangeSpec" where
  "shift_spec d c = c\<lparr>cs_from := cs_from c + d, cs_to := cs_to c + d\<rparr>"

text \<open>
  \<open>changeByRange\<close> runs the function on every range and merges the results: the
  changes of a range are mapped over the changes of the ranges before it, its range
  and effects through those changes, and the ranges and effects gathered so far
  through its changes. Where the changes of a range lie behind those of the ranges
  before it, as the insertions at the sorted ranges of a selection do, mapping them
  over the earlier changes shifts them by the length those changes add, and the
  earlier changes stay where they are in the document the new changes produce. Where
  they do not, the model stops with \<open>OutOfOrder\<close>.
\<close>

fun changeByRange_loop ::
  "int \<Rightarrow> RangeResult list \<Rightarrow> ChangeSpec list \<Rightarrow> SelectionRange list \<Rightarrow> StateEffect list \<Rightarrow>
   error + (ChangeSpec list \<times> SelectionRange list \<times> StateEffect list)" where
  "changeByRange_loop len [] specs rs effs = Inr (specs, rs, effs)"
| "changeByRange_loop len (result # rest) specs rs effs =
     bindE (changeSet_of (rr_changes result) len) (\<lambda>newChanges.
       if \<not> list_all (\<lambda>c. specs_end specs \<le> cs_from c) (rr_changes result) then Inl OutOfOrder
       else
     bindE (changeSet_of (map (shift_spec (specs_delta specs)) (rr_changes result))
              (len + specs_delta specs)) (\<lambda>newMapped.
     bindE (mapE (\<lambda>r. range_map r newMapped (- 1)) rs) (\<lambda>rs'.
     bindE (changeSet_of specs (len + specs_delta (rr_changes result))) (\<lambda>mapBy.
     bindE (range_map (rr_range result) mapBy (- 1)) (\<lambda>r'.
     bindE (mapEffects effs newMapped) (\<lambda>effs1.
     bindE (mapEffects (rr_effects result) mapBy) (\<lambda>effs2.
       changeByRange_loop len rest (specs @ rr_changes result) (rs' @ [r']) (effs1 @ effs2))))))))"

definition changeByRange :: "EditorState \<Rightarrow> RangeResult list \<Rightarrow> error + TransactionSpec" where
  "changeByRange st results =
     (case results of
        [] \<Rightarrow> Inl TypeError
      | result1 # rest \<Rightarrow>
          bindE (changeSet_of (rr_changes result1) (int (length (doc st)))) (\<lambda>changes1.
          bindE (changeByRange_loop (int (length (doc st))) rest (rr_changes result1)
                   [rr_range result1] (rr_effects result1)) (\<lambda>(specs, rs, effs).
          bindE (changeSet_of specs (int (length (doc st)))) (\<lambda>changes.
          bindE (create rs (mainIndex (selection st))) (\<lambda>sel.
            Inr \<lparr>spec_changes = changes, spec_selection = Some sel, spec_effects = effs,
                 spec_scrollIntoView = False, spec_userEvent = None\<rparr>)))))"

section \<open>The bracket closing package\<close>

definition config :: "EditorState \<Rightarrow> int \<Rightarrow> CloseBracketConfig" where
  "config st pos =
     (case languageDataAt (language st) (doc st) pos of [] \<Rightarrow> defaults | c # _ \<Rightarrow> c)"

definition conf_tokens :: "CloseBracketConfig \<Rightarrow> jsstring list" where
  "conf_tokens conf = (case brackets conf of None \<Rightarrow> defaults_brackets | Some b \<Rightarrow> b)"

text \<open>The empty string is falsy: an empty \<open>before\<close> gives the default too.\<close>

definition conf_before :: "CloseBracketConfig \<Rightarrow> jsstring" where
  "conf_before conf =
     (case before conf of None \<Rightarrow> defaults_before
      | Some b \<Rightarrow> if b = [] then defaults_before else b)"

subsection \<open>Strings: whitespace and \<open>indexOf\<close>\<close>

definition isSpace :: "code_unit \<Rightarrow> bool" where
  "isSpace c =
     (c = 9 \<or> c = 10 \<or> c = 11 \<or> c = 12 \<or> c = 13 \<or> c = 32 \<or> c = 0xA0 \<or> c = 0x1680 \<or>
      (0x2000 \<le> c \<and> c \<le> 0x200A) \<or> c = 0x2028 \<or> c = 0x2029 \<or> c = 0x202F \<or>
      c = 0x205F \<or> c = 0x3000 \<or> c = 0xFEFF)"

definition test_space :: "jsstring \<Rightarrow> bool" where
  "test_space str = list_ex isSpace str"

fun indexOf_from :: "jsstring \<Rightarrow> jsstring \<Rightarrow> int \<Rightarrow> int" where
  "indexOf_from [] n i = (if n = [] then i else - 1)"
| "indexOf_from (c # t) n i =
     (if take (length n) (c # t) = n then i else indexOf_from t n (i + 1))"

definition indexOf :: "jsstring \<Rightarrow> jsstring \<Rightarrow> int" where
  "indexOf str n = indexOf_from str n 0"

subsection \<open>Syntax tree classifiers\<close>

definition nodeStart :: "EditorState \<Rightarrow> int \<Rightarrow> bool" where
  "nodeStart st pos =
     (let tree = resolveInner (language st) (doc st) (pos + 1) 0
      in node_parent tree \<noteq> None \<and> node_from tree = pos)"

fun probablyInString_loop :: "nat \<Rightarrow> EditorState \<Rightarrow> int \<Rightarrow> jsstring \<Rightarrow> SyntaxNode \<Rightarrow> bool" where
  "probablyInString_loop 0 st pos quoteToken node = False"
| "probablyInString_loop (Suc n) st pos quoteToken node =
     (if sliceDoc st (node_from node) (node_from node + int (length quoteToken)) = quoteToken
      then True
      else if node_to node = pos
      then (case node_parent node of
              None \<Rightarrow> False
            | Some parent \<Rightarrow> probablyInString_loop n st pos quoteToken parent)
      else False)"

definition probablyInString :: "EditorState \<Rightarrow> int \<Rightarrow> jsstring \<Rightarrow> bool" where
  "probablyInString st pos quoteToken =
     probablyInString_loop 5 st pos quoteToken (resolveInner (language st) (doc st) pos (- 1))"

subsection \<open>The insertion decision engine\<close>

definition insert_spec :: "jsstring \<Rightarrow> int \<Rightarrow> ChangeSpec" where
  "insert_spec text from = \<lparr>cs_from = from, cs_to = from, cs_insert = text\<rparr>"

definition dont_result :: "SelectionRange \<Rightarrow> RangeResult" where
  "dont_result r = \<lparr>rr_changes = [], rr_effects = [], rr_range = r, rr_dont = True\<rparr>"

definition run_transaction ::
  "EditorState \<Rightarrow> RangeResult list \<Rightarrow> string option \<Rightarrow> error + Transaction option" where
  "run_transaction st results event =
     bindE (changeByRange st results) (\<lambda>spec.
       if list_ex rr_dont results then Inr None
       else bindE (state_update st
                     (spec\<lparr>spec_scrollIntoView := True, spec_userEvent := event\<rparr>))
              (\<lambda>tr. Inr (Some tr)))"

definition handleOpen_range ::
  "EditorState \<Rightarrow> jsstring \<Rightarrow> jsstring \<Rightarrow> jsstring \<Rightarrow> SelectionRange \<Rightarrow> RangeResult" where
  "handleOpen_range st open close closeBefore r =
     (if \<not> range_empty r
      then \<lparr>rr_changes = [insert_spec open (range_from r), insert_spec close (range_to r)],
            rr_effects = [CloseBracketEffect (range_to r + int (length open))],
            rr_range = mkRange (anchor r + int (length open)) (head r + int (length open)),
            rr_dont = False\<rparr>
      else (let next = nextChar (doc st) (head r)
            in if next = [] \<or> test_space next \<or> indexOf closeBefore next > - 1
               then \<lparr>rr_changes = [insert_spec (open @ close) (head r)],
                     rr_effects = [CloseBracketEffect (head r + int (length open))],
                     rr_range = cursor (head r + int (length open)),
                     rr_dont = False\<rparr>
               else dont_result r))"

definition handleOpen ::
  "EditorState \<Rightarrow> jsstring \<Rightarrow> jsstring \<Rightarrow> jsstring \<Rightarrow> error + Transaction option" where
  "handleOpen st open close closeBefore =
     run_transaction st
       (map (handleOpen_range st open close closeBefore) (ranges (selection st)))
       (Some ''input.type'')"

definition handleClose_range :: "EditorState \<Rightarrow> jsstring \<Rightarrow> SelectionRange \<Rightarrow> SelectionRange \<times> bool" where
  "handleClose_range st close r =
     (if range_empty r \<and> nextChar (doc st) (head r) = close
      then (cursor (head r + int (length close)), False)
      else (r, True))"

definition handleClose :: "EditorState \<Rightarrow> jsstring \<Rightarrow> jsstring \<Rightarrow> error + Transaction option" where
  "handleClose st open close =
     (let moved = map (handleClose_range st close) (ranges (selection st))
      in if list_ex snd moved then Inr None
         else bindE (create (map fst moved) (mainIndex (selection st))) (\<lambda>sel.
              bindE (state_update st
                       \<lparr>spec_changes = (if doc st = [] then []
                                        else [Unchanged (int (length (doc st)))]),
                        spec_selection = Some sel,
                        spec_effects = map (\<lambda>r. SkipBracketEffect (range_from r))
                                         (ranges (selection st)),
                        spec_scrollIntoView = True, spec_userEvent = None\<rparr>)
                (\<lambda>tr. Inr (Some tr))))"

definition handleSame_range ::
  "EditorState \<Rightarrow> jsstring \<Rightarrow> bool \<Rightarrow> SelectionRange \<Rightarrow> RangeResult" where
  "handleSame_range st token allowTriple r =
     (if \<not> range_empty r
      then \<lparr>rr_changes = [insert_spec token (range_from r), insert_spec token (range_to r)],
            rr_effects = [CloseBracketEffect (range_to r + int (length token))],
            rr_range = mkRange (anchor r + int (length token)) (head r + int (length token)),
            rr_dont = False\<rparr>
      else (let pos = head r; next = nextChar (doc st) pos
            in if next = token
               then (if nodeStart st pos
                     then \<lparr>rr_changes = [insert_spec (token @ token) pos],
                           rr_effects = [CloseBracketEffect (pos + int (length token))],
                           rr_range = cursor (pos + int (length token)),
                           rr_dont = False\<rparr>
                     else if closedBracketAt st pos
                     then (let isTriple = (allowTriple \<and>
                                 sliceDoc st pos (pos + int (length token) * 3) =
                                   token @ token @ token)
                           in \<lparr>rr_changes = [],
                               rr_effects = [SkipBracketEffect pos],
                               rr_range = cursor (pos + int (length token) *
                                                        (if isTriple then 3 else 1)),
                               rr_dont = False\<rparr>)
                     else dont_result r)
               else if allowTriple \<and>
                       sliceDoc st (pos - 2 * int (length token)) pos = token @ token \<and>
                       nodeStart st (pos - 2 * int (length token))
               then \<lparr>rr_changes = [insert_spec (token @ token @ token @ token) pos],
                     rr_effects = [CloseBracketEffect (pos + int (length token))],
                     rr_range = cursor (pos + int (length token)),
                     rr_dont = False\<rparr>
               else if charCategorizer (language st) (doc st) pos next \<noteq> Word
               then (let prev = sliceDoc st (pos - 1) pos
                     in if prev \<noteq> token \<and>
                           charCategorizer (language st) (doc st) pos prev \<noteq> Word \<and>
                           \<not> probablyInString st pos token
                        then \<lparr>rr_changes = [insert_spec (token @ token) pos],
                              rr_effects = [CloseBracketEffect (pos + int (length token))],
                              rr_range = cursor (pos + int (length token)),
                              rr_dont = False\<rparr>
                        else dont_result r)
               else dont_result r))"

definition handleSame :: "EditorState \<Rightarrow> jsstring \<Rightarrow> bool \<Rightarrow> error + Transaction option" where
  "handleSame st token allowTriple =
     run_transaction st
       (map (handleSame_range st token allowTriple) (ranges (selection st)))
       (Some ''input.type'')"

fun insertBracket_loop ::
  "EditorState \<Rightarrow> jsstring \<Rightarrow> CloseBracketConfig \<Rightarrow> jsstring list \<Rightarrow> jsstring list \<Rightarrow>
   error + Transaction option" where
  "insertBracket_loop st bracket conf tokens [] = Inr None"
| "insertBracket_loop st bracket conf tokens (tok # rest) =
     (let closed = closing (codePointAt tok 0)
      in if bracket = tok
         then (if closed = tok then handleSame st tok (tok @ tok @ tok \<in> set tokens)
               else handleOpen st tok closed (conf_before conf))
         else if bracket = closed
         then bindE (selection_main (selection st)) (\<lambda>main.
                if closedBracketAt st (range_from main) then handleClose st tok closed
                else insertBracket_loop st bracket conf tokens rest)
         else insertBracket_loop st bracket conf tokens rest)"

definition insertBracket :: "EditorState \<Rightarrow> jsstring \<Rightarrow> error + Transaction option" where
  "insertBracket st bracket =
     bindE (selection_main (selection st)) (\<lambda>main.
       let conf = config st (head main); tokens = conf_tokens conf
       in insertBracket_loop st bracket conf tokens tokens)"

subsection \<open>The input handler\<close>

record EditorView =
  view_state :: EditorState
  composing :: bool
  compositionStarted :: bool

text \<open>
  The handler returns whether it handled the input, and the view: \<open>view.dispatch\<close>
  replaces the state of the view by the state of the transaction. \<open>android\<close> is the
  constant of that name, read from the user agent.
\<close>

definition inputHandler ::
  "bool \<Rightarrow> EditorView \<Rightarrow> int \<Rightarrow> int \<Rightarrow> jsstring \<Rightarrow> error + (bool \<times> EditorView)" where
  "inputHandler android view from to insert' =
     (if (if android then composing view else compositionStarted view) \<or>
         readOnly (view_state view)
      then Inr (False, view)
      else bindE (selection_main (selection (view_state view))) (\<lambda>sel.
        if length insert' > 2 \<or>
           length insert' = 2 \<and> codePointSize (codePointAt insert' 0) = 1 \<or>
           from \<noteq> range_from sel \<or> to \<noteq> range_to sel
        then Inr (False, view)
        else bindE (insertBracket (view_state view) insert') (\<lambda>tr.
          case tr of
            None \<Rightarrow> Inr (False, view)
          | Some t \<Rightarrow> bindE (tr_state t) (\<lambda>st'. Inr (True, view\<lparr>view_state := st'\<rparr>)))))"

subsection \<open>The pair deletion command\<close>

fun deleteBracketPair_tokens ::
  "EditorState \<Rightarrow> SelectionRange \<Rightarrow> jsstring \<Rightarrow> jsstring list \<Rightarrow> RangeResult option" where
  "deleteBracketPair_tokens st r prev [] = None"
| "deleteBracketPair_tokens st r prev (token # rest) =
     (if token = prev \<and> nextChar (doc st) (head r) = closing (codePointAt token 0)
      then Some \<lparr>rr_changes = [\<lparr>cs_from = head r - int (length token),
                                cs_to = head r + int (length token), cs_insert = []\<rparr>],
                 rr_effects = [],
                 rr_range = cursor (head r - int (length token)),
                 rr_dont = False\<rparr>
      else deleteBracketPair_tokens st r prev rest)"

definition deleteBracketPair_range ::
  "EditorState \<Rightarrow> jsstring list \<Rightarrow> SelectionRange \<Rightarrow> RangeResult" where
  "deleteBracketPair_range st tokens r =
     (if range_empty r
      then (case deleteBracketPair_tokens st r (prevChar (doc st) (head r)) tokens of
              Some res \<Rightarrow> res
            | None \<Rightarrow> dont_result r)
      else dont_result r)"

text \<open>
  The command returns its boolean and the transaction it dispatched, if any.
\<close>

definition deleteBracketPair :: "EditorState \<Rightarrow> error + (bool \<times> Transaction option)" where
  "deleteBracketPair st =
     (if readOnly st then Inr (False, None)
      else bindE (selection_main (selection st)) (\<lambda>main.
        let conf = config st (head main); tokens = conf_tokens conf
        in bindE (run_transaction st
                    (map (deleteBracketPair_range st tokens) (ranges (selection st))) None)
             (\<lambda>tr. Inr (tr \<noteq> None, tr))))"

section \<open>Example language and states\<close>

text \<open>
  The word characters of the example hosts: the digits, the ASCII letters and the
  underscore. The library's categorizer also counts the letters and digits outside
  ASCII; the example documents do not hold any.
\<close>

definition ascii_word_char :: "code_unit \<Rightarrow> bool" where
  "ascii_word_char c =
     ((48 \<le> c \<and> c \<le> 57) \<or> (65 \<le> c \<and> c \<le> 90) \<or> c = 95 \<or> (97 \<le> c \<and> c \<le> 122))"

definition ascii_categorizer :: "jsstring \<Rightarrow> CharCategory" where
  "ascii_categorizer c =
     (if list_all isSpace c then Space
      else if list_ex ascii_word_char c then Word
      else Other)"

text \<open>
  A host without a parser and without language data: every position resolves to the
  top node, a string without a character that is not whitespace is a space, a string
  with a word character is a word, and the configuration is the default one.
\<close>

definition plain_language :: Language where
  "plain_language =
     \<lparr>languageDataAt = (\<lambda>d pos. []),
      resolveInner = (\<lambda>d pos side. SyntaxNode 0 (int (length d)) None),
      charCategorizer = (\<lambda>d pos c. ascii_categorizer c)\<rparr>"

definition plain_state :: "jsstring \<Rightarrow> SelectionRange list \<Rightarrow> RangeSet \<Rightarrow> EditorState" where
  "plain_state d rs marks =
     \<lparr>doc = d, selection = \<lparr>ranges = rs, mainIndex = 0\<rparr>, readOnly = False,
      bracketState = marks, language = plain_language\<rparr>"

section \<open>A single change, in closed form\<close>

text \<open>The change set of a single change spec.\<close>

definition single_change :: "int \<Rightarrow> int \<Rightarrow> jsstring \<Rightarrow> int \<Rightarrow> ChangeSet" where
  "single_change a b ins len =
     (if a = b \<and> ins = [] then (if 0 < len then [Unchanged len] else [])
      else (if 0 < a then [Unchanged a] else []) @ [Changed (b - a) ins] @
           (if b < len then [Unchanged (len - b)] else []))"

text \<open>Where a single change maps a position of the start document.\<close>

definition map_single :: "int \<Rightarrow> int \<Rightarrow> int \<Rightarrow> int \<Rightarrow> int \<Rightarrow> int" where
  "map_single a b n pos assoc =
     (if pos < a then pos
      else if pos < b then (if pos = a \<or> assoc < 0 then a else a + n)
      else if pos = b \<and> a = b \<and> assoc < 0 then a
      else pos + n - (b - a))"

text \<open>The marks of the tracker are ranges of positive length inside the document.\<close>

definition marks_ok :: "int \<Rightarrow> RangeSet \<Rightarrow> bool" where
  "marks_ok len v = list_all (\<lambda>m. 0 \<le> fst m \<and> fst m < snd m \<and> snd m \<le> len) v"

text \<open>What a single change makes of a mark.\<close>

definition mark_single :: "int \<Rightarrow> int \<Rightarrow> int \<Rightarrow> int \<times> int \<Rightarrow> (int \<times> int) option" where
  "mark_single a b n m =
     (let newFrom = map_single a b n (fst m) 1; newTo = map_single a b n (snd m) (- 1)
      in if newFrom < newTo then Some (newFrom, newTo) else None)"

text \<open>A bracket token that is one character: a code unit that is no surrogate, or a pair.\<close>

definition well_formed_char :: "jsstring \<Rightarrow> bool" where
  "well_formed_char s =
     (case s of
        [c] \<Rightarrow> \<not> surrogateHigh (unat c) \<and> \<not> surrogateLow (unat c)
      | [h, l] \<Rightarrow> surrogateHigh (unat h) \<and> surrogateLow (unat l)
      | _ \<Rightarrow> False)"

section \<open>A host with triple quotes\<close>

definition python_brackets :: "jsstring list" where
  "python_brackets =
     [js ''('', js ''['', js ''{'', js [CHR 0x27], js [CHR 0x22],
      js [CHR 0x27, CHR 0x27, CHR 0x27], js [CHR 0x22, CHR 0x22, CHR 0x22]]"

text \<open>
  A host whose language data configures the triple quotes beside the default
  brackets, as a language with triple-quoted strings does.
\<close>

definition python_language :: Language where
  "python_language =
     plain_language\<lparr>languageDataAt :=
       (\<lambda>d pos. [\<lparr>brackets = Some python_brackets, before = None\<rparr>])\<rparr>"

definition python_state :: "jsstring \<Rightarrow> SelectionRange list \<Rightarrow> RangeSet \<Rightarrow> EditorState" where
  "python_state d rs marks =
     \<lparr>doc = d, selection = \<lparr>ranges = rs, mainIndex = 0\<rparr>, readOnly = False,
      bracketState = marks, language = python_language\<rparr>"

section \<open>The state after a keystroke\<close>

text \<open>
  The state after the transaction of \<open>insertBracket\<close> is dispatched (\<open>None\<close> when
  \<open>insertBracket\<close> returns \<open>null\<close>), the state after \<open>deleteBracketPair\<close> dispatched
  its transaction (\<open>None\<close> when the command returns false), and the two in a row.
\<close>

definition after_insertBracket :: "EditorState \<Rightarrow> jsstring \<Rightarrow> error + EditorState option" where
  "after_insertBracket st bracket =
     bindE (insertBracket st bracket) (\<lambda>tr.
       case tr of None \<Rightarrow> Inr None
       | Some t \<Rightarrow> bindE (tr_state t) (\<lambda>s. Inr (Some s)))"

definition after_deleteBracketPair :: "EditorState \<Rightarrow> error + EditorState option" where
  "after_deleteBracketPair st =
     bindE (deleteBracketPair st) (\<lambda>(handled, tr).
       case tr of None \<Rightarrow> Inr None
       | Some t \<Rightarrow> bindE (tr_state t) (\<lambda>s. Inr (Some s)))"


definition result_doc :: "error + EditorState option \<Rightarrow> error + jsstring option" where
  "result_doc r = map_sum id (map_option doc) r"

text \<open>
  The invariant of an editor selection: it has ranges, the main index names one of
  them, and the ranges are sorted and apart, with no range before the document start.
\<close>

definition wf_selection :: "EditorSelection \<Rightarrow> bool" where
  "wf_selection sel =
     (ranges sel \<noteq> [] \<and> mainIndex sel < length (ranges sel) \<and>
      \<not> create_unsorted (- 1) (ranges sel))"

definition result_selection :: "error + EditorState option \<Rightarrow> error + EditorSelection option" where
  "result_selection r = map_sum id (map_option selection) r"

section \<open>Further example states\<close>


text \<open>The result of a function that returns a transaction, with another start state.\<close>

definition with_startState ::
  "EditorState \<Rightarrow> error + Transaction option \<Rightarrow> error + Transaction option" where
  "with_startState st r = map_sum id (map_option (\<lambda>tr. tr\<lparr>startState := st\<rparr>)) r"

definition read_only_state :: "jsstring \<Rightarrow> SelectionRange list \<Rightarrow> RangeSet \<Rightarrow> EditorState" where
  "read_only_state d rs marks = (plain_state d rs marks)\<lparr>readOnly := True\<rparr>"

text \<open>
  A host for triple-quoted strings: the configuration of \<open>python_language\<close>, and a
  syntax tree in which a string node from 0 to 2 under the top node is the innermost
  node around position 1.
\<close>

definition quote_language :: Language where
  "quote_language =
     python_language\<lparr>resolveInner :=
       (\<lambda>d pos side. if pos = 1 then SyntaxNode 0 2 (Some (SyntaxNode 0 (int (length d)) None))
                       else SyntaxNode 0 (int (length d)) None)\<rparr>"

definition quote_state :: "jsstring \<Rightarrow> SelectionRange list \<Rightarrow> RangeSet \<Rightarrow> EditorState" where
  "quote_state d rs marks =
     \<lparr>doc = d, selection = \<lparr>ranges = rs, mainIndex = 0\<rparr>, readOnly = False,
      bracketState = marks, language = quote_language\<rparr>"

text \<open>
  A transaction that types \<open>a\<close> at the start of the document \<open>x\<close>, line break, \<open>()\<close>,
  whose caret stood at the position 3 between the parentheses, and puts the caret at
  a position of the new document.
\<close>

definition typed_before :: "int \<Rightarrow> Transaction" where
  "typed_before pos =
     \<lparr>startState = plain_state (js ''x'' @ [10] @ js ''()'') [cursor 3] [(3, 4)],
      changes = [Changed 0 (js ''a''), Unchanged 4],
      newDoc = js ''ax'' @ [10] @ js ''()'',
      tr_selection = Some \<lparr>ranges = [cursor pos], mainIndex = 0\<rparr>,
      effects = [], scrollIntoView = False, userEvent = None\<rparr>"

text \<open>
  A host that configures one bracket, the character U+FFFF. Its closer is the
  character U+10000, which takes two code units where the bracket takes one. In the
  example state the caret stands between the bracket and its closer.
\<close>

definition noncharacter_language :: Language where
  "noncharacter_language =
     plain_language\<lparr>languageDataAt :=
       (\<lambda>d pos. [\<lparr>brackets = Some [[0xFFFF]], before = None\<rparr>])\<rparr>"

definition noncharacter_state :: EditorState where
  "noncharacter_state =
     \<lparr>doc = [0xFFFF, 0xD800, 0xDC00], selection = \<lparr>ranges = [cursor 1], mainIndex = 0\<rparr>,
      readOnly = False, bracketState = [], language = noncharacter_language\<rparr>"

section \<open>Properties of the delimiter table\<close>

lemma unat_code_unit_less: "unat (u :: code_unit) < 65536"
  using unsigned_less[of u, where 'a=nat] by simp

lemma unat_fromCharCode: "unat (fromCharCode n) = n mod 65536"
  by (simp add: fromCharCode_def unat_of_nat)

lemma definedClosing_eq: "definedClosing = [40, 41, 91, 93, 123, 125, 60, 62]"
  by (simp add: definedClosing_def js_def)

lemma closing_loop_Some:
  "closing_loop 0 (Some ch) =
     (if ch = 40 then Some [41] else if ch = 91 then Some [93]
      else if ch = 123 then Some [125] else if ch = 60 then Some [62] else None)"
  by (simp add: closing_loop.simps definedClosing_eq charCodeAt_def charAt_def)

lemma closing_loop_None: "closing_loop 0 None = None"
  by (simp add: closing_loop.simps definedClosing_eq charCodeAt_def charAt_def)

lemma closing_table:
  "closing (Some 40) = [41]" "closing (Some 91) = [93]"
  "closing (Some 123) = [125]" "closing (Some 60) = [62]"
  by (simp_all add: closing_def closing_loop_Some)

lemma closing_fallback:
  assumes "ch \<noteq> 40" "ch \<noteq> 91" "ch \<noteq> 123" "ch \<noteq> 60"
  shows "closing (Some ch) =
           (if ch < 128 then fromCodePoint (Some ch) else fromCodePoint (Some (ch + 1)))"
proof -
  have "closing_loop 0 (Some ch) = None"
    using assms by (simp add: closing_loop_Some)
  then show ?thesis
    by (simp add: closing_def)
qed

lemma codePointAt_fromCodePoint:
  assumes "c \<le> 0x10FFFF"
  shows "codePointAt (fromCodePoint (Some c)) 0 = Some c"
proof (cases "c \<le> 0xFFFF")
  case True
  then show ?thesis
    by (simp add: fromCodePoint_def codePointAt_def charCodeAt_def unat_fromCharCode)
next
  case False
  define d where "d = c - 0x10000"
  have d: "d < 0x100000" "c = d + 0x10000"
    using assms False by (simp_all add: d_def)
  have hi: "d div 1024 < 1024"
    using d by simp
  have lo: "d mod 1024 < 1024"
    by simp
  have "(d div 1024) * 1024 + d mod 1024 = d"
    by simp
  with False hi lo d show ?thesis
    by (simp add: fromCodePoint_def codePointAt_def charCodeAt_def Let_def d_def[symmetric]
        surrogateHigh_def surrogateLow_def unat_fromCharCode)
qed

text \<open>
  C5, as the claim states it, fails: the double quote (code point 34) is not in the
  table, and its closer is the double quote itself, not the code point 35.
\<close>

theorem closing_quote_counterexample:
  "closing (Some 34) = [34] \<and> closing (Some 34) \<noteq> fromCodePoint (Some 35)"
  by (simp add: closing_fallback fromCodePoint_def fromCharCode_def)

text \<open>
  C5, amended: \<open>closing\<close> is a total function. For the code points of \<open>(\<close>, \<open>[\<close>,
  \<open>{\<close> and \<open><\<close> it returns the closer of the table. For every other code point
  below 128 it returns that code point itself, and for every other code point from 128
  on the string of the code point one greater (up to the last code point, that string
  decodes to it).
\<close>

theorem closing_table_or_fallback:
  "closing (Some 40) = js '')'' \<and> closing (Some 91) = js '']'' \<and>
   closing (Some 123) = js ''}'' \<and> closing (Some 60) = js ''>'' \<and>
   (ch \<notin> {40, 91, 123, 60} \<longrightarrow>
      closing (Some ch) =
        (if ch < 128 then fromCodePoint (Some ch) else fromCodePoint (Some (ch + 1))) \<and>
      (ch < 0x10FFFF \<longrightarrow>
         codePointAt (closing (Some ch)) 0 = (if ch < 128 then Some ch else Some (ch + 1))))"
  by (simp add: closing_table closing_fallback js_def codePointAt_fromCodePoint)

theorem closing_table_or_fallback_witness:
  "closing (Some 171) = fromCodePoint (Some 172) \<and>
   codePointAt (closing (Some 171)) 0 = Some 172 \<and>
   closing (Some 39) = fromCodePoint (Some 39)"
  using closing_table_or_fallback[of 171] closing_table_or_fallback[of 39]
  by (auto simp: codePointAt_fromCodePoint)

section \<open>Properties of the pair deletion command\<close>

lemma length_sliceString_two: "length (sliceString d (p - 2) p) \<le> 2"
  by (simp add: sliceString_def Let_def) linarith

lemma codePointSize_pair:
  "codePointSize (codePointAt [a, b] 0) =
     (if surrogateHigh (unat a) \<and> surrogateLow (unat b) then 2 else 1)"
  using unat_code_unit_less[of a] by (simp add: codePointAt_def charCodeAt_def codePointSize_def)

lemma prevChar_of_pair:
  "code_points (let prev = [a, b]
                in if codePointSize (codePointAt prev 0) = length prev then prev
                   else drop 1 prev) \<le> 1"
  by (simp add: codePointSize_pair Let_def)

lemma code_points_prevChar: "code_points (prevChar d p) \<le> 1"
proof -
  let ?s = "sliceString d (p - 2) p"
  have len: "length ?s \<le> 2"
    by (rule length_sliceString_two)
  show ?thesis
  proof (cases ?s)
    case Nil
    then show ?thesis by (simp add: prevChar_def)
  next
    case (Cons a t)
    note outer = Cons
    show ?thesis
    proof (cases t)
      case Nil
      with outer show ?thesis by (simp add: prevChar_def Let_def)
    next
      case (Cons b t')
      with outer len have "t' = []" by simp
      with outer Cons have s: "?s = [a, b]" by simp
      show ?thesis
        unfolding prevChar_def s by (rule prevChar_of_pair)
    qed
  qed
qed

lemma code_points_zero: "code_points s = 0 \<Longrightarrow> s = []"
  by (cases s rule: code_points.cases) (auto split: if_splits)

lemma code_points_length: "code_points s \<le> 1 \<Longrightarrow> length s \<le> 2"
  by (cases s rule: code_points.cases) (auto split: if_splits dest: code_points_zero)

lemma deleteBracketPair_tokens_Some:
  "deleteBracketPair_tokens st r b tokens = Some res \<Longrightarrow>
   b \<in> set tokens \<and> nextChar (doc st) (head r) = closing (codePointAt b 0) \<and>
   res = \<lparr>rr_changes = [\<lparr>cs_from = head r - int (length b),
                          cs_to = head r + int (length b), cs_insert = []\<rparr>],
          rr_effects = [], rr_range = cursor (head r - int (length b)), rr_dont = False\<rparr>"
  by (induction tokens) (auto split: if_splits)

lemma deleteBracketPair_tokens_None:
  "deleteBracketPair_tokens st r b tokens = None \<Longrightarrow>
   b \<notin> set tokens \<or> nextChar (doc st) (head r) \<noteq> closing (codePointAt b 0)"
  by (induction tokens) (auto split: if_splits)

lemmas string_eval = js_def sliceString_def codePointAt_def charCodeAt_def codePointSize_def
  surrogateHigh_def surrogateLow_def nextChar_def prevChar_def Let_def

lemmas range_eval = cursor_def mkRange_def range_from_def range_to_def range_empty_def

section \<open>Basic facts about errors and change sets\<close>

lemma bindE_Inr [simp]: "bindE (Inr x) f = f x"
  by (simp add: bindE_def)

lemma bindE_Inl [simp]: "bindE (Inl e) f = Inl e"
  by (simp add: bindE_def)

lemma bindE_eq_Inr:
  "bindE m f = Inr y \<longleftrightarrow> (\<exists>x. m = Inr x \<and> f x = Inr y)"
  by (cases m) simp_all

lemma mapE_Inr:
  "list_all (\<lambda>x. f x = Inr (g x)) xs \<Longrightarrow> mapE f xs = Inr (map g xs)"
  by (induction xs) simp_all

lemma changeSet_of_single:
  assumes "0 \<le> a" "a \<le> b" "b \<le> len"
  shows "changeSet_of [\<lparr>cs_from = a, cs_to = b, cs_insert = ins\<rparr>] len =
           Inr (single_change a b ins len)"
  using assms by (auto simp: changeSet_of_def single_change_def join_section_def)

lemma changeSet_of_Nil: "changeSet_of [] len = Inr (if 0 < len then [Unchanged len] else [])"
  by (simp add: changeSet_of_def)

lemma changes_length_single:
  "0 \<le> a \<Longrightarrow> a \<le> b \<Longrightarrow> b \<le> len \<Longrightarrow> changes_length (single_change a b ins len) = len"
  by (auto simp: single_change_def)

lemma apply_single:
  assumes "0 \<le> a" "a \<le> b" "b \<le> int (length d)"
  shows "apply_sections (single_change a b ins (int (length d))) d =
           take (nat a) d @ ins @ drop (nat b) d"
proof -
  have eq: "nat a + nat (b - a) = nat b"
    using assms by simp
  show ?thesis
    using assms by (auto simp: single_change_def eq add.commute[of "nat (b - a)"])
qed

lemma mapPos_single_Simple:
  assumes "0 \<le> a" "a \<le> b" "b \<le> len" "0 \<le> pos" "pos \<le> len"
  shows "mapPos (single_change a b ins len) pos assoc Simple =
           Inr (Some (map_single a b (int (length ins)) pos assoc))"
  using assms by (auto simp: single_change_def mapPos_def map_single_def Let_def)

lemma map_single_bounds:
  assumes "0 \<le> a" "a \<le> b" "b \<le> len" "0 \<le> pos" "pos \<le> len" "0 \<le> n"
  shows "0 \<le> map_single a b n pos assoc" "map_single a b n pos assoc \<le> len + n - (b - a)"
  using assms by (auto simp: map_single_def)

lemma mapPos_simple_single:
  assumes "0 \<le> a" "a \<le> b" "b \<le> len" "0 \<le> pos" "pos \<le> len"
  shows "mapPos_simple (single_change a b ins len) pos assoc =
           Inr (map_single a b (int (length ins)) pos assoc)"
  using assms by (simp add: mapPos_simple_def mapPos_single_Simple)

lemma mark_map_single:
  assumes "0 \<le> a" "a \<le> b" "b \<le> len" "0 \<le> fst m" "fst m < snd m" "snd m \<le> len"
  shows "mark_map (single_change a b ins len) m = Inr (mark_single a b (int (length ins)) m)"
  using assms
  by (auto simp: mark_map_def mark_single_def Let_def mapPos_simple_single
      closedBracket_startSide_def closedBracket_endSide_def)

lemma marks_ok_map_filter:
  assumes "0 \<le> a" "a \<le> b" "b \<le> len" "0 \<le> n" "marks_ok len v"
  shows "marks_ok (len + n - (b - a)) (List.map_filter id (map (mark_single a b n) v))"
  using assms(5)
proof (induction v)
  case Nil
  then show ?case by (simp add: marks_ok_def map_filter_simps)
next
  case (Cons m v)
  then have m: "0 \<le> fst m" "fst m < snd m" "snd m \<le> len" and v: "marks_ok len v"
    by (simp_all add: marks_ok_def)
  have b1: "0 \<le> map_single a b n (fst m) 1"
    using assms(1-4) m by (intro map_single_bounds(1)[where len=len]) auto
  have b2: "map_single a b n (snd m) (- 1) \<le> len + n - (b - a)"
    using assms(1-4) m by (intro map_single_bounds(2)) auto
  from Cons.IH[OF v] b1 b2 show ?case
    by (auto simp: marks_ok_def map_filter_simps mark_single_def Let_def)
qed

lemma rangeSet_map_single:
  assumes "0 \<le> a" "a \<le> b" "b \<le> len" "marks_ok len v"
  shows "\<exists>v'. rangeSet_map v (single_change a b ins len) = Inr v' \<and>
              marks_ok (len + int (length ins) - (b - a)) v'"
proof (cases "changes_empty (single_change a b ins len) \<or> v = []")
  case True
  have "a = b \<and> ins = [] \<or> v = []"
    using True by (auto simp: changes_empty_def single_change_def split: if_splits list.splits)
  then show ?thesis
    using True assms(4) by (auto simp: rangeSet_map_def marks_ok_def)
next
  case False
  have all: "list_all (\<lambda>m. mark_map (single_change a b ins len) m =
                 Inr (mark_single a b (int (length ins)) m)) v"
    using assms(4) unfolding marks_ok_def list_all_iff
    by (auto intro!: mark_map_single assms(1-3))
  show ?thesis
    using False marks_ok_map_filter[OF assms(1-3) _ assms(4), of "int (length ins)"]
    by (simp add: rangeSet_map_def mapE_Inr[OF all])
qed

lemma lineAt_from_total:
  assumes "0 \<le> pos" "pos \<le> int (length d)"
  shows "\<exists>l. lineAt_from d pos = Inr l \<and> 0 \<le> l \<and> l \<le> pos"
proof -
  have "length (takeWhile (\<lambda>c. c \<noteq> 10) (rev (take (nat pos) d))) \<le> length (rev (take (nat pos) d))"
    by (rule length_takeWhile_le)
  also have "\<dots> \<le> nat pos"
    by simp
  finally show ?thesis
    using assms by (simp add: lineAt_from_def)
qed

lemma create_single: "create [r] 0 = Inr \<lparr>ranges = [r], mainIndex = 0\<rparr>"
  by (simp add: create_def normalized_def)

section \<open>A transaction on a single range\<close>

lemma changeByRange_single:
  assumes "selection st = \<lparr>ranges = [r], mainIndex = 0\<rparr>"
    and "changeSet_of (rr_changes res) (int (length (doc st))) = Inr cs"
  shows "changeByRange st [res] =
           Inr \<lparr>spec_changes = cs, spec_selection = Some \<lparr>ranges = [rr_range res], mainIndex = 0\<rparr>,
                spec_effects = rr_effects res, spec_scrollIntoView = False,
                spec_userEvent = None\<rparr>"
  using assms by (simp add: changeByRange_def create_single)

lemma run_transaction_dont:
  assumes "selection st = \<lparr>ranges = [r], mainIndex = 0\<rparr>"
    and "changeSet_of (rr_changes res) (int (length (doc st))) = Inr cs"
    and "rr_dont res"
  shows "run_transaction st [res] ev = Inr None"
  using assms(3) by (simp add: run_transaction_def changeByRange_single[OF assms(1,2)])

lemma run_transaction_single:
  assumes "selection st = \<lparr>ranges = [r], mainIndex = 0\<rparr>"
    and "changeSet_of (rr_changes res) (int (length (doc st))) = Inr cs"
    and "changes_length cs = int (length (doc st))"
    and "\<not> rr_dont res"
    and "range_to (rr_range res) \<le> int (length (apply_sections cs (doc st)))"
  shows "run_transaction st [res] ev =
           Inr (Some \<lparr>startState = st, changes = cs, newDoc = apply_sections cs (doc st),
                      tr_selection = Some \<lparr>ranges = [rr_range res], mainIndex = 0\<rparr>,
                      effects = rr_effects res, scrollIntoView = True, userEvent = ev\<rparr>)"
  using assms(3-5)
  by (simp add: run_transaction_def changeByRange_single[OF assms(1,2)] state_update_def
      changes_apply_def checkSelection_def)

lemma line_changed_single:
  assumes "selection (startState tr) = \<lparr>ranges = [r], mainIndex = 0\<rparr>"
    and "changes tr = single_change a b ins (int (length (doc (startState tr))))"
    and "0 \<le> a" "a \<le> b" "b \<le> int (length (doc (startState tr)))"
    and "0 \<le> head r" "head r \<le> int (length (doc (startState tr)))"
    and "0 \<le> head r'" "head r' \<le> int (length (newDoc tr))"
  shows "\<exists>c. line_changed tr \<lparr>ranges = [r'], mainIndex = 0\<rparr> = Inr c"
proof -
  obtain l where l: "lineAt_from (newDoc tr) (head r') = Inr l"
    using lineAt_from_total[OF assms(8,9)] by blast
  obtain l' where l': "lineAt_from (doc (startState tr)) (head r) = Inr l'"
    "0 \<le> l'" "l' \<le> head r"
    using lineAt_from_total[OF assms(6,7)] by blast
  have "l' \<le> int (length (doc (startState tr)))"
    using l'(3) assms(7) by simp
  then show ?thesis
    using l l' assms(1-5)
    by (simp add: line_changed_def selection_main_def mapPos_simple_single)
qed

lemma tr_state_single:
  assumes "selection (startState tr) = \<lparr>ranges = [r], mainIndex = 0\<rparr>"
    and "changes tr = single_change a b ins (int (length (doc (startState tr))))"
    and "tr_selection tr = Some \<lparr>ranges = [r'], mainIndex = 0\<rparr>"
    and "0 \<le> a" "a \<le> b" "b \<le> int (length (doc (startState tr)))"
    and "0 \<le> head r" "head r \<le> int (length (doc (startState tr)))"
    and "0 \<le> head r'" "head r' \<le> int (length (newDoc tr))"
    and "marks_ok (int (length (doc (startState tr)))) (bracketState (startState tr))"
  shows "\<exists>v. tr_state tr =
              Inr \<lparr>doc = newDoc tr, selection = \<lparr>ranges = [r'], mainIndex = 0\<rparr>,
                   readOnly = readOnly (startState tr),
                   bracketState = foldl apply_effect v (effects tr),
                   language = language (startState tr)\<rparr> \<and>
            marks_ok (int (length (doc (startState tr))) + int (length ins) - (b - a)) v \<and>
            (changes_empty (changes tr) \<longrightarrow> v = [] \<or> v = bracketState (startState tr))"
proof -
  let ?len = "int (length (doc (startState tr)))"
  obtain c where c: "line_changed tr \<lparr>ranges = [r'], mainIndex = 0\<rparr> = Inr c"
    using line_changed_single[OF assms(1,2,4-10)] by blast
  let ?v1 = "if c then [] else bracketState (startState tr)"
  have ok1: "marks_ok ?len ?v1"
    using assms(11) by (simp add: marks_ok_def)
  obtain v where v: "rangeSet_map ?v1 (single_change a b ins ?len) = Inr v"
    "marks_ok (?len + int (length ins) - (b - a)) v"
    using rangeSet_map_single[OF assms(4-6) ok1] by blast
  have "changes_empty (changes tr) \<longrightarrow> v = ?v1"
    using v(1) assms(2) by (auto simp: rangeSet_map_def)
  then have e: "changes_empty (changes tr) \<longrightarrow> v = [] \<or> v = bracketState (startState tr)"
    by auto
  have "tr_state tr =
          Inr \<lparr>doc = newDoc tr, selection = \<lparr>ranges = [r'], mainIndex = 0\<rparr>,
               readOnly = readOnly (startState tr),
               bracketState = foldl apply_effect v (effects tr),
               language = language (startState tr)\<rparr>"
    using c v(1) assms(2,3) by (simp add: tr_state_def update_bracketState_def)
  with v(2) e show ?thesis
    by blast
qed

section \<open>Opening an asymmetric bracket\<close>

lemma indexOf_from_iff:
  "0 \<le> i \<Longrightarrow> (indexOf_from s n i > - 1) = (\<exists>pre post. s = pre @ n @ post)"
proof (induction s arbitrary: i)
  case Nil
  then show ?case by auto
next
  case (Cons c t)
  show ?case
  proof (cases "take (length n) (c # t) = n")
    case True
    then have "c # t = [] @ n @ drop (length n) (c # t)"
      by (metis append_Nil append_take_drop_id)
    then have "\<exists>pre post. c # t = pre @ n @ post"
      by blast
    with True Cons.prems show ?thesis
      by simp
  next
    case False
    have "(\<exists>pre post. c # t = pre @ n @ post) = (\<exists>pre post. t = pre @ n @ post)"
    proof
      assume "\<exists>pre post. c # t = pre @ n @ post"
      then obtain pre post where e: "c # t = pre @ n @ post"
        by blast
      show "\<exists>pre post. t = pre @ n @ post"
      proof (cases pre)
        case Nil
        with e have "take (length n) (c # t) = n"
          by simp
        with False show ?thesis
          by simp
      next
        case (Cons x pre')
        with e have "t = pre' @ n @ post"
          by simp
        then show ?thesis
          by blast
      qed
    next
      assume "\<exists>pre post. t = pre @ n @ post"
      then obtain pre post where "t = pre @ n @ post"
        by blast
      then have "c # t = (c # pre) @ n @ post"
        by simp
      then show "\<exists>pre post. c # t = pre @ n @ post"
        by blast
    qed
    with False Cons.IH[of "i + 1"] Cons.prems show ?thesis
      by simp
  qed
qed

lemma indexOf_iff: "(indexOf s n > - 1) = (\<exists>pre post. s = pre @ n @ post)"
  by (simp add: indexOf_def indexOf_from_iff)

lemma closedBracketAt_add:
  assumes "q \<le> int (length (doc st))" "0 \<le> q"
    and "bracketState st = foldl apply_effect v [CloseBracketEffect q]"
  shows "closedBracketAt st q"
  using assms
  by (auto simp: closedBracketAt_def apply_effect_def rangeSet_add_def list_ex_iff set_insort_key)

lemma handleOpen_range_caret:
  "range_empty r \<Longrightarrow>
   handleOpen_range st open close closeBefore r =
     (let next = nextChar (doc st) (head r)
      in if next = [] \<or> test_space next \<or> (\<exists>pre post. closeBefore = pre @ next @ post)
         then \<lparr>rr_changes = [insert_spec (open @ close) (head r)],
               rr_effects = [CloseBracketEffect (head r + int (length open))],
               rr_range = cursor (head r + int (length open)),
               rr_dont = False\<rparr>
         else dont_result r)"
  by (simp add: handleOpen_range_def indexOf_iff Let_def)

lemma run_single_change:
  assumes sel: "selection st = \<lparr>ranges = [cursor p], mainIndex = 0\<rparr>"
    and p: "0 \<le> p" "p \<le> int (length (doc st))"
    and marks: "marks_ok (int (length (doc st))) (bracketState st)"
    and cs: "changeSet_of (rr_changes res) (int (length (doc st))) =
               Inr (single_change a b ins (int (length (doc st))))"
    and ab: "0 \<le> a" "a \<le> b" "b \<le> int (length (doc st))"
    and nd: "\<not> rr_dont res"
    and rr: "rr_range res = cursor q"
    and q: "0 \<le> q" "q \<le> int (length (doc st)) + int (length ins) - (b - a)"
  shows "\<exists>tr v. run_transaction st [res] ev = Inr (Some tr) \<and>
           startState tr = st \<and>
           newDoc tr = take (nat a) (doc st) @ ins @ drop (nat b) (doc st) \<and>
           tr_selection tr = Some \<lparr>ranges = [cursor q], mainIndex = 0\<rparr> \<and>
           effects tr = rr_effects res \<and>
           tr_state tr =
             Inr \<lparr>doc = take (nat a) (doc st) @ ins @ drop (nat b) (doc st),
                  selection = \<lparr>ranges = [cursor q], mainIndex = 0\<rparr>,
                  readOnly = readOnly st,
                  bracketState = foldl apply_effect v (rr_effects res),
                  language = language st\<rparr> \<and>
           marks_ok (int (length (doc st)) + int (length ins) - (b - a)) v \<and>
           (a = b \<and> ins = [] \<longrightarrow> v = [] \<or> v = bracketState st)"
proof -
  let ?len = "int (length (doc st))"
  let ?cs = "single_change a b ins ?len"
  have len: "changes_length ?cs = ?len"
    using ab by (simp add: changes_length_single)
  have ap: "apply_sections ?cs (doc st) = take (nat a) (doc st) @ ins @ drop (nat b) (doc st)"
    using ab by (simp add: apply_single)
  have newlen: "int (length (apply_sections ?cs (doc st))) = ?len + int (length ins) - (b - a)"
    unfolding ap using ab by simp
  have rng: "range_to (rr_range res) \<le> int (length (apply_sections ?cs (doc st)))"
    unfolding rr newlen using q by (simp add: cursor_def mkRange_def range_to_def)
  define tr where "tr = \<lparr>startState = st, changes = ?cs, newDoc = apply_sections ?cs (doc st),
      tr_selection = Some \<lparr>ranges = [rr_range res], mainIndex = 0\<rparr>,
      effects = rr_effects res, scrollIntoView = True, userEvent = ev\<rparr>"
  have run: "run_transaction st [res] ev = Inr (Some tr)"
    using run_transaction_single[OF sel cs len nd rng, of ev]
    by (simp add: tr_def)
  have "\<exists>v. tr_state tr =
              Inr \<lparr>doc = newDoc tr, selection = \<lparr>ranges = [cursor q], mainIndex = 0\<rparr>,
                   readOnly = readOnly (startState tr),
                   bracketState = foldl apply_effect v (effects tr),
                   language = language (startState tr)\<rparr> \<and>
            marks_ok (int (length (doc (startState tr))) + int (length ins) - (b - a)) v \<and>
            (changes_empty (changes tr) \<longrightarrow> v = [] \<or> v = bracketState (startState tr))"
  proof (rule tr_state_single[where r = "cursor p"])
    show "selection (startState tr) = \<lparr>ranges = [cursor p], mainIndex = 0\<rparr>"
      by (simp add: tr_def sel)
    show "changes tr = single_change a b ins (int (length (doc (startState tr))))"
      by (simp add: tr_def)
    show "tr_selection tr = Some \<lparr>ranges = [cursor q], mainIndex = 0\<rparr>"
      by (simp add: tr_def rr)
    show "0 \<le> a" "a \<le> b" "b \<le> int (length (doc (startState tr)))"
      using ab by (simp_all add: tr_def)
    show "0 \<le> head (cursor p)" "head (cursor p) \<le> int (length (doc (startState tr)))"
      using p by (simp_all add: tr_def cursor_def mkRange_def)
    show "0 \<le> head (cursor q)" "head (cursor q) \<le> int (length (newDoc tr))"
      using q newlen by (simp_all add: tr_def cursor_def mkRange_def)
    show "marks_ok (int (length (doc (startState tr)))) (bracketState (startState tr))"
      using marks by (simp add: tr_def)
  qed
  then obtain v where v: "tr_state tr =
              Inr \<lparr>doc = newDoc tr, selection = \<lparr>ranges = [cursor q], mainIndex = 0\<rparr>,
                   readOnly = readOnly (startState tr),
                   bracketState = foldl apply_effect v (effects tr),
                   language = language (startState tr)\<rparr>"
     "marks_ok (int (length (doc (startState tr))) + int (length ins) - (b - a)) v"
     "changes_empty (changes tr) \<longrightarrow> v = [] \<or> v = bracketState (startState tr)"
    by blast
  have e: "a = b \<and> ins = [] \<longrightarrow> changes_empty (changes tr)"
    by (simp add: tr_def single_change_def changes_empty_def)
  have "startState tr = st \<and>
        newDoc tr = take (nat a) (doc st) @ ins @ drop (nat b) (doc st) \<and>
        tr_selection tr = Some \<lparr>ranges = [cursor q], mainIndex = 0\<rparr> \<and>
        effects tr = rr_effects res"
    by (simp add: tr_def ap rr)
  moreover have "tr_state tr =
             Inr \<lparr>doc = take (nat a) (doc st) @ ins @ drop (nat b) (doc st),
                  selection = \<lparr>ranges = [cursor q], mainIndex = 0\<rparr>,
                  readOnly = readOnly st,
                  bracketState = foldl apply_effect v (rr_effects res),
                  language = language st\<rparr>"
    using v(1) by (simp add: tr_def ap)
  moreover have "marks_ok (int (length (doc st)) + int (length ins) - (b - a)) v"
    using v(2) by (simp add: tr_def)
  moreover have "a = b \<and> ins = [] \<longrightarrow> v = [] \<or> v = bracketState st"
    using v(3) e by (simp add: tr_def)
  ultimately show ?thesis
    using run by blast
qed

lemma changeSet_of_insert:
  "0 \<le> p \<Longrightarrow> p \<le> len \<Longrightarrow>
   changeSet_of [insert_spec ins p] len = Inr (single_change p p ins len)"
  by (simp add: insert_spec_def changeSet_of_single)

lemma changeSet_of_none: "changeSet_of [] len = Inr (single_change 0 0 [] len)"
  by (simp add: changeSet_of_Nil single_change_def)

lemma run_dont_single:
  assumes "selection st = \<lparr>ranges = [r], mainIndex = 0\<rparr>"
  shows "run_transaction st [dont_result r] ev = Inr None"
  by (rule run_transaction_dont[OF assms, where cs = "single_change 0 0 [] (int (length (doc st)))"])
     (simp_all add: dont_result_def changeSet_of_none)

text \<open>
  C1: at an empty range, \<open>handleOpen\<close> closes the bracket exactly when the character
  behind the caret is empty, contains whitespace or occurs in the \<open>before\<close> string, and
  otherwise rejects the range. For a selection that is one caret in the document the
  transaction then exists, and the state it produces has \<open>open @ close\<close> inserted at the
  caret, the caret between the two, and a mark at the position of the closer; when the
  range is rejected, \<open>handleOpen\<close> returns \<open>null\<close>.
\<close>

theorem handleOpen_caret:
  assumes sel: "selection st = \<lparr>ranges = [cursor p], mainIndex = 0\<rparr>"
    and p: "0 \<le> p" "p \<le> int (length (doc st))"
    and marks: "marks_ok (int (length (doc st))) (bracketState st)"
  shows "(range_empty r \<longrightarrow>
            handleOpen_range st open close closeBefore r =
              (let next = nextChar (doc st) (head r)
               in if next = [] \<or> test_space next \<or> (\<exists>pre post. closeBefore = pre @ next @ post)
                  then \<lparr>rr_changes = [insert_spec (open @ close) (head r)],
                        rr_effects = [CloseBracketEffect (head r + int (length open))],
                        rr_range = cursor (head r + int (length open)),
                        rr_dont = False\<rparr>
                  else dont_result r)) \<and>
         (let next = nextChar (doc st) p
          in if next = [] \<or> test_space next \<or> (\<exists>pre post. closeBefore = pre @ next @ post)
             then \<exists>tr st'. handleOpen st open close closeBefore = Inr (Some tr) \<and>
                    tr_state tr = Inr st' \<and>
                    doc st' = take (nat p) (doc st) @ open @ close @ drop (nat p) (doc st) \<and>
                    selection st' =
                      \<lparr>ranges = [cursor (p + int (length open))], mainIndex = 0\<rparr> \<and>
                    closedBracketAt st' (p + int (length open))
             else handleOpen st open close closeBefore = Inr None)"
proof (intro conjI impI)
  assume "range_empty r"
  then show "handleOpen_range st open close closeBefore r =
              (let next = nextChar (doc st) (head r)
               in if next = [] \<or> test_space next \<or> (\<exists>pre post. closeBefore = pre @ next @ post)
                  then \<lparr>rr_changes = [insert_spec (open @ close) (head r)],
                        rr_effects = [CloseBracketEffect (head r + int (length open))],
                        rr_range = cursor (head r + int (length open)),
                        rr_dont = False\<rparr>
                  else dont_result r)"
    by (rule handleOpen_range_caret)
next
  let ?next = "nextChar (doc st) p"
  let ?len = "int (length (doc st))"
  let ?q = "p + int (length open)"
  have e: "range_empty (cursor p)" and h: "head (cursor p) = p"
    by (simp_all add: range_empty_def range_from_def range_to_def cursor_def mkRange_def)
  show "let next = ?next
        in if next = [] \<or> test_space next \<or> (\<exists>pre post. closeBefore = pre @ next @ post)
           then \<exists>tr st'. handleOpen st open close closeBefore = Inr (Some tr) \<and>
                  tr_state tr = Inr st' \<and>
                  doc st' = take (nat p) (doc st) @ open @ close @ drop (nat p) (doc st) \<and>
                  selection st' = \<lparr>ranges = [cursor ?q], mainIndex = 0\<rparr> \<and>
                  closedBracketAt st' ?q
           else handleOpen st open close closeBefore = Inr None"
  proof (cases "?next = [] \<or> test_space ?next \<or> (\<exists>pre post. closeBefore = pre @ ?next @ post)")
    case False
    then have "handleOpen_range st open close closeBefore (cursor p) = dont_result (cursor p)"
      using handleOpen_range_caret[OF e, of st "open" close closeBefore] by (simp add: h Let_def)
    then have "handleOpen st open close closeBefore = Inr None"
      by (simp add: handleOpen_def sel run_dont_single[OF sel])
    with False show ?thesis
      by (simp add: Let_def)
  next
    case True
    let ?res = "handleOpen_range st open close closeBefore (cursor p)"
    have res: "?res = \<lparr>rr_changes = [insert_spec (open @ close) p],
                       rr_effects = [CloseBracketEffect ?q],
                       rr_range = cursor ?q, rr_dont = False\<rparr>"
      using True handleOpen_range_caret[OF e, of st "open" close closeBefore]
      by (simp add: h Let_def)
    have cs: "changeSet_of (rr_changes ?res) ?len = Inr (single_change p p (open @ close) ?len)"
      unfolding res using p by (simp add: changeSet_of_insert)
    have "\<exists>tr v. run_transaction st [?res] (Some ''input.type'') = Inr (Some tr) \<and>
           startState tr = st \<and>
           newDoc tr = take (nat p) (doc st) @ (open @ close) @ drop (nat p) (doc st) \<and>
           tr_selection tr = Some \<lparr>ranges = [cursor ?q], mainIndex = 0\<rparr> \<and>
           effects tr = rr_effects ?res \<and>
           tr_state tr =
             Inr \<lparr>doc = take (nat p) (doc st) @ (open @ close) @ drop (nat p) (doc st),
                  selection = \<lparr>ranges = [cursor ?q], mainIndex = 0\<rparr>,
                  readOnly = readOnly st,
                  bracketState = foldl apply_effect v (rr_effects ?res),
                  language = language st\<rparr> \<and>
           marks_ok (?len + int (length (open @ close)) - (p - p)) v \<and>
           (p = p \<and> open @ close = [] \<longrightarrow> v = [] \<or> v = bracketState st)"
      using p by (intro run_single_change[OF sel p marks cs]) (simp_all add: res)
    then obtain tr v where tr: "run_transaction st [?res] (Some ''input.type'') = Inr (Some tr)"
      and st': "tr_state tr =
             Inr \<lparr>doc = take (nat p) (doc st) @ (open @ close) @ drop (nat p) (doc st),
                  selection = \<lparr>ranges = [cursor ?q], mainIndex = 0\<rparr>,
                  readOnly = readOnly st,
                  bracketState = foldl apply_effect v (rr_effects ?res),
                  language = language st\<rparr>"
      by blast
    let ?st' = "\<lparr>doc = take (nat p) (doc st) @ (open @ close) @ drop (nat p) (doc st),
                  selection = \<lparr>ranges = [cursor ?q], mainIndex = 0\<rparr>,
                  readOnly = readOnly st,
                  bracketState = foldl apply_effect v (rr_effects ?res),
                  language = language st\<rparr>"
    have "closedBracketAt ?st' ?q"
      using p by (intro closedBracketAt_add[where v = v]) (simp_all add: res)
    moreover have "handleOpen st open close closeBefore = Inr (Some tr)"
      using tr by (simp add: handleOpen_def sel)
    ultimately have "\<exists>tr st'. handleOpen st open close closeBefore = Inr (Some tr) \<and>
                  tr_state tr = Inr st' \<and>
                  doc st' = take (nat p) (doc st) @ open @ close @ drop (nat p) (doc st) \<and>
                  selection st' = \<lparr>ranges = [cursor ?q], mainIndex = 0\<rparr> \<and>
                  closedBracketAt st' ?q"
      using st' by (intro exI[of _ tr] exI[of _ ?st']) simp
    with True show ?thesis
      by (simp add: Let_def)
  qed
qed

lemma plain_state_simps [simp]:
  "doc (plain_state d rs m) = d"
  "selection (plain_state d rs m) = \<lparr>ranges = rs, mainIndex = 0\<rparr>"
  "readOnly (plain_state d rs m) = False"
  "bracketState (plain_state d rs m) = m"
  "language (plain_state d rs m) = plain_language"
  by (simp_all add: plain_state_def)

lemma marks_ok_Nil [simp]: "marks_ok len []"
  by (simp add: marks_ok_def)

lemma not_in_before: "\<not> (\<exists>pre post. defaults_before = pre @ js ''b'' @ post)"
  unfolding indexOf_iff[symmetric]
  by (simp add: indexOf_def defaults_before_def js_def)

theorem handleOpen_caret_witness:
  "(\<exists>tr st'. handleOpen (plain_state (js ''ab'') [cursor 2] []) (js ''('') (js '')'')
                 defaults_before = Inr (Some tr) \<and>
      tr_state tr = Inr st' \<and> doc st' = js ''ab()'' \<and>
      selection st' = \<lparr>ranges = [cursor 3], mainIndex = 0\<rparr> \<and>
      closedBracketAt st' 3) \<and>
   handleOpen (plain_state (js ''ab'') [cursor 1] []) (js ''('') (js '')'') defaults_before =
     Inr None"
proof -
  have n2: "nextChar (js ''ab'') 2 = []" and n1: "nextChar (js ''ab'') 1 = js ''b''"
    by (simp_all add: string_eval)
  have sp: "\<not> test_space (js ''b'')" "js ''b'' \<noteq> []"
    by (simp_all add: test_space_def isSpace_def js_def)
  have len: "int (length (js ''ab'')) = 2" "int (length (js ''('')) = 1"
    and d: "take 2 (js ''ab'') @ js ''('' @ js '')'' @ drop 2 (js ''ab'') = js ''ab()''"
    by (simp_all add: js_def)
  have a: "\<exists>tr st'. handleOpen (plain_state (js ''ab'') [cursor 2] []) (js ''('') (js '')'')
                 defaults_before = Inr (Some tr) \<and>
      tr_state tr = Inr st' \<and> doc st' = js ''ab()'' \<and>
      selection st' = \<lparr>ranges = [cursor 3], mainIndex = 0\<rparr> \<and>
      closedBracketAt st' 3"
    using handleOpen_caret[of "plain_state (js ''ab'') [cursor 2] []" 2 "cursor 2"
        "js ''(''" "js '')''" defaults_before, THEN conjunct2]
    by (simp add: n2 len d)
  have b: "handleOpen (plain_state (js ''ab'') [cursor 1] []) (js ''('') (js '')'')
             defaults_before = Inr None"
    using handleOpen_caret[of "plain_state (js ''ab'') [cursor 1] []" 1 "cursor 1"
        "js ''(''" "js '')''" defaults_before, THEN conjunct2] not_in_before
    by (simp add: n1 sp len)
  from a b show ?thesis
    by blast
qed

lemma codePointSize_single: "codePointSize (codePointAt [c] 0) = 1"
  using unat_code_unit_less[of c] by (simp add: codePointAt_def charCodeAt_def codePointSize_def)

lemma sliceString_append_next:
  "sliceString (pre @ s) (int (length pre)) (int (length pre) + 2) = take 2 s"
  by (simp add: sliceString_def Let_def nat_add_distrib)


lemma nextChar_append:
  assumes "well_formed_char t"
  shows "nextChar (pre @ t @ rest) (int (length pre)) = t"
proof -
  have s: "sliceString (pre @ t @ rest) (int (length pre)) (int (length pre) + 2) = take 2 (t @ rest)"
    by (rule sliceString_append_next)
  from assms consider c where "t = [c]" "\<not> surrogateHigh (unat c)"
    | h l where "t = [h, l]" "surrogateHigh (unat h)" "surrogateLow (unat l)"
    by (auto simp: well_formed_char_def split: list.splits)
  then show ?thesis
  proof cases
    case 1
    show ?thesis
    proof (cases rest)
      case Nil
      with 1 show ?thesis
        unfolding nextChar_def s by (simp add: codePointSize_single Let_def)
    next
      case (Cons y ys)
      with 1 show ?thesis
        unfolding nextChar_def s by (simp add: codePointSize_pair Let_def)
    qed
  next
    case 2
    then show ?thesis
      unfolding nextChar_def s by (simp add: codePointSize_pair Let_def)
  qed
qed


section \<open>Insertion followed by pair deletion\<close>

lemma selection_main_single [simp]:
  "selection_main \<lparr>ranges = [r], mainIndex = 0\<rparr> = Inr r"
  by (simp add: selection_main_def)

lemma cursor_simps [simp]:
  "head (cursor p) = p" "anchor (cursor p) = p" "range_from (cursor p) = p"
  "range_to (cursor p) = p" "range_empty (cursor p)"
  by (simp_all add: cursor_def mkRange_def range_from_def range_to_def range_empty_def)

lemma insertBracket_loop_open:
  assumes "bracket \<in> set toks"
    and "\<forall>t \<in> set toks. closing (codePointAt t 0) \<noteq> bracket"
  shows "insertBracket_loop st bracket conf tokens toks =
           handleOpen st bracket (closing (codePointAt bracket 0)) (conf_before conf)"
  using assms
proof (induction toks)
  case Nil
  then show ?case by simp
next
  case (Cons t toks)
  show ?case
  proof (cases "bracket = t")
    case True
    with Cons.prems(2) show ?thesis
      by (simp add: Let_def)
  next
    case False
    with Cons show ?thesis
      by (auto simp: Let_def)
  qed
qed

lemma deleteBracketPair_tokens_found:
  assumes "b \<in> set tokens" "nextChar (doc st) (head r) = closing (codePointAt b 0)"
  shows "deleteBracketPair_tokens st r b tokens =
           Some \<lparr>rr_changes = [\<lparr>cs_from = head r - int (length b),
                                 cs_to = head r + int (length b), cs_insert = []\<rparr>],
                 rr_effects = [],
                 rr_range = cursor (head r - int (length b)),
                 rr_dont = False\<rparr>"
  using assms by (induction tokens) auto

lemma marks_ok_add:
  assumes "marks_ok len v" "0 \<le> q" "q + 1 \<le> len"
  shows "marks_ok len (apply_effect v (CloseBracketEffect q))"
  using assms
  by (auto simp: marks_ok_def apply_effect_def rangeSet_add_def list_all_iff set_insort_key)

lemma well_formed_char_length: "well_formed_char t \<Longrightarrow> 1 \<le> length t"
  by (auto simp: well_formed_char_def split: list.splits)


lemma handleOpen_single_state:
  assumes sel: "selection st = \<lparr>ranges = [cursor p], mainIndex = 0\<rparr>"
    and p: "0 \<le> p" "p \<le> int (length (doc st))"
    and marks: "marks_ok (int (length (doc st))) (bracketState st)"
    and cond: "nextChar (doc st) p = [] \<or> test_space (nextChar (doc st) p) \<or>
               indexOf closeBefore (nextChar (doc st) p) > - 1"
  shows "\<exists>tr v. handleOpen st open close closeBefore = Inr (Some tr) \<and>
           tr_state tr =
             Inr \<lparr>doc = take (nat p) (doc st) @ (open @ close) @ drop (nat p) (doc st),
                  selection = \<lparr>ranges = [cursor (p + int (length open))], mainIndex = 0\<rparr>,
                  readOnly = readOnly st,
                  bracketState = foldl apply_effect v [CloseBracketEffect (p + int (length open))],
                  language = language st\<rparr> \<and>
           marks_ok (int (length (doc st)) + int (length (open @ close))) v"
proof -
  let ?len = "int (length (doc st))"
  let ?q = "p + int (length open)"
  let ?res = "handleOpen_range st open close closeBefore (cursor p)"
  have res: "?res = \<lparr>rr_changes = [insert_spec (open @ close) p],
                     rr_effects = [CloseBracketEffect ?q],
                     rr_range = cursor ?q, rr_dont = False\<rparr>"
    using cond by (simp add: handleOpen_range_def Let_def)
  have cs: "changeSet_of (rr_changes ?res) ?len = Inr (single_change p p (open @ close) ?len)"
    unfolding res using p by (simp add: changeSet_of_insert)
  have "\<exists>tr v. run_transaction st [?res] (Some ''input.type'') = Inr (Some tr) \<and>
         startState tr = st \<and>
         newDoc tr = take (nat p) (doc st) @ (open @ close) @ drop (nat p) (doc st) \<and>
         tr_selection tr = Some \<lparr>ranges = [cursor ?q], mainIndex = 0\<rparr> \<and>
         effects tr = rr_effects ?res \<and>
         tr_state tr =
           Inr \<lparr>doc = take (nat p) (doc st) @ (open @ close) @ drop (nat p) (doc st),
                selection = \<lparr>ranges = [cursor ?q], mainIndex = 0\<rparr>,
                readOnly = readOnly st,
                bracketState = foldl apply_effect v (rr_effects ?res),
                language = language st\<rparr> \<and>
         marks_ok (?len + int (length (open @ close)) - (p - p)) v \<and>
         (p = p \<and> open @ close = [] \<longrightarrow> v = [] \<or> v = bracketState st)"
    using p by (intro run_single_change[OF sel p marks cs]) (simp_all add: res)
  then obtain tr v where "run_transaction st [?res] (Some ''input.type'') = Inr (Some tr)"
    and "tr_state tr =
           Inr \<lparr>doc = take (nat p) (doc st) @ (open @ close) @ drop (nat p) (doc st),
                selection = \<lparr>ranges = [cursor ?q], mainIndex = 0\<rparr>,
                readOnly = readOnly st,
                bracketState = foldl apply_effect v (rr_effects ?res),
                language = language st\<rparr>"
    and "marks_ok (?len + int (length (open @ close)) - (p - p)) v"
    by blast
  then show ?thesis
    by (intro exI[of _ tr] exI[of _ v]) (simp add: handleOpen_def sel res)
qed

lemma python_state_simps [simp]:
  "doc (python_state d rs m) = d"
  "selection (python_state d rs m) = \<lparr>ranges = rs, mainIndex = 0\<rparr>"
  "readOnly (python_state d rs m) = False"
  "bracketState (python_state d rs m) = m"
  "language (python_state d rs m) = python_language"
  by (simp_all add: python_state_def)

lemma config_plain [simp]: "language st = plain_language \<Longrightarrow> config st pos = defaults"
  by (simp add: config_def plain_language_def)

lemma config_python [simp]:
  "language st = python_language \<Longrightarrow>
   config st pos = \<lparr>brackets = Some python_brackets, before = None\<rparr>"
  by (simp add: config_def python_language_def)

lemma conf_defaults [simp]:
  "conf_tokens defaults = defaults_brackets" "conf_before defaults = defaults_before"
  by (simp_all add: conf_tokens_def conf_before_def defaults_def defaults_before_def js_def)

lemma closing_of_char: "closing (codePointAt [c] 0) = closing (Some (unat c))"
  by (simp add: codePointAt_def charCodeAt_def)

lemma closing_defaults:
  "closing (codePointAt (js ''('') 0) = js '')''"
  "closing (codePointAt (js ''['') 0) = js '']''"
  "closing (codePointAt (js ''{'') 0) = js ''}''"
  "closing (codePointAt (js [CHR 0x27]) 0) = js [CHR 0x27]"
  "closing (codePointAt (js [CHR 0x22]) 0) = js [CHR 0x22]"
  "closing (codePointAt (js [CHR 0x27, CHR 0x27, CHR 0x27]) 0) = js [CHR 0x27]"
  "closing (codePointAt (js [CHR 0x22, CHR 0x22, CHR 0x22]) 0) = js [CHR 0x22]"
  by (simp_all add: js_def codePointAt_def charCodeAt_def surrogateHigh_def closing_table
      closing_fallback fromCodePoint_def fromCharCode_def)

section \<open>Skipping over a closer\<close>

lemma create_unsorted_mono:
  "create_unsorted pos rs \<Longrightarrow> pos \<le> pos' \<Longrightarrow> create_unsorted pos' rs"
  by (cases rs) (auto split: if_splits)

lemma create_unsorted_moved:
  assumes "\<not> create_unsorted pos rs" "list_all range_empty rs"
  shows "\<not> create_unsorted (pos + n) (map (\<lambda>r. cursor (head r + n)) rs)"
  using assms
proof (induction rs arbitrary: pos)
  case Nil
  then show ?case by simp
next
  case (Cons r rs)
  from Cons.prems have e: "range_empty r" and rest: "list_all range_empty rs"
    by simp_all
  from e have h: "range_from r = head r" "range_to r = head r"
    by (auto simp: range_empty_def range_from_def range_to_def)
  from Cons.prems(1) e have gt: "pos < head r" and nu: "\<not> create_unsorted (head r) rs"
    by (simp_all add: h)
  from Cons.IH[OF nu rest] gt show ?case
    by simp
qed

lemma create_sorted_moved:
  assumes "rs \<noteq> []" "\<not> create_unsorted (- 1) rs" "list_all range_empty rs" "1 \<le> n"
  shows "create (map (\<lambda>r. cursor (head r + n)) rs) mi =
           Inr \<lparr>ranges = map (\<lambda>r. cursor (head r + n)) rs, mainIndex = mi\<rparr>"
proof -
  have "\<not> create_unsorted (- 1 + n) (map (\<lambda>r. cursor (head r + n)) rs)"
    by (rule create_unsorted_moved[OF assms(2,3)])
  then have "\<not> create_unsorted 0 (map (\<lambda>r. cursor (head r + n)) rs)"
    using create_unsorted_mono[of 0 _ "- 1 + n"] assms(4) by auto
  then show ?thesis
    using assms(1) by (simp add: create_def)
qed

lemma create_unsorted_lower:
  "\<not> create_unsorted pos rs \<Longrightarrow> r \<in> set rs \<Longrightarrow> pos \<le> range_from r"
proof (induction rs arbitrary: pos)
  case Nil
  then show ?case by simp
next
  case (Cons x rs)
  have le: "range_from x \<le> range_to x"
    by (simp add: range_from_def range_to_def)
  from Cons.prems(1) have x: "pos \<le> range_from x" and rest: "\<not> create_unsorted (range_to x) rs"
    by (auto split: if_splits)
  show ?case
  proof (cases "r = x")
    case True
    with x show ?thesis by simp
  next
    case False
    with Cons.prems(2) have "r \<in> set rs" by simp
    from Cons.IH[OF rest this] x le show ?thesis by simp
  qed
qed

lemma create_unsorted_lower_empty:
  "\<not> create_unsorted pos rs \<Longrightarrow> r \<in> set rs \<Longrightarrow> range_empty r \<Longrightarrow> pos < range_from r"
proof (induction rs arbitrary: pos)
  case Nil
  then show ?case by simp
next
  case (Cons x rs)
  have le: "range_from x \<le> range_to x"
    by (simp add: range_from_def range_to_def)
  from Cons.prems(1) have x: "pos \<le> range_from x" and rest: "\<not> create_unsorted (range_to x) rs"
    by (auto split: if_splits)
  show ?case
  proof (cases "r = x")
    case True
    with Cons.prems(1,3) show ?thesis by simp
  next
    case False
    with Cons.prems(2) have "r \<in> set rs" by simp
    from Cons.IH[OF rest this Cons.prems(3)] x le show ?thesis by simp
  qed
qed

lemma length_nextChar:
  assumes "0 \<le> p"
  shows "p + int (length (nextChar d p)) \<le> max p (int (length d))"
proof -
  have "length (nextChar d p) \<le> length (sliceString d p (p + 2))"
    by (simp add: nextChar_def Let_def)
  also have "\<dots> \<le> length d - nat p"
    using assms by (simp add: sliceString_def Let_def)
  finally show ?thesis
    using assms by auto
qed

lemma nextChar_in_doc:
  assumes "0 \<le> p" "nextChar d p = close" "close \<noteq> []"
  shows "p + int (length close) \<le> int (length d)"
  using length_nextChar[OF assms(1), of d] assms(2,3)
  by (cases "p \<le> int (length d)") auto

lemma apply_effect_skip:
  "apply_effect v (SkipBracketEffect p) = filter (\<lambda>m. fst m \<noteq> p) v"
  by (simp add: apply_effect_def rangeSet_filter_def)

lemma foldl_skip:
  "foldl apply_effect v (map SkipBracketEffect ps) = filter (\<lambda>m. fst m \<notin> set ps) v"
proof (induction ps arbitrary: v)
  case Nil
  then show ?case by simp
next
  case (Cons p ps)
  show ?case
    by (simp add: Cons.IH apply_effect_skip conj_commute)
qed

lemma mapPos_simple_empty:
  assumes "0 \<le> l" "l \<le> len"
  shows "mapPos_simple (if len = 0 then [] else [Unchanged len]) l assoc = Inr l"
  using assms by (auto simp: mapPos_simple_def mapPos_def)

lemma handleClose_accept:
  assumes wf: "wf_selection (selection st)"
    and c: "close \<noteq> []"
    and ok: "list_all (\<lambda>r. range_empty r \<and> nextChar (doc st) (head r) = close)
               (ranges (selection st))"
  shows "\<exists>tr c. handleClose st open close = Inr (Some tr) \<and>
           changes_empty (changes tr) \<and>
           tr_state tr =
             Inr \<lparr>doc = doc st,
                  selection = \<lparr>ranges = map (\<lambda>r. cursor (head r + int (length close)))
                                           (ranges (selection st)),
                               mainIndex = mainIndex (selection st)\<rparr>,
                  readOnly = readOnly st,
                  bracketState =
                    filter (\<lambda>m. fst m \<notin> set (map range_from (ranges (selection st))))
                      (if c then [] else bracketState st),
                  language = language st\<rparr>"
proof -
  let ?rs = "ranges (selection st)"
  let ?n = "int (length close)"
  let ?len = "int (length (doc st))"
  let ?mv = "\<lambda>r. cursor (head r + ?n)"
  let ?cs = "if doc st = [] then [] else [Unchanged ?len]"
  from wf have ne: "?rs \<noteq> []" and mi: "mainIndex (selection st) < length ?rs"
    and srt: "\<not> create_unsorted (- 1) ?rs"
    by (simp_all add: wf_selection_def)
  have n1: "1 \<le> ?n"
    using c by (cases close) simp_all
  have em: "list_all range_empty ?rs"
    using ok by (simp add: list_all_iff)
  have moved: "map (handleClose_range st close) ?rs = map (\<lambda>r. (?mv r, False)) ?rs"
    using ok by (simp add: list_all_iff handleClose_range_def)
  have nd: "\<not> list_ex snd (map (handleClose_range st close) ?rs)"
    unfolding moved by (simp add: list_ex_iff)
  have fst: "map fst (map (handleClose_range st close) ?rs) = map ?mv ?rs"
    unfolding moved by simp
  let ?sel' = "\<lparr>ranges = map ?mv ?rs, mainIndex = mainIndex (selection st)\<rparr>"
  have cr: "create (map ?mv ?rs) (mainIndex (selection st)) = Inr ?sel'"
    by (rule create_sorted_moved[OF ne srt em n1])
  have inb: "0 \<le> head r \<and> head r + ?n \<le> ?len" if "r \<in> set ?rs" for r
  proof -
    from that ok have e: "range_empty r" and nx: "nextChar (doc st) (head r) = close"
      by (simp_all add: list_all_iff)
    from e have h: "range_from r = head r"
      by (auto simp: range_empty_def range_from_def range_to_def)
    from create_unsorted_lower_empty[OF srt that e] have "0 \<le> head r"
      by (simp add: h)
    with nextChar_in_doc[OF _ nx c] show ?thesis
      by simp
  qed
  have chk: "checkSelection ?sel' ?len"
    using inb by (simp add: checkSelection_def list_all_iff range_to_def cursor_def mkRange_def)
  define cs where "cs = (if doc st = [] then [] else [Unchanged ?len])"
  have app: "changes_apply cs (doc st) = Inr (doc st)"
    by (simp add: changes_apply_def cs_def)
  have ce: "changes_empty cs"
    by (simp add: changes_empty_def cs_def)
  define tr where "tr = \<lparr>startState = st, changes = cs, newDoc = doc st,
      tr_selection = Some ?sel',
      effects = map (\<lambda>r. SkipBracketEffect (range_from r)) ?rs,
      scrollIntoView = True, userEvent = None\<rparr>"
  have upd: "state_update st \<lparr>spec_changes = cs, spec_selection = Some ?sel',
               spec_effects = map (\<lambda>r. SkipBracketEffect (range_from r)) ?rs,
               spec_scrollIntoView = True, spec_userEvent = None\<rparr> = Inr tr"
    by (simp add: state_update_def app chk tr_def)
  have run: "handleClose st open close = Inr (Some tr)"
    unfolding handleClose_def Let_def cs_def[symmetric] fst
    using nd by (simp add: cr upd)
  let ?main = "?rs ! mainIndex (selection st)"
  have main_in: "?main \<in> set ?rs"
    using mi by simp
  have m1: "selection_main (selection st) = Inr ?main"
    using mi by (simp add: selection_main_def)
  have m2: "selection_main ?sel' = Inr (?mv ?main)"
    using mi by (simp add: selection_main_def)
  obtain l' where l': "lineAt_from (doc st) (head ?main) = Inr l'" "0 \<le> l'" "l' \<le> head ?main"
    using lineAt_from_total[of "head ?main" "doc st"] inb[OF main_in] n1 by auto
  obtain l where l: "lineAt_from (doc st) (head ?main + ?n) = Inr l"
    using lineAt_from_total[of "head ?main + ?n" "doc st"] inb[OF main_in] n1 by auto
  have l'len: "l' \<le> ?len"
    using l'(3) inb[OF main_in] n1 by simp
  have mp: "mapPos_simple cs l' (- 1) = Inr l'"
    using mapPos_simple_empty[OF l'(2) l'len, of "- 1"] by (simp add: cs_def)
  have lc: "line_changed tr ?sel' = Inr (l \<noteq> l')"
    by (simp add: line_changed_def tr_def m1 m2 l l' mp)
  have rm: "rangeSet_map v cs = Inr v" for v
    using ce by (simp add: rangeSet_map_def)
  have fs: "foldl apply_effect v (map (\<lambda>r. SkipBracketEffect (range_from r)) ?rs) =
              filter (\<lambda>m. fst m \<notin> set (map range_from ?rs)) v" for v
    using foldl_skip[of v "map range_from ?rs"] by (simp add: comp_def)
  have "tr_state tr =
             Inr \<lparr>doc = doc st, selection = ?sel', readOnly = readOnly st,
                  bracketState =
                    filter (\<lambda>m. fst m \<notin> set (map range_from ?rs))
                      (if l \<noteq> l' then [] else bracketState st),
                  language = language st\<rparr>"
    by (simp add: tr_state_def update_bracketState_def tr_def lc[unfolded tr_def] rm fs)
  moreover have "changes_empty (changes tr)"
    using ce by (simp add: tr_def)
  ultimately show ?thesis
    using run by blast
qed

lemma handleClose_reject:
  assumes "\<not> list_all (\<lambda>r. range_empty r \<and> nextChar (doc st) (head r) = close)
               (ranges (selection st))"
  shows "handleClose st open close = Inr None"
proof -
  from assms obtain r where "r \<in> set (ranges (selection st))"
    "\<not> (range_empty r \<and> nextChar (doc st) (head r) = close)"
    by (auto simp: list_all_iff)
  then have "handleClose_range st close r \<in> set (map (handleClose_range st close) (ranges (selection st)))"
    and "snd (handleClose_range st close r)"
    by (simp_all add: handleClose_range_def)
  then have "list_ex snd (map (handleClose_range st close) (ranges (selection st)))"
    unfolding list_ex_iff by (rule bexI[rotated])
  then show ?thesis
    by (simp add: handleClose_def Let_def)
qed

text \<open>
  C2 (amended): for a selection that satisfies the invariant of the library and a
  close token that is not empty, \<open>handleClose\<close> returns a transaction exactly when
  every range is empty and has the close token behind it. The transaction changes no
  text; in its state every caret has moved behind the close token and no position where
  a caret stood holds a mark. When one range is not empty or has another character
  behind it, \<open>handleClose\<close> returns \<open>null\<close>. Whether a caret stands before a tracked
  closer is not asked here: \<open>insertBracket\<close> asks it of the main range only.
\<close>

theorem handleClose_all_or_nothing:
  assumes wf: "wf_selection (selection st)"
    and c: "close \<noteq> []"
  shows "if list_all (\<lambda>r. range_empty r \<and> nextChar (doc st) (head r) = close)
              (ranges (selection st))
         then \<exists>tr st'. handleClose st open close = Inr (Some tr) \<and>
                changes_empty (changes tr) \<and> tr_state tr = Inr st' \<and>
                doc st' = doc st \<and>
                selection st' =
                  \<lparr>ranges = map (\<lambda>r. cursor (head r + int (length close)))
                              (ranges (selection st)),
                   mainIndex = mainIndex (selection st)\<rparr> \<and>
                list_all (\<lambda>r. \<not> closedBracketAt st' (range_from r)) (ranges (selection st))
         else handleClose st open close = Inr None"
proof (cases "list_all (\<lambda>r. range_empty r \<and> nextChar (doc st) (head r) = close)
              (ranges (selection st))")
  case False
  then show ?thesis
    by (simp add: handleClose_reject)
next
  case True
  let ?rs = "ranges (selection st)"
  from handleClose_accept[OF wf c True, of "open"]
  obtain tr c where tr: "handleClose st open close = Inr (Some tr)"
    and ce: "changes_empty (changes tr)"
    and st': "tr_state tr =
             Inr \<lparr>doc = doc st,
                  selection = \<lparr>ranges = map (\<lambda>r. cursor (head r + int (length close))) ?rs,
                               mainIndex = mainIndex (selection st)\<rparr>,
                  readOnly = readOnly st,
                  bracketState =
                    filter (\<lambda>m. fst m \<notin> set (map range_from ?rs))
                      (if c then [] else bracketState st),
                  language = language st\<rparr>"
    by blast
  let ?st' = "\<lparr>doc = doc st,
                  selection = \<lparr>ranges = map (\<lambda>r. cursor (head r + int (length close))) ?rs,
                               mainIndex = mainIndex (selection st)\<rparr>,
                  readOnly = readOnly st,
                  bracketState =
                    filter (\<lambda>m. fst m \<notin> set (map range_from ?rs))
                      (if c then [] else bracketState st),
                  language = language st\<rparr>"
  have "list_all (\<lambda>r. \<not> closedBracketAt ?st' (range_from r)) ?rs"
    by (auto simp: list_all_iff closedBracketAt_def list_ex_iff)
  with tr ce st' have "\<exists>tr st'. handleClose st open close = Inr (Some tr) \<and>
                changes_empty (changes tr) \<and> tr_state tr = Inr st' \<and>
                doc st' = doc st \<and>
                selection st' =
                  \<lparr>ranges = map (\<lambda>r. cursor (head r + int (length close))) ?rs,
                   mainIndex = mainIndex (selection st)\<rparr> \<and>
                list_all (\<lambda>r. \<not> closedBracketAt st' (range_from r)) ?rs"
    by (intro exI[of _ tr] exI[of _ ?st']) simp
  with True show ?thesis
    by simp
qed

theorem handleClose_all_or_nothing_witness:
  "(\<exists>tr st'. handleClose (plain_state (js ''()'') [cursor 1] [(1, 2)]) (js ''('') (js '')'') =
                Inr (Some tr) \<and>
      changes_empty (changes tr) \<and> tr_state tr = Inr st' \<and> doc st' = js ''()'' \<and>
      selection st' = \<lparr>ranges = [cursor 2], mainIndex = 0\<rparr> \<and>
      \<not> closedBracketAt st' 1) \<and>
   handleClose (plain_state (js ''(a'') [cursor 1] [(1, 2)]) (js ''('') (js '')'') = Inr None"
proof -
  have wf: "wf_selection (selection (plain_state d [cursor 1] m))" for d m
    by (simp add: wf_selection_def)
  have c: "js '')'' \<noteq> []"
    by (simp add: js_def)
  have n1: "nextChar (js ''()'') 1 = js '')''" "nextChar (js ''(a'') 1 \<noteq> js '')''"
    by (simp_all add: string_eval)
  have l: "int (length (js '')'')) = 1"
    by (simp add: js_def)
  from handleClose_all_or_nothing[OF wf c, of "js ''()''" "[(1, 2)]" "js ''(''"]
    handleClose_all_or_nothing[OF wf c, of "js ''(a''" "[(1, 2)]" "js ''(''"]
  show ?thesis
    by (simp add: n1 l)
qed

text \<open>
  C2, as the claim states it, fails: in the document \<open>())\<close> with carets before each
  closing parenthesis, the main one before the tracked closer at 1 and the other before
  the closer at 2 that holds no mark, typing \<open>)\<close> is not rejected; both carets move.
\<close>

theorem handleClose_untracked_counterexample:
  "\<not> closedBracketAt (plain_state (js ''())'') [cursor 1, cursor 2] [(1, 2)]) 2 \<and>
   insertBracket (plain_state (js ''())'') [cursor 1, cursor 2] [(1, 2)]) (js '')'') \<noteq>
     Inr None \<and>
   result_selection
     (after_insertBracket (plain_state (js ''())'') [cursor 1, cursor 2] [(1, 2)]) (js '')'')) =
     Inr (Some \<lparr>ranges = [cursor 2, cursor 3], mainIndex = 0\<rparr>)"
proof -
  let ?st = "plain_state (js ''())'') [cursor 1, cursor 2] [(1, 2)]"
  have wf: "wf_selection (selection ?st)"
    by (simp add: wf_selection_def)
  have c: "js '')'' \<noteq> []"
    by (simp add: js_def)
  have n: "nextChar (js ''())'') 1 = js '')''" "nextChar (js ''())'') 2 = js '')''"
    by (simp_all add: string_eval)
  have ok: "list_all (\<lambda>r. range_empty r \<and> nextChar (doc ?st) (head r) = js '')'')
              (ranges (selection ?st))"
    by (simp add: n)
  have m1: "closedBracketAt ?st 1" and m2: "\<not> closedBracketAt ?st 2"
    by (simp_all add: closedBracketAt_def js_def)
  have sm: "selection_main \<lparr>ranges = [cursor 1, cursor 2], mainIndex = 0\<rparr> = Inr (cursor 1)"
    by (simp add: selection_main_def)
  have neq: "js '')'' \<noteq> js ''(''"
    by (simp add: js_def)
  have ins: "insertBracket ?st (js '')'') = handleClose ?st (js ''('') (js '')'')"
    using m1 neq by (simp add: insertBracket_def sm Let_def defaults_brackets_def closing_defaults)
  from handleClose_accept[OF wf c ok, of "js ''(''"]
  obtain tr st' where tr: "handleClose ?st (js ''('') (js '')'') = Inr (Some tr)"
    and st': "tr_state tr = Inr st'"
    and sel: "selection st' = \<lparr>ranges = [cursor 2, cursor 3], mainIndex = 0\<rparr>"
    by (auto simp: js_def)
  have "result_selection (after_insertBracket ?st (js '')'')) =
          Inr (Some \<lparr>ranges = [cursor 2, cursor 3], mainIndex = 0\<rparr>)"
    unfolding result_selection_def after_insertBracket_def ins tr
    by (simp add: st' sel)
  with m2 ins tr show ?thesis
    by simp
qed

section \<open>The tracker under a transaction\<close>



lemma rangeSet_map_Nil [simp]: "rangeSet_map [] cs = Inr []"
  by (simp add: rangeSet_map_def)

section \<open>How an edit moves a mark\<close>







section \<open>Read-only documents\<close>

lemma with_startState_simps [simp]:
  "with_startState st (Inl e) = Inl e"
  "with_startState st (Inr None) = Inr None"
  "with_startState st (Inr (Some tr)) = Inr (Some (tr\<lparr>startState := st\<rparr>))"
  by (simp_all add: with_startState_def)

lemma with_startState_bindE:
  "with_startState st (bindE m f) = bindE m (\<lambda>x. with_startState st (f x))"
  by (cases m) simp_all

lemma probablyInString_loop_readOnly [simp]:
  "probablyInString_loop n (st\<lparr>readOnly := ro\<rparr>) pos tok node =
     probablyInString_loop n st pos tok node"
  by (induction n st pos tok node rule: probablyInString_loop.induct)
     (simp_all add: sliceDoc_def split: option.splits)

lemma classifiers_readOnly [simp]:
  "nodeStart (st\<lparr>readOnly := ro\<rparr>) pos = nodeStart st pos"
  "closedBracketAt (st\<lparr>readOnly := ro\<rparr>) pos = closedBracketAt st pos"
  "sliceDoc (st\<lparr>readOnly := ro\<rparr>) from to = sliceDoc st from to"
  "probablyInString (st\<lparr>readOnly := ro\<rparr>) pos tok = probablyInString st pos tok"
  "config (st\<lparr>readOnly := ro\<rparr>) pos = config st pos"
  by (simp_all add: nodeStart_def closedBracketAt_def sliceDoc_def probablyInString_def
      config_def)

lemma range_functions_readOnly [simp]:
  "handleOpen_range (st\<lparr>readOnly := ro\<rparr>) open close closeBefore = handleOpen_range st open close closeBefore"
  "handleSame_range (st\<lparr>readOnly := ro\<rparr>) token allowTriple = handleSame_range st token allowTriple"
  "handleClose_range (st\<lparr>readOnly := ro\<rparr>) close = handleClose_range st close"
  by (simp_all add: handleOpen_range_def handleSame_range_def handleClose_range_def fun_eq_iff
      Let_def)

lemma changeByRange_readOnly [simp]:
  "changeByRange (st\<lparr>readOnly := ro\<rparr>) results = changeByRange st results"
  by (cases results) (simp_all add: changeByRange_def)

lemma state_update_readOnly:
  "state_update (st\<lparr>readOnly := ro\<rparr>) spec =
     map_sum id (\<lambda>tr. tr\<lparr>startState := st\<lparr>readOnly := ro\<rparr>\<rparr>) (state_update st spec)"
  by (cases "changes_apply (spec_changes spec) (doc st)") (simp_all add: state_update_def)

lemma run_transaction_readOnly:
  "run_transaction (st\<lparr>readOnly := ro\<rparr>) results ev =
     with_startState (st\<lparr>readOnly := ro\<rparr>) (run_transaction st results ev)"
proof (cases "changeByRange st results")
  case (Inl e)
  then show ?thesis
    by (simp add: run_transaction_def)
next
  case (Inr spec)
  then show ?thesis
    by (cases "state_update st (spec\<lparr>spec_scrollIntoView := True, spec_userEvent := ev\<rparr>)")
       (simp_all add: run_transaction_def state_update_readOnly)
qed

lemma bind_state_update_readOnly:
  "bindE (state_update (st\<lparr>readOnly := ro\<rparr>) spec) (\<lambda>tr. Inr (Some tr)) =
     with_startState (st\<lparr>readOnly := ro\<rparr>)
       (bindE (state_update st spec) (\<lambda>tr. Inr (Some tr)))"
  by (cases "state_update st spec") (simp_all add: state_update_readOnly)

lemma with_startState_if:
  "with_startState st (if c then x else y) =
     (if c then with_startState st x else with_startState st y)"
  by simp

lemma handleClose_readOnly:
  "handleClose (st\<lparr>readOnly := ro\<rparr>) open close =
     with_startState (st\<lparr>readOnly := ro\<rparr>) (handleClose st open close)"
  by (simp add: handleClose_def Let_def bind_state_update_readOnly with_startState_bindE
      with_startState_if)

lemma insertBracket_loop_readOnly:
  "insertBracket_loop (st\<lparr>readOnly := ro\<rparr>) bracket conf tokens toks =
     with_startState (st\<lparr>readOnly := ro\<rparr>) (insertBracket_loop st bracket conf tokens toks)"
proof (induction toks)
  case Nil
  then show ?case by simp
next
  case (Cons tok toks)
  show ?case
  proof (cases "selection_main (selection st)")
    case (Inl e)
    then show ?thesis
      using Cons.IH
      by (simp add: Let_def handleOpen_def handleSame_def run_transaction_readOnly)
  next
    case (Inr main)
    then show ?thesis
      using Cons.IH
      by (auto simp: Let_def handleOpen_def handleSame_def run_transaction_readOnly
          handleClose_readOnly)
  qed
qed

lemma insertBracket_readOnly:
  "insertBracket (st\<lparr>readOnly := ro\<rparr>) bracket =
     with_startState (st\<lparr>readOnly := ro\<rparr>) (insertBracket st bracket)"
  by (cases "selection_main (selection st)")
     (simp_all add: insertBracket_def Let_def insertBracket_loop_readOnly)

text \<open>
  C7 (amended): on a read-only document the input handler returns false and leaves
  the view as it is, and \<open>deleteBracketPair\<close> returns false and dispatches nothing.
  \<open>insertBracket\<close> does not read the flag: on the read-only state it returns what it
  returns on the writable one, as a transaction that starts from the read-only state.
\<close>

theorem readOnly_disables_handlers:
  "(readOnly (view_state view) \<longrightarrow>
      inputHandler android view from to inserted = Inr (False, view)) \<and>
   (readOnly st \<longrightarrow> deleteBracketPair st = Inr (False, None)) \<and>
   insertBracket (st\<lparr>readOnly := True\<rparr>) bracket =
     with_startState (st\<lparr>readOnly := True\<rparr>) (insertBracket st bracket)"
  by (simp add: inputHandler_def deleteBracketPair_def insertBracket_readOnly)

lemma read_only_state_simps [simp]:
  "doc (read_only_state d rs m) = d"
  "selection (read_only_state d rs m) = \<lparr>ranges = rs, mainIndex = 0\<rparr>"
  "readOnly (read_only_state d rs m)"
  "bracketState (read_only_state d rs m) = m"
  "language (read_only_state d rs m) = plain_language"
  by (simp_all add: read_only_state_def)

theorem readOnly_disables_handlers_witness:
  "inputHandler False
     \<lparr>view_state = read_only_state [] [cursor 0] [], composing = False,
      compositionStarted = False\<rparr> 0 0 (js ''('') =
     Inr (False, \<lparr>view_state = read_only_state [] [cursor 0] [], composing = False,
                  compositionStarted = False\<rparr>) \<and>
   deleteBracketPair (read_only_state (js ''()'') [cursor 1] []) = Inr (False, None)"
  using readOnly_disables_handlers
    [of "\<lparr>view_state = read_only_state [] [cursor 0] [], composing = False,
          compositionStarted = False\<rparr>" False 0 0 "js ''(''"
        "read_only_state (js ''()'') [cursor 1] []"]
  by simp

text \<open>
  C7, as the claim states it, fails for \<open>insertBracket\<close>: on a read-only state with
  the empty document it returns the transaction that inserts the pair of parentheses.
\<close>

theorem readOnly_insertBracket_counterexample:
  "readOnly (read_only_state [] [cursor 0] []) \<and>
   insertBracket (read_only_state [] [cursor 0] []) (js ''('') \<noteq> Inr None \<and>
   result_doc (after_insertBracket (read_only_state [] [cursor 0] []) (js ''('')) =
     Inr (Some (js ''()''))"
proof -
  let ?st = "read_only_state [] [cursor 0] []"
  have neq: "js '')'' \<noteq> js ''(''"
    by (simp add: js_def)
  have ins: "insertBracket ?st (js ''('') = handleOpen ?st (js ''('') (js '')'') defaults_before"
    using neq by (simp add: insertBracket_def Let_def defaults_brackets_def closing_defaults)
  have cond: "nextChar (doc ?st) 0 = [] \<or> test_space (nextChar (doc ?st) 0) \<or>
               indexOf defaults_before (nextChar (doc ?st) 0) > - 1"
    by (simp add: string_eval)
  obtain tr v where tr: "handleOpen ?st (js ''('') (js '')'') defaults_before = Inr (Some tr)"
    and st1: "tr_state tr =
             Inr \<lparr>doc = take (nat 0) (doc ?st) @ (js ''('' @ js '')'') @ drop (nat 0) (doc ?st),
                  selection = \<lparr>ranges = [cursor (0 + int (length (js ''('')))], mainIndex = 0\<rparr>,
                  readOnly = readOnly ?st,
                  bracketState =
                    foldl apply_effect v [CloseBracketEffect (0 + int (length (js ''('')))],
                  language = language ?st\<rparr>"
    using handleOpen_single_state[of ?st 0 defaults_before "js ''(''" "js '')''", OF _ _ _ _ cond]
    by auto
  have "result_doc (after_insertBracket ?st (js ''('')) = Inr (Some (js ''()''))"
    unfolding result_doc_def after_insertBracket_def ins tr
    by (simp add: st1 js_def)
  with ins tr show ?thesis
    by simp
qed

section \<open>Symmetric tokens at a single caret\<close>

lemma run_insert_at_caret:
  assumes sel: "selection st = \<lparr>ranges = [cursor p], mainIndex = 0\<rparr>"
    and p: "0 \<le> p" "p \<le> int (length (doc st))"
    and marks: "marks_ok (int (length (doc st))) (bracketState st)"
    and res: "res = \<lparr>rr_changes = [insert_spec ins p],
                      rr_effects = [CloseBracketEffect q],
                      rr_range = cursor q, rr_dont = False\<rparr>"
    and q: "0 \<le> q" "q \<le> int (length (doc st)) + int (length ins)"
  shows "\<exists>tr v. run_transaction st [res] ev = Inr (Some tr) \<and>
           tr_state tr =
             Inr \<lparr>doc = take (nat p) (doc st) @ ins @ drop (nat p) (doc st),
                  selection = \<lparr>ranges = [cursor q], mainIndex = 0\<rparr>,
                  readOnly = readOnly st,
                  bracketState = apply_effect v (CloseBracketEffect q),
                  language = language st\<rparr> \<and>
           marks_ok (int (length (doc st)) + int (length ins)) v"
proof -
  let ?len = "int (length (doc st))"
  have cs: "changeSet_of (rr_changes res) ?len = Inr (single_change p p ins ?len)"
    unfolding res using p by (simp add: changeSet_of_insert)
  have "\<exists>tr v. run_transaction st [res] ev = Inr (Some tr) \<and>
         startState tr = st \<and>
         newDoc tr = take (nat p) (doc st) @ ins @ drop (nat p) (doc st) \<and>
         tr_selection tr = Some \<lparr>ranges = [cursor q], mainIndex = 0\<rparr> \<and>
         effects tr = rr_effects res \<and>
         tr_state tr =
           Inr \<lparr>doc = take (nat p) (doc st) @ ins @ drop (nat p) (doc st),
                selection = \<lparr>ranges = [cursor q], mainIndex = 0\<rparr>,
                readOnly = readOnly st,
                bracketState = foldl apply_effect v (rr_effects res),
                language = language st\<rparr> \<and>
         marks_ok (?len + int (length ins) - (p - p)) v \<and>
         (p = p \<and> ins = [] \<longrightarrow> v = [] \<or> v = bracketState st)"
    using p q by (intro run_single_change[OF sel p marks cs]) (simp_all add: res)
  then obtain tr v where "run_transaction st [res] ev = Inr (Some tr)"
    and "tr_state tr =
           Inr \<lparr>doc = take (nat p) (doc st) @ ins @ drop (nat p) (doc st),
                selection = \<lparr>ranges = [cursor q], mainIndex = 0\<rparr>,
                readOnly = readOnly st,
                bracketState = foldl apply_effect v (rr_effects res),
                language = language st\<rparr>"
    and "marks_ok (?len + int (length ins) - (p - p)) v"
    by blast
  then show ?thesis
    by (intro exI[of _ tr] exI[of _ v]) (simp add: res)
qed

lemma run_skip_at_caret:
  assumes sel: "selection st = \<lparr>ranges = [cursor p], mainIndex = 0\<rparr>"
    and p: "0 \<le> p" "p \<le> int (length (doc st))"
    and marks: "marks_ok (int (length (doc st))) (bracketState st)"
    and res: "res = \<lparr>rr_changes = [], rr_effects = [SkipBracketEffect p],
                      rr_range = cursor q, rr_dont = False\<rparr>"
    and q: "0 \<le> q" "q \<le> int (length (doc st))"
  shows "\<exists>tr v. run_transaction st [res] ev = Inr (Some tr) \<and>
           newDoc tr = doc st \<and>
           tr_state tr =
             Inr \<lparr>doc = doc st,
                  selection = \<lparr>ranges = [cursor q], mainIndex = 0\<rparr>,
                  readOnly = readOnly st,
                  bracketState = filter (\<lambda>m. fst m \<noteq> p) v,
                  language = language st\<rparr> \<and>
           (v = [] \<or> v = bracketState st)"
proof -
  let ?len = "int (length (doc st))"
  have cs: "changeSet_of (rr_changes res) ?len = Inr (single_change 0 0 [] ?len)"
    unfolding res by (simp add: changeSet_of_none)
  have "\<exists>tr v. run_transaction st [res] ev = Inr (Some tr) \<and>
         startState tr = st \<and>
         newDoc tr = take (nat 0) (doc st) @ [] @ drop (nat 0) (doc st) \<and>
         tr_selection tr = Some \<lparr>ranges = [cursor q], mainIndex = 0\<rparr> \<and>
         effects tr = rr_effects res \<and>
         tr_state tr =
           Inr \<lparr>doc = take (nat 0) (doc st) @ [] @ drop (nat 0) (doc st),
                selection = \<lparr>ranges = [cursor q], mainIndex = 0\<rparr>,
                readOnly = readOnly st,
                bracketState = foldl apply_effect v (rr_effects res),
                language = language st\<rparr> \<and>
         marks_ok (?len + int (length ([]::jsstring)) - (0 - 0)) v \<and>
         ((0::int) = 0 \<and> ([]::jsstring) = [] \<longrightarrow> v = [] \<or> v = bracketState st)"
    using q by (intro run_single_change[OF sel p marks cs]) (simp_all add: res)
  then obtain tr v where "run_transaction st [res] ev = Inr (Some tr)"
    and "newDoc tr = take (nat 0) (doc st) @ [] @ drop (nat 0) (doc st)"
    and "tr_state tr =
           Inr \<lparr>doc = take (nat 0) (doc st) @ [] @ drop (nat 0) (doc st),
                selection = \<lparr>ranges = [cursor q], mainIndex = 0\<rparr>,
                readOnly = readOnly st,
                bracketState = foldl apply_effect v (rr_effects res),
                language = language st\<rparr>"
    and "v = [] \<or> v = bracketState st"
    by auto
  then show ?thesis
    by (intro exI[of _ tr] exI[of _ v]) (simp add: res apply_effect_skip)
qed

lemma length_sliceString:
  "0 \<le> a \<Longrightarrow> int (length (sliceString d a b)) \<le> max 0 (int (length d) - a)"
  by (simp add: sliceString_def Let_def) linarith

lemma handleSame_skip_state:
  assumes sel: "selection st = \<lparr>ranges = [cursor p], mainIndex = 0\<rparr>"
    and p: "0 \<le> p" "p \<le> int (length (doc st))"
    and marks: "marks_ok (int (length (doc st))) (bracketState st)"
    and nx: "nextChar (doc st) p = token"
    and ns: "\<not> nodeStart st p"
    and cb: "closedBracketAt st p"
  shows "\<exists>tr v. handleSame st token allowTriple = Inr (Some tr) \<and>
           newDoc tr = doc st \<and>
           tr_state tr =
             Inr \<lparr>doc = doc st,
                  selection =
                    \<lparr>ranges = [cursor (p + int (length token) *
                        (if allowTriple \<and> sliceDoc st p (p + int (length token) * 3) =
                            token @ token @ token then 3 else 1))],
                     mainIndex = 0\<rparr>,
                  readOnly = readOnly st,
                  bracketState = filter (\<lambda>m. fst m \<noteq> p) v,
                  language = language st\<rparr> \<and>
           (v = [] \<or> v = bracketState st)"
proof -
  let ?n = "int (length token)"
  let ?k = "if allowTriple \<and> sliceDoc st p (p + ?n * 3) = token @ token @ token
            then 3 else (1::int)"
  let ?res = "handleSame_range st token allowTriple (cursor p)"
  have res: "?res = \<lparr>rr_changes = [], rr_effects = [SkipBracketEffect p],
                      rr_range = cursor (p + ?n * ?k), rr_dont = False\<rparr>"
    using nx ns cb by (simp add: handleSame_range_def Let_def)
  have one: "p + ?n \<le> int (length (doc st))"
    using length_nextChar[OF p(1), of "doc st"] p(2) nx by simp
  have three: "p + ?n * 3 \<le> int (length (doc st))"
    if "sliceDoc st p (p + ?n * 3) = token @ token @ token"
  proof -
    have "int (length (sliceDoc st p (p + ?n * 3))) \<le> max 0 (int (length (doc st)) - p)"
      unfolding sliceDoc_def by (rule length_sliceString[OF p(1)])
    with that p(2) show ?thesis
      by simp
  qed
  have q: "0 \<le> p + ?n * ?k" "p + ?n * ?k \<le> int (length (doc st))"
    using p one three by auto
  from run_skip_at_caret[OF sel p marks res q, of "Some ''input.type''"]
  show ?thesis
    by (simp add: handleSame_def sel)
qed

lemma handleSame_no_second_skip:
  assumes sel: "selection st = \<lparr>ranges = [cursor p], mainIndex = 0\<rparr>"
    and nx: "nextChar (doc st) p = token"
    and ns: "\<not> nodeStart st p"
    and cb: "\<not> closedBracketAt st p"
  shows "handleSame st token allowTriple = Inr None"
proof -
  have "handleSame_range st token allowTriple (cursor p) = dont_result (cursor p)"
    using nx ns cb by (simp add: handleSame_range_def Let_def)
  then show ?thesis
    by (simp add: handleSame_def sel run_dont_single[OF sel])
qed

lemma closedBracketAt_selection [simp]:
  "closedBracketAt (st\<lparr>selection := sel\<rparr>) pos = closedBracketAt st pos"
  by (simp add: closedBracketAt_def)

text \<open>
  C9: a skip removes the mark it consumes. When \<open>handleClose\<close> moves the carets of
  a selection over the close token, the state of its transaction holds no mark at any
  position where a caret stood; with the carets put back there, \<open>insertBracket\<close> does
  not reach \<open>handleClose\<close> for that token again. When \<open>handleSame\<close> skips the tracked
  token behind a single caret, the state of its transaction has the same document and
  no mark at the position of that caret; with the caret put back there, \<open>handleSame\<close>
  returns \<open>null\<close>.
\<close>

theorem skipped_closer_loses_mark:
  "(wf_selection (selection st) \<and> close \<noteq> [] \<and>
    list_all (\<lambda>r. range_empty r \<and> nextChar (doc st) (head r) = close) (ranges (selection st))
    \<longrightarrow>
      (\<exists>tr st'. handleClose st open close = Inr (Some tr) \<and> tr_state tr = Inr st' \<and>
         doc st' = doc st \<and>
         list_all (\<lambda>r. \<not> closedBracketAt st' (range_from r)) (ranges (selection st)) \<and>
         (\<forall>tok rest conf tokens.
            tok \<noteq> close \<and> closing (codePointAt tok 0) = close \<longrightarrow>
            insertBracket_loop (st'\<lparr>selection := selection st\<rparr>) close conf tokens (tok # rest) =
            insertBracket_loop (st'\<lparr>selection := selection st\<rparr>) close conf tokens rest))) \<and>
   (selection st = \<lparr>ranges = [cursor p], mainIndex = 0\<rparr> \<and> 0 \<le> p \<and>
    p \<le> int (length (doc st)) \<and> marks_ok (int (length (doc st))) (bracketState st) \<and>
    nextChar (doc st) p = token \<and> \<not> nodeStart st p \<and> closedBracketAt st p
    \<longrightarrow>
      (\<exists>tr st'. handleSame st token allowTriple = Inr (Some tr) \<and> tr_state tr = Inr st' \<and>
         doc st' = doc st \<and> \<not> closedBracketAt st' p \<and>
         handleSame (st'\<lparr>selection := selection st\<rparr>) token allowTriple = Inr None))"
proof (intro conjI impI)
  assume a: "wf_selection (selection st) \<and> close \<noteq> [] \<and>
    list_all (\<lambda>r. range_empty r \<and> nextChar (doc st) (head r) = close) (ranges (selection st))"
  let ?rs = "ranges (selection st)"
  from a have wf: "wf_selection (selection st)" and c: "close \<noteq> []"
    and ok: "list_all (\<lambda>r. range_empty r \<and> nextChar (doc st) (head r) = close) ?rs"
    by simp_all
  from handleClose_accept[OF wf c ok, of "open"]
  obtain tr c' where tr: "handleClose st open close = Inr (Some tr)"
    and st': "tr_state tr =
             Inr \<lparr>doc = doc st,
                  selection = \<lparr>ranges = map (\<lambda>r. cursor (head r + int (length close))) ?rs,
                               mainIndex = mainIndex (selection st)\<rparr>,
                  readOnly = readOnly st,
                  bracketState =
                    filter (\<lambda>m. fst m \<notin> set (map range_from ?rs))
                      (if c' then [] else bracketState st),
                  language = language st\<rparr>"
    by blast
  define st' where "st' = \<lparr>doc = doc st,
                  selection = \<lparr>ranges = map (\<lambda>r. cursor (head r + int (length close))) ?rs,
                               mainIndex = mainIndex (selection st)\<rparr>,
                  readOnly = readOnly st,
                  bracketState =
                    filter (\<lambda>m. fst m \<notin> set (map range_from ?rs))
                      (if c' then [] else bracketState st),
                  language = language st\<rparr>"
  have un: "list_all (\<lambda>r. \<not> closedBracketAt st' (range_from r)) ?rs"
    by (auto simp: st'_def list_all_iff closedBracketAt_def list_ex_iff)
  let ?main = "?rs ! mainIndex (selection st)"
  from wf have mi: "mainIndex (selection st) < length ?rs"
    by (simp add: wf_selection_def)
  then have sm: "selection_main (selection st) = Inr ?main"
    by (simp add: selection_main_def)
  from mi un have nm: "\<not> closedBracketAt st' (range_from ?main)"
    by (simp add: list_all_iff)
  have gate: "insertBracket_loop (st'\<lparr>selection := selection st\<rparr>) close conf tokens (tok # rest) =
            insertBracket_loop (st'\<lparr>selection := selection st\<rparr>) close conf tokens rest"
    if "tok \<noteq> close \<and> closing (codePointAt tok 0) = close" for tok rest conf tokens
    using that nm by (auto simp: Let_def sm)
  have "doc st' = doc st"
    by (simp add: st'_def)
  with tr st' un gate
  show "\<exists>tr st'. handleClose st open close = Inr (Some tr) \<and> tr_state tr = Inr st' \<and>
         doc st' = doc st \<and>
         list_all (\<lambda>r. \<not> closedBracketAt st' (range_from r)) (ranges (selection st)) \<and>
         (\<forall>tok rest conf tokens.
            tok \<noteq> close \<and> closing (codePointAt tok 0) = close \<longrightarrow>
            insertBracket_loop (st'\<lparr>selection := selection st\<rparr>) close conf tokens (tok # rest) =
            insertBracket_loop (st'\<lparr>selection := selection st\<rparr>) close conf tokens rest)"
    unfolding st'_def[symmetric] by blast
next
  assume b: "selection st = \<lparr>ranges = [cursor p], mainIndex = 0\<rparr> \<and> 0 \<le> p \<and>
    p \<le> int (length (doc st)) \<and> marks_ok (int (length (doc st))) (bracketState st) \<and>
    nextChar (doc st) p = token \<and> \<not> nodeStart st p \<and> closedBracketAt st p"
  then have sel: "selection st = \<lparr>ranges = [cursor p], mainIndex = 0\<rparr>"
    and p: "0 \<le> p" "p \<le> int (length (doc st))"
    and marks: "marks_ok (int (length (doc st))) (bracketState st)"
    and nx: "nextChar (doc st) p = token" and ns: "\<not> nodeStart st p"
    and cb: "closedBracketAt st p"
    by simp_all
  let ?q = "p + int (length token) *
              (if allowTriple \<and> sliceDoc st p (p + int (length token) * 3) =
                  token @ token @ token then 3 else 1)"
  from handleSame_skip_state[OF sel p marks nx ns cb, of allowTriple]
  obtain tr v where tr: "handleSame st token allowTriple = Inr (Some tr)"
    and st': "tr_state tr =
             Inr \<lparr>doc = doc st,
                  selection = \<lparr>ranges = [cursor ?q], mainIndex = 0\<rparr>,
                  readOnly = readOnly st,
                  bracketState = filter (\<lambda>m. fst m \<noteq> p) v,
                  language = language st\<rparr>"
    by blast
  define st' where "st' = \<lparr>doc = doc st,
                  selection = \<lparr>ranges = [cursor ?q], mainIndex = 0\<rparr>,
                  readOnly = readOnly st,
                  bracketState = filter (\<lambda>m. fst m \<noteq> p) v,
                  language = language st\<rparr>"
  have un: "\<not> closedBracketAt st' p"
    by (auto simp: st'_def closedBracketAt_def list_ex_iff)
  have again: "handleSame (st'\<lparr>selection := selection st\<rparr>) token allowTriple = Inr None"
  proof (rule handleSame_no_second_skip[where p = p])
    show "selection (st'\<lparr>selection := selection st\<rparr>) = \<lparr>ranges = [cursor p], mainIndex = 0\<rparr>"
      by (simp add: sel)
    show "nextChar (doc (st'\<lparr>selection := selection st\<rparr>)) p = token"
      using nx by (simp add: st'_def)
    show "\<not> nodeStart (st'\<lparr>selection := selection st\<rparr>) p"
      using ns by (simp add: nodeStart_def st'_def)
    show "\<not> closedBracketAt (st'\<lparr>selection := selection st\<rparr>) p"
      using un by simp
  qed
  have "doc st' = doc st"
    by (simp add: st'_def)
  with tr st' un again
  show "\<exists>tr st'. handleSame st token allowTriple = Inr (Some tr) \<and> tr_state tr = Inr st' \<and>
         doc st' = doc st \<and> \<not> closedBracketAt st' p \<and>
         handleSame (st'\<lparr>selection := selection st\<rparr>) token allowTriple = Inr None"
    unfolding st'_def[symmetric] by blast
qed

theorem skipped_closer_loses_mark_witness:
  "(\<exists>tr st'. handleClose (plain_state (js ''()'') [cursor 1] [(1, 2)]) (js ''('') (js '')'') =
                Inr (Some tr) \<and>
      tr_state tr = Inr st' \<and> doc st' = js ''()'' \<and> \<not> closedBracketAt st' 1) \<and>
   (\<exists>tr st'. handleSame (plain_state [34, 34] [cursor 1] [(1, 2)]) [34] False = Inr (Some tr) \<and>
      tr_state tr = Inr st' \<and> doc st' = [34, 34] \<and> \<not> closedBracketAt st' 1 \<and>
      handleSame (st'\<lparr>selection := \<lparr>ranges = [cursor 1], mainIndex = 0\<rparr>\<rparr>) [34] False =
        Inr None)"
proof -
  have wf: "wf_selection (selection (plain_state d [cursor 1] m))" for d m
    by (simp add: wf_selection_def)
  have n: "nextChar (js ''()'') 1 = js '')''" "nextChar [34, 34] 1 = [34]" "js '')'' \<noteq> []"
    by (simp_all add: string_eval)
  have ns: "\<not> nodeStart (plain_state [34, 34] [cursor 1] [(1, 2)]) 1"
    by (simp add: nodeStart_def plain_language_def)
  have cb: "closedBracketAt (plain_state [34, 34] [cursor 1] [(1, 2)]) 1"
    by (simp add: closedBracketAt_def)
  have mk: "marks_ok 2 [(1, 2)]"
    by (simp add: marks_ok_def)
  from skipped_closer_loses_mark
         [of "plain_state (js ''()'') [cursor 1] [(1, 2)]" "js '')''" "js ''(''" 1 "js '')''" False,
          THEN conjunct1]
       skipped_closer_loses_mark
         [of "plain_state [34, 34] [cursor 1] [(1, 2)]" "[]" "[]" 1 "[34]" False,
          THEN conjunct2]
  show ?thesis
    using wf n ns cb mk by (simp add: js_def) blast
qed

section \<open>Triple quotes\<close>

lemma nextChar_suffix: "nextChar (pre @ s) (int (length pre)) = nextChar s 0"
proof -
  have "sliceString (pre @ s) (int (length pre)) (int (length pre) + 2) = take 2 s"
    by (rule sliceString_append_next)
  moreover have "sliceString s 0 (0 + 2) = take 2 s"
    by (simp add: sliceString_def)
  ultimately show ?thesis
    by (simp add: nextChar_def)
qed

lemma sliceString_append_k:
  "0 \<le> k \<Longrightarrow> sliceString (pre @ s) (int (length pre)) (int (length pre) + k) = take (nat k) s"
  by (simp add: sliceString_def Let_def nat_add_distrib)

lemma marks_ok_filter: "marks_ok len v \<Longrightarrow> marks_ok len (filter f v)"
  by (simp add: marks_ok_def list_all_iff)

lemma closedBracketAt_apply_close:
  assumes "bracketState st = apply_effect v (CloseBracketEffect q)"
    and "0 \<le> q" "q \<le> int (length (doc st))"
  shows "closedBracketAt st q"
  using assms
  by (auto simp: closedBracketAt_def apply_effect_def rangeSet_add_def list_ex_iff set_insort_key)

lemma handleSame_pair_state:
  assumes sel: "selection st = \<lparr>ranges = [cursor p], mainIndex = 0\<rparr>"
    and p: "0 \<le> p" "p \<le> int (length (doc st))"
    and marks: "marks_ok (int (length (doc st))) (bracketState st)"
    and c1: "nextChar (doc st) p \<noteq> token"
    and c2: "\<not> (allowTriple \<and> sliceDoc st (p - 2 * int (length token)) p = token @ token \<and>
               nodeStart st (p - 2 * int (length token)))"
    and c3: "charCategorizer (language st) (doc st) p (nextChar (doc st) p) \<noteq> Word"
    and c4: "sliceDoc st (p - 1) p \<noteq> token"
    and c5: "charCategorizer (language st) (doc st) p (sliceDoc st (p - 1) p) \<noteq> Word"
    and c6: "\<not> probablyInString st p token"
  shows "\<exists>tr v. handleSame st token allowTriple = Inr (Some tr) \<and>
           tr_state tr =
             Inr \<lparr>doc = take (nat p) (doc st) @ (token @ token) @ drop (nat p) (doc st),
                  selection = \<lparr>ranges = [cursor (p + int (length token))], mainIndex = 0\<rparr>,
                  readOnly = readOnly st,
                  bracketState = apply_effect v (CloseBracketEffect (p + int (length token))),
                  language = language st\<rparr> \<and>
           marks_ok (int (length (doc st)) + int (length (token @ token))) v"
proof -
  let ?q = "p + int (length token)"
  let ?res = "handleSame_range st token allowTriple (cursor p)"
  have res: "?res = \<lparr>rr_changes = [insert_spec (token @ token) p],
                      rr_effects = [CloseBracketEffect ?q],
                      rr_range = cursor ?q, rr_dont = False\<rparr>"
    using c1 c2 c3 c4 c5 c6 by (auto simp: handleSame_range_def Let_def)
  have q: "0 \<le> ?q" "?q \<le> int (length (doc st)) + int (length (token @ token))"
    using p by simp_all
  from run_insert_at_caret[OF sel p marks res q, of "Some ''input.type''"]
  show ?thesis
    by (simp add: handleSame_def sel)
qed

lemma handleSame_triple_state:
  assumes sel: "selection st = \<lparr>ranges = [cursor p], mainIndex = 0\<rparr>"
    and p: "0 \<le> p" "p \<le> int (length (doc st))"
    and marks: "marks_ok (int (length (doc st))) (bracketState st)"
    and nx: "nextChar (doc st) p \<noteq> token"
    and two: "sliceDoc st (p - 2 * int (length token)) p = token @ token"
    and ns: "nodeStart st (p - 2 * int (length token))"
  shows "\<exists>tr v. handleSame st token True = Inr (Some tr) \<and>
           tr_state tr =
             Inr \<lparr>doc = take (nat p) (doc st) @ (token @ token @ token @ token) @
                         drop (nat p) (doc st),
                  selection = \<lparr>ranges = [cursor (p + int (length token))], mainIndex = 0\<rparr>,
                  readOnly = readOnly st,
                  bracketState = apply_effect v (CloseBracketEffect (p + int (length token))),
                  language = language st\<rparr> \<and>
           marks_ok (int (length (doc st)) + int (length (token @ token @ token @ token))) v"
proof -
  let ?q = "p + int (length token)"
  let ?res = "handleSame_range st token True (cursor p)"
  have res: "?res = \<lparr>rr_changes = [insert_spec (token @ token @ token @ token) p],
                      rr_effects = [CloseBracketEffect ?q],
                      rr_range = cursor ?q, rr_dont = False\<rparr>"
    using nx two ns by (simp add: handleSame_range_def Let_def)
  have q: "0 \<le> ?q"
    "?q \<le> int (length (doc st)) + int (length (token @ token @ token @ token))"
    using p by simp_all
  from run_insert_at_caret[OF sel p marks res q, of "Some ''input.type''"]
  show ?thesis
    by (simp add: handleSame_def sel)
qed

lemma take_triple_prefix:
  assumes "take k (t @ rest) = t @ t @ t"
  shows "\<exists>rest'. rest = t @ rest'"
proof -
  have "t @ rest = take k (t @ rest) @ drop k (t @ rest)"
    by (rule append_take_drop_id[symmetric])
  then have "t @ rest = (t @ t @ t) @ drop k (t @ rest)"
    unfolding assms .
  then have "t @ rest = t @ (t @ t @ drop k (t @ rest))"
    by (simp only: append_assoc)
  then show ?thesis
    by auto
qed

lemma nodeStart_doc:
  "doc st1 = d1 \<Longrightarrow> language st1 = language st \<Longrightarrow>
   nodeStart st1 pos = nodeStart (st\<lparr>doc := d1\<rparr>) pos"
  by (simp add: nodeStart_def)

lemma three_quotes:
  assumes sel: "selection st = \<lparr>ranges = [cursor p], mainIndex = 0\<rparr>"
    and p: "0 \<le> p" "p \<le> int (length (doc st))"
    and marks: "marks_ok (int (length (doc st))) (bracketState st)"
    and wf: "well_formed_char token"
    and c1: "nextChar (doc st) p \<noteq> token"
    and c2: "\<not> (sliceDoc st (p - 2 * int (length token)) p = token @ token \<and>
               nodeStart st (p - 2 * int (length token)))"
    and c3: "charCategorizer (language st) (doc st) p (nextChar (doc st) p) \<noteq> Word"
    and c4: "sliceDoc st (p - 1) p \<noteq> token"
    and c5: "charCategorizer (language st) (doc st) p (sliceDoc st (p - 1) p) \<noteq> Word"
    and c6: "\<not> probablyInString st p token"
    and h2: "\<not> nodeStart
               (st\<lparr>doc := take (nat p) (doc st) @ (token @ token) @ drop (nat p) (doc st)\<rparr>)
               (p + int (length token))"
    and h3: "nodeStart
               (st\<lparr>doc := take (nat p) (doc st) @ (token @ token) @ drop (nat p) (doc st)\<rparr>) p"
  shows "\<exists>tr1 st1 tr2 st2 tr3 st3.
           handleSame st token True = Inr (Some tr1) \<and> tr_state tr1 = Inr st1 \<and>
           handleSame st1 token True = Inr (Some tr2) \<and> tr_state tr2 = Inr st2 \<and>
           handleSame st2 token True = Inr (Some tr3) \<and> tr_state tr3 = Inr st3 \<and>
           doc st3 = take (nat p) (doc st) @ (token @ token @ token) @ (token @ token @ token) @
                       drop (nat p) (doc st) \<and>
           selection st3 = \<lparr>ranges = [cursor (p + 3 * int (length token))], mainIndex = 0\<rparr> \<and>
           closedBracketAt st3 (p + 3 * int (length token))"
proof -
  let ?n = "int (length token)"
  let ?len = "int (length (doc st))"
  let ?pre = "take (nat p) (doc st)"
  let ?rest = "drop (nat p) (doc st)"
  let ?d1 = "?pre @ (token @ token) @ ?rest"
  have n1: "1 \<le> ?n"
    using well_formed_char_length[OF wf] by simp
  have lp: "int (length ?pre) = p"
    using p by simp
  have d: "doc st = ?pre @ ?rest"
    by simp
  \<comment> \<open>the first quote: a pair\<close>
  have c2': "\<not> (True \<and> sliceDoc st (p - 2 * ?n) p = token @ token \<and> nodeStart st (p - 2 * ?n))"
    using c2 by simp
  from handleSame_pair_state[OF sel p marks c1 c2' c3 c4 c5 c6]
  obtain tr1 v1 where tr1: "handleSame st token True = Inr (Some tr1)"
    and s1: "tr_state tr1 =
             Inr \<lparr>doc = ?d1,
                  selection = \<lparr>ranges = [cursor (p + ?n)], mainIndex = 0\<rparr>,
                  readOnly = readOnly st,
                  bracketState = apply_effect v1 (CloseBracketEffect (p + ?n)),
                  language = language st\<rparr>"
    and v1: "marks_ok (?len + int (length (token @ token))) v1"
    by blast
  define st1 where "st1 = \<lparr>doc = ?d1,
                  selection = \<lparr>ranges = [cursor (p + ?n)], mainIndex = 0\<rparr>,
                  readOnly = readOnly st,
                  bracketState = apply_effect v1 (CloseBracketEffect (p + ?n)),
                  language = language st\<rparr>"
  have doc1: "doc st1 = ?d1" and lang1: "language st1 = language st"
    and sel1: "selection st1 = \<lparr>ranges = [cursor (p + ?n)], mainIndex = 0\<rparr>"
    and bs1: "bracketState st1 = apply_effect v1 (CloseBracketEffect (p + ?n))"
    by (simp_all add: st1_def)
  have len1: "int (length (doc st1)) = ?len + 2 * ?n"
    unfolding doc1 using p by simp
  have b1: "0 \<le> p + ?n" "p + ?n \<le> int (length (doc st1))"
    unfolding len1 using p by simp_all
  have marks1: "marks_ok (int (length (doc st1))) (bracketState st1)"
    unfolding len1 bs1 using v1 p n1 by (intro marks_ok_add) simp_all
  \<comment> \<open>the second quote: the skip\<close>
  have "nextChar ((?pre @ token) @ token @ ?rest) (int (length (?pre @ token))) = token"
    by (rule nextChar_append[OF wf])
  then have nx1: "nextChar (doc st1) (p + ?n) = token"
    unfolding doc1 using lp by simp
  have ns1: "\<not> nodeStart st1 (p + ?n)"
    using h2 nodeStart_doc[OF doc1 lang1] by simp
  have cb1: "closedBracketAt st1 (p + ?n)"
    by (rule closedBracketAt_apply_close[OF bs1 b1])
  have nt: "sliceDoc st1 (p + ?n) (p + ?n + ?n * 3) \<noteq> token @ token @ token"
  proof
    assume a: "sliceDoc st1 (p + ?n) (p + ?n + ?n * 3) = token @ token @ token"
    have "sliceString ((?pre @ token) @ token @ ?rest) (int (length (?pre @ token)))
            (int (length (?pre @ token)) + ?n * 3) = take (nat (?n * 3)) (token @ ?rest)"
      by (rule sliceString_append_k) simp
    then have "sliceDoc st1 (p + ?n) (p + ?n + ?n * 3) = take (nat (?n * 3)) (token @ ?rest)"
      unfolding sliceDoc_def doc1 using lp by simp
    with a obtain rest' where r: "?rest = token @ rest'"
      using take_triple_prefix by metis
    have "nextChar (?pre @ token @ rest') (int (length ?pre)) = token"
      by (rule nextChar_append[OF wf])
    then have "nextChar (doc st) p = token"
      using d r lp by metis
    with c1 show False
      by simp
  qed
  from handleSame_skip_state[OF sel1 b1 marks1 nx1 ns1 cb1, of True]
  obtain tr2 v2 where tr2: "handleSame st1 token True = Inr (Some tr2)"
    and s2: "tr_state tr2 =
             Inr \<lparr>doc = doc st1,
                  selection = \<lparr>ranges = [cursor (p + ?n + ?n)], mainIndex = 0\<rparr>,
                  readOnly = readOnly st1,
                  bracketState = filter (\<lambda>m. fst m \<noteq> p + ?n) v2,
                  language = language st1\<rparr>"
    and v2: "v2 = [] \<or> v2 = bracketState st1"
    using nt by auto
  define st2 where "st2 = \<lparr>doc = doc st1,
                  selection = \<lparr>ranges = [cursor (p + ?n + ?n)], mainIndex = 0\<rparr>,
                  readOnly = readOnly st1,
                  bracketState = filter (\<lambda>m. fst m \<noteq> p + ?n) v2,
                  language = language st1\<rparr>"
  have doc2: "doc st2 = ?d1" and lang2: "language st2 = language st"
    and sel2: "selection st2 = \<lparr>ranges = [cursor (p + ?n + ?n)], mainIndex = 0\<rparr>"
    and bs2: "bracketState st2 = filter (\<lambda>m. fst m \<noteq> p + ?n) v2"
    by (simp_all add: st2_def doc1 lang1)
  have len2: "int (length (doc st2)) = ?len + 2 * ?n"
    unfolding doc2 using p by simp
  have b2: "0 \<le> p + ?n + ?n" "p + ?n + ?n \<le> int (length (doc st2))"
    unfolding len2 using p by simp_all
  have "marks_ok (int (length (doc st1))) v2"
    using v2 marks1 by (auto simp: marks_ok_def)
  then have marks2: "marks_ok (int (length (doc st2))) (bracketState st2)"
    unfolding bs2 len2 len1 by (rule marks_ok_filter)
  \<comment> \<open>the third quote: the triple\<close>
  have "nextChar ((?pre @ token @ token) @ ?rest) (int (length (?pre @ token @ token))) =
          nextChar ?rest 0"
    by (rule nextChar_suffix)
  moreover have "nextChar (?pre @ ?rest) (int (length ?pre)) = nextChar ?rest 0"
    by (rule nextChar_suffix)
  ultimately have "nextChar (doc st2) (p + ?n + ?n) = nextChar (doc st) p"
    unfolding doc2 using lp by (simp add: algebra_simps)
  with c1 have nx2: "nextChar (doc st2) (p + ?n + ?n) \<noteq> token"
    by simp
  have "sliceString (?pre @ (token @ token) @ ?rest) (int (length ?pre))
          (int (length ?pre) + 2 * ?n) = take (nat (2 * ?n)) ((token @ token) @ ?rest)"
    by (rule sliceString_append_k) simp
  then have "sliceString ?d1 p (p + 2 * ?n) = token @ token"
    unfolding lp by (simp add: nat_mult_distrib)
  then have two2: "sliceDoc st2 (p + ?n + ?n - 2 * ?n) (p + ?n + ?n) = token @ token"
    unfolding sliceDoc_def doc2 by (simp add: algebra_simps)
  have ns2: "nodeStart st2 (p + ?n + ?n - 2 * ?n)"
    using h3 nodeStart_doc[OF doc2 lang2] by simp
  from handleSame_triple_state[OF sel2 b2 marks2 nx2 two2 ns2]
  obtain tr3 v3 where tr3: "handleSame st2 token True = Inr (Some tr3)"
    and s3: "tr_state tr3 =
             Inr \<lparr>doc = take (nat (p + ?n + ?n)) (doc st2) @ (token @ token @ token @ token) @
                         drop (nat (p + ?n + ?n)) (doc st2),
                  selection = \<lparr>ranges = [cursor (p + ?n + ?n + ?n)], mainIndex = 0\<rparr>,
                  readOnly = readOnly st2,
                  bracketState = apply_effect v3 (CloseBracketEffect (p + ?n + ?n + ?n)),
                  language = language st2\<rparr>"
    by blast
  define st3 where "st3 = \<lparr>doc = take (nat (p + ?n + ?n)) (doc st2) @
                         (token @ token @ token @ token) @
                         drop (nat (p + ?n + ?n)) (doc st2),
                  selection = \<lparr>ranges = [cursor (p + ?n + ?n + ?n)], mainIndex = 0\<rparr>,
                  readOnly = readOnly st2,
                  bracketState = apply_effect v3 (CloseBracketEffect (p + ?n + ?n + ?n)),
                  language = language st2\<rparr>"
  have np: "nat (p + ?n + ?n) = length (?pre @ token @ token)"
    using lp p by simp
  have td: "?pre @ token @ token =
              take (length (?pre @ token @ token)) ((?pre @ token @ token) @ ?rest) \<and>
            ?rest = drop (length (?pre @ token @ token)) ((?pre @ token @ token) @ ?rest)"
    by (rule append_eq_conv_conj[THEN iffD1, OF refl])
  have d1': "?d1 = (?pre @ token @ token) @ ?rest"
    by simp
  have "doc st3 = take (length (?pre @ token @ token)) ((?pre @ token @ token) @ ?rest) @
                    (token @ token @ token @ token) @
                  drop (length (?pre @ token @ token)) ((?pre @ token @ token) @ ?rest)"
    unfolding st3_def doc2 d1' np by simp
  also have "\<dots> = (?pre @ token @ token) @ (token @ token @ token @ token) @ ?rest"
    using td by (simp only:)
  finally have doc3: "doc st3 = ?pre @ (token @ token @ token) @ (token @ token @ token) @ ?rest"
    by simp
  have sel3: "selection st3 = \<lparr>ranges = [cursor (p + 3 * ?n)], mainIndex = 0\<rparr>"
    by (simp add: st3_def)
  have "closedBracketAt st3 (p + ?n + ?n + ?n)"
  proof (rule closedBracketAt_apply_close)
    show "bracketState st3 = apply_effect v3 (CloseBracketEffect (p + ?n + ?n + ?n))"
      by (simp add: st3_def)
    show "0 \<le> p + ?n + ?n + ?n"
      using p by simp
    show "p + ?n + ?n + ?n \<le> int (length (doc st3))"
      unfolding doc3 using lp by simp
  qed
  then have cb3: "closedBracketAt st3 (p + 3 * ?n)"
    by (simp add: algebra_simps)
  from tr1 s1 tr2 s2 tr3 s3 doc3 sel3 cb3 show ?thesis
    unfolding st1_def[symmetric] st2_def[symmetric] st3_def[symmetric] by blast
qed

text \<open>
  C6 (amended): take a single caret \<open>p\<close> in the document. When the character behind
  the caret is not the token, triple quotes are enabled, the two tokens before the
  caret are there and the position two tokens back is a node start, \<open>handleSame\<close>
  inserts four tokens at the caret (one completes the opening triple, three close it),
  puts the caret behind the first of them and records a mark there. Typing a token that
  is one well-formed character three times, where the first keystroke inserts the
  pair, the second is not at a node start and the third finds the node start two
  tokens back, gives three tokens, the caret with a mark, and three tokens.
\<close>

theorem handleSame_triple_quote:
  assumes sel: "selection st = \<lparr>ranges = [cursor p], mainIndex = 0\<rparr>"
    and p: "0 \<le> p" "p \<le> int (length (doc st))"
    and marks: "marks_ok (int (length (doc st))) (bracketState st)"
  shows "(nextChar (doc st) p \<noteq> token \<and>
          sliceDoc st (p - 2 * int (length token)) p = token @ token \<and>
          nodeStart st (p - 2 * int (length token)) \<longrightarrow>
            (\<exists>tr st'. handleSame st token True = Inr (Some tr) \<and> tr_state tr = Inr st' \<and>
               doc st' = take (nat p) (doc st) @ (token @ token @ token @ token) @
                           drop (nat p) (doc st) \<and>
               selection st' = \<lparr>ranges = [cursor (p + int (length token))], mainIndex = 0\<rparr> \<and>
               closedBracketAt st' (p + int (length token)))) \<and>
         (well_formed_char token \<and> nextChar (doc st) p \<noteq> token \<and>
          \<not> (sliceDoc st (p - 2 * int (length token)) p = token @ token \<and>
               nodeStart st (p - 2 * int (length token))) \<and>
          charCategorizer (language st) (doc st) p (nextChar (doc st) p) \<noteq> Word \<and>
          sliceDoc st (p - 1) p \<noteq> token \<and>
          charCategorizer (language st) (doc st) p (sliceDoc st (p - 1) p) \<noteq> Word \<and>
          \<not> probablyInString st p token \<and>
          \<not> nodeStart
               (st\<lparr>doc := take (nat p) (doc st) @ (token @ token) @ drop (nat p) (doc st)\<rparr>)
               (p + int (length token)) \<and>
          nodeStart
               (st\<lparr>doc := take (nat p) (doc st) @ (token @ token) @ drop (nat p) (doc st)\<rparr>) p
          \<longrightarrow>
            (\<exists>tr1 st1 tr2 st2 tr3 st3.
               handleSame st token True = Inr (Some tr1) \<and> tr_state tr1 = Inr st1 \<and>
               handleSame st1 token True = Inr (Some tr2) \<and> tr_state tr2 = Inr st2 \<and>
               handleSame st2 token True = Inr (Some tr3) \<and> tr_state tr3 = Inr st3 \<and>
               doc st3 = take (nat p) (doc st) @ (token @ token @ token) @
                           (token @ token @ token) @ drop (nat p) (doc st) \<and>
               selection st3 =
                 \<lparr>ranges = [cursor (p + 3 * int (length token))], mainIndex = 0\<rparr> \<and>
               closedBracketAt st3 (p + 3 * int (length token))))"
proof (intro conjI impI)
  let ?n = "int (length token)"
  assume a: "nextChar (doc st) p \<noteq> token \<and> sliceDoc st (p - 2 * ?n) p = token @ token \<and>
             nodeStart st (p - 2 * ?n)"
  then have nx: "nextChar (doc st) p \<noteq> token"
    and two: "sliceDoc st (p - 2 * ?n) p = token @ token"
    and ns: "nodeStart st (p - 2 * ?n)"
    by simp_all
  from handleSame_triple_state[OF sel p marks nx two ns]
  obtain tr v where tr: "handleSame st token True = Inr (Some tr)"
    and s: "tr_state tr =
             Inr \<lparr>doc = take (nat p) (doc st) @ (token @ token @ token @ token) @
                         drop (nat p) (doc st),
                  selection = \<lparr>ranges = [cursor (p + ?n)], mainIndex = 0\<rparr>,
                  readOnly = readOnly st,
                  bracketState = apply_effect v (CloseBracketEffect (p + ?n)),
                  language = language st\<rparr>"
    by blast
  define st' where "st' = \<lparr>doc = take (nat p) (doc st) @ (token @ token @ token @ token) @
                         drop (nat p) (doc st),
                  selection = \<lparr>ranges = [cursor (p + ?n)], mainIndex = 0\<rparr>,
                  readOnly = readOnly st,
                  bracketState = apply_effect v (CloseBracketEffect (p + ?n)),
                  language = language st\<rparr>"
  have "closedBracketAt st' (p + ?n)"
  proof (rule closedBracketAt_apply_close)
    show "bracketState st' = apply_effect v (CloseBracketEffect (p + ?n))"
      by (simp add: st'_def)
    show "0 \<le> p + ?n"
      using p by simp
    show "p + ?n \<le> int (length (doc st'))"
      using p by (simp add: st'_def)
  qed
  moreover have "doc st' = take (nat p) (doc st) @ (token @ token @ token @ token) @
                           drop (nat p) (doc st)"
    "selection st' = \<lparr>ranges = [cursor (p + ?n)], mainIndex = 0\<rparr>"
    by (simp_all add: st'_def)
  ultimately show "\<exists>tr st'. handleSame st token True = Inr (Some tr) \<and> tr_state tr = Inr st' \<and>
               doc st' = take (nat p) (doc st) @ (token @ token @ token @ token) @
                           drop (nat p) (doc st) \<and>
               selection st' = \<lparr>ranges = [cursor (p + ?n)], mainIndex = 0\<rparr> \<and>
               closedBracketAt st' (p + ?n)"
    using tr s unfolding st'_def[symmetric] by blast
next
  let ?n = "int (length token)"
  assume b: "well_formed_char token \<and> nextChar (doc st) p \<noteq> token \<and>
          \<not> (sliceDoc st (p - 2 * ?n) p = token @ token \<and> nodeStart st (p - 2 * ?n)) \<and>
          charCategorizer (language st) (doc st) p (nextChar (doc st) p) \<noteq> Word \<and>
          sliceDoc st (p - 1) p \<noteq> token \<and>
          charCategorizer (language st) (doc st) p (sliceDoc st (p - 1) p) \<noteq> Word \<and>
          \<not> probablyInString st p token \<and>
          \<not> nodeStart
               (st\<lparr>doc := take (nat p) (doc st) @ (token @ token) @ drop (nat p) (doc st)\<rparr>)
               (p + ?n) \<and>
          nodeStart
               (st\<lparr>doc := take (nat p) (doc st) @ (token @ token) @ drop (nat p) (doc st)\<rparr>) p"
  show "\<exists>tr1 st1 tr2 st2 tr3 st3.
               handleSame st token True = Inr (Some tr1) \<and> tr_state tr1 = Inr st1 \<and>
               handleSame st1 token True = Inr (Some tr2) \<and> tr_state tr2 = Inr st2 \<and>
               handleSame st2 token True = Inr (Some tr3) \<and> tr_state tr3 = Inr st3 \<and>
               doc st3 = take (nat p) (doc st) @ (token @ token @ token) @
                           (token @ token @ token) @ drop (nat p) (doc st) \<and>
               selection st3 = \<lparr>ranges = [cursor (p + 3 * ?n)], mainIndex = 0\<rparr> \<and>
               closedBracketAt st3 (p + 3 * ?n)"
    by (rule three_quotes[OF sel p marks]) (use b in simp_all)
qed

lemma quote_state_simps [simp]:
  "doc (quote_state d rs m) = d"
  "selection (quote_state d rs m) = \<lparr>ranges = rs, mainIndex = 0\<rparr>"
  "readOnly (quote_state d rs m) = False"
  "bracketState (quote_state d rs m) = m"
  "language (quote_state d rs m) = quote_language"
  by (simp_all add: quote_state_def)

lemma quote_language_simps [simp]:
  "resolveInner quote_language d pos side =
     (if pos = 1 then SyntaxNode 0 2 (Some (SyntaxNode 0 (int (length d)) None))
      else SyntaxNode 0 (int (length d)) None)"
  "charCategorizer quote_language d pos c = ascii_categorizer c"
  "languageDataAt quote_language d pos = [\<lparr>brackets = Some python_brackets, before = None\<rparr>]"
  by (simp_all add: quote_language_def python_language_def plain_language_def)

lemma ascii_categorizer_Nil [simp]: "ascii_categorizer [] = Space"
  by (simp add: ascii_categorizer_def)

theorem handleSame_triple_quote_witness:
  "(\<exists>tr st'. handleSame (quote_state [34, 34] [cursor 2] []) [34] True = Inr (Some tr) \<and>
      tr_state tr = Inr st' \<and> doc st' = [34, 34, 34, 34, 34, 34] \<and>
      selection st' = \<lparr>ranges = [cursor 3], mainIndex = 0\<rparr> \<and> closedBracketAt st' 3) \<and>
   (\<exists>tr1 st1 tr2 st2 tr3 st3.
      handleSame (quote_state [] [cursor 0] []) [34] True = Inr (Some tr1) \<and>
      tr_state tr1 = Inr st1 \<and>
      handleSame st1 [34] True = Inr (Some tr2) \<and> tr_state tr2 = Inr st2 \<and>
      handleSame st2 [34] True = Inr (Some tr3) \<and> tr_state tr3 = Inr st3 \<and>
      doc st3 = [34, 34, 34, 34, 34, 34] \<and>
      selection st3 = \<lparr>ranges = [cursor 3], mainIndex = 0\<rparr> \<and> closedBracketAt st3 3)"
proof -
  have e: "nextChar [34, 34] 2 = []" "nextChar [] 0 = []"
    "sliceDoc (quote_state [34, 34] [cursor 2] []) 0 2 = [34, 34]"
    "sliceDoc (quote_state [] [cursor 0] []) (- 2) 0 = []"
    "sliceDoc (quote_state [] [cursor 0] []) (- 1) 0 = []"
    by (simp_all add: nextChar_def sliceDoc_def sliceString_def codePointAt_def charCodeAt_def
        codePointSize_def)
  have w: "well_formed_char [34]"
    by (simp add: well_formed_char_def surrogateHigh_def surrogateLow_def)
  have ns: "nodeStart (quote_state [34, 34] [cursor 2] []) 0"
    "\<not> nodeStart ((quote_state [] [cursor 0] [])\<lparr>doc := [34, 34]\<rparr>) 1"
    "nodeStart ((quote_state [] [cursor 0] [])\<lparr>doc := [34, 34]\<rparr>) 0"
    by (simp_all add: nodeStart_def)
  have ps: "\<not> probablyInString (quote_state [] [cursor 0] []) 0 [34]"
    by (simp add: probablyInString_def eval_nat_numeral sliceDoc_def sliceString_def)
  from handleSame_triple_quote[of "quote_state [34, 34] [cursor 2] []" 2 "[34]", THEN conjunct1]
       handleSame_triple_quote[of "quote_state [] [cursor 0] []" 0 "[34]", THEN conjunct2]
  show ?thesis
    using e w ns ps by simp
qed

text \<open>
  C6, as the claim states it, fails on the number of tokens: with two quotes before
  the caret at a node start, typing the quote inserts four quotes, and the document has
  six quotes, not four.
\<close>

theorem triple_quote_inserts_four_counterexample:
  "result_doc (after_insertBracket (quote_state [34, 34] [cursor 2] []) [34]) =
     Inr (Some [34, 34, 34, 34, 34, 34]) \<and>
   result_doc (after_insertBracket (quote_state [34, 34] [cursor 2] []) [34]) \<noteq>
     Inr (Some [34, 34, 34, 34])"
proof -
  let ?st = "quote_state [34, 34] [cursor 2] []"
  have cfg: "config ?st 2 = \<lparr>brackets = Some python_brackets, before = None\<rparr>"
    by (simp add: config_def)
  have cl: "closing (codePointAt [40] 0) = [41]" "closing (codePointAt [91] 0) = [93]"
    "closing (codePointAt [123] 0) = [125]" "closing (codePointAt [39] 0) = [39]"
    "closing (codePointAt [34] 0) = [34]"
    using closing_defaults by (simp_all add: js_def)
  have pb: "python_brackets = [[40], [91], [123], [39], [34], [39, 39, 39], [34, 34, 34]]"
    by (simp add: python_brackets_def js_def)
  have ins: "insertBracket ?st [34] = handleSame ?st [34] True"
    by (simp add: insertBracket_def Let_def cfg conf_tokens_def pb cl)
  have nx: "nextChar (doc ?st) 2 \<noteq> [34]"
    and two: "sliceDoc ?st (2 - 2 * int (length [34::code_unit])) 2 = [34] @ [34]"
    and ns: "nodeStart ?st (2 - 2 * int (length [34::code_unit]))"
    by (simp_all add: nextChar_def sliceDoc_def sliceString_def codePointAt_def charCodeAt_def
        codePointSize_def nodeStart_def)
  from handleSame_triple_state[of ?st 2 "[34]", OF _ _ _ _ nx two ns]
  obtain tr st' where tr: "handleSame ?st [34] True = Inr (Some tr)"
    and s: "tr_state tr = Inr st'" and d: "doc st' = [34, 34, 34, 34, 34, 34]"
    by auto
  have "result_doc (after_insertBracket ?st [34]) = Inr (Some [34, 34, 34, 34, 34, 34])"
    unfolding result_doc_def after_insertBracket_def ins tr by (simp add: s d)
  then show ?thesis
    by simp
qed

section \<open>The tracker under a transaction that sets a selection\<close>

lemma typed_before_update:
  "state_update (plain_state (js ''x'' @ [10] @ js ''()'') [cursor 3] [(3, 4)])
     \<lparr>spec_changes = [Changed 0 (js ''a''), Unchanged 4],
      spec_selection = Some \<lparr>ranges = [cursor 4], mainIndex = 0\<rparr>,
      spec_effects = [], spec_scrollIntoView = False, spec_userEvent = None\<rparr> =
   Inr (typed_before 4)"
  by (simp add: state_update_def typed_before_def changes_apply_def
      checkSelection_def js_def range_eval)








section \<open>What the pair deletion command removes\<close>

lemma length_closing_Some: "length (closing (Some c)) = (if c < 0xFFFF then 1 else 2)"
proof (cases "c = 40 \<or> c = 91 \<or> c = 123 \<or> c = 60")
  case True
  then show ?thesis
    by (auto simp: closing_table)
next
  case False
  then show ?thesis
    by (simp add: closing_fallback fromCodePoint_def Let_def)
qed

lemma code_unit_noncharacter: "(u :: code_unit) \<noteq> 0xFFFF \<Longrightarrow> unat u < 0xFFFF"
proof -
  assume a: "u \<noteq> 0xFFFF"
  have "unat u \<noteq> 0xFFFF"
  proof
    assume "unat u = 0xFFFF"
    then have "of_nat (unat u) = (of_nat 0xFFFF :: code_unit)"
      by simp
    then have "u = 0xFFFF"
      by simp
    with a show False
      by simp
  qed
  with unat_code_unit_less[of u] show ?thesis
    by simp
qed

lemma codePointAt_pair:
  assumes "surrogateHigh (unat h)" "surrogateLow (unat l)"
  shows "\<exists>c. codePointAt [h, l] 0 = Some c \<and> 0x10000 \<le> c"
  using assms by (simp add: codePointAt_def charCodeAt_def)

lemma code_points_one_cases:
  assumes "code_points t \<le> 1"
  obtains "t = []" | u where "t = [u]"
    | h l where "t = [h, l]" "surrogateHigh (unat h)" "surrogateLow (unat l)"
  using assms
  by (cases t rule: code_points.cases) (auto split: if_splits dest: code_points_zero)

lemma length_closing_token:
  assumes "code_points t \<le> 1" "t \<noteq> []" "t \<noteq> [0xFFFF]"
  shows "length (closing (codePointAt t 0)) = length t"
  using assms(1)
proof (cases rule: code_points_one_cases)
  case 1
  with assms(2) show ?thesis by simp
next
  case (2 u)
  with assms(3) have "unat u < 0xFFFF"
    by (simp add: code_unit_noncharacter)
  with 2 show ?thesis
    by (simp add: closing_of_char length_closing_Some)
next
  case (3 h l)
  from codePointAt_pair[OF 3(2,3)] obtain c where "codePointAt [h, l] 0 = Some c" "0x10000 \<le> c"
    by blast
  with 3 show ?thesis
    by (simp add: length_closing_Some)
qed

lemma length_closing_ge:
  assumes "code_points t \<le> 1"
  shows "length t \<le> length (closing (codePointAt t 0))"
  using assms
proof (cases rule: code_points_one_cases)
  case 1
  then show ?thesis by simp
next
  case (2 u)
  then show ?thesis
    by (simp add: closing_of_char length_closing_Some)
next
  case (3 h l)
  from codePointAt_pair[OF 3(2,3)] obtain c where "codePointAt [h, l] 0 = Some c" "0x10000 \<le> c"
    by blast
  with 3 show ?thesis
    by (simp add: length_closing_Some)
qed

lemma nat_max_zero: "nat (max 0 x) = nat x"
  by (simp add: max_def)

lemma prevChar_suffix: "\<exists>ys. sliceString d (p - 2) p = ys @ prevChar d p"
proof (cases "codePointSize (codePointAt (sliceString d (p - 2) p) 0) = length (sliceString d (p - 2) p)")
  case True
  then show ?thesis
    by (simp add: prevChar_def Let_def)
next
  case False
  then have "prevChar d p = drop 1 (sliceString d (p - 2) p)"
    by (simp add: prevChar_def Let_def)
  then show ?thesis
    by (metis append_take_drop_id)
qed

lemma prevChar_slice:
  assumes "0 \<le> p" "p \<le> int (length d)"
  shows "int (length (prevChar d p)) \<le> p \<and>
         sliceString d (p - int (length (prevChar d p))) p = prevChar d p"
proof -
  obtain ys where ys: "sliceString d (p - 2) p = ys @ prevChar d p"
    using prevChar_suffix by blast
  have s: "sliceString d (p - 2) p = drop (nat (p - 2)) (take (nat p) d)"
    by (simp add: sliceString_def Let_def drop_take nat_max_zero)
  have "take (nat p) d = take (nat (p - 2)) (take (nat p) d) @ ys @ prevChar d p"
    using s ys by (metis append_take_drop_id)
  then obtain zs where zs: "take (nat p) d = zs @ prevChar d p"
    by (metis append.assoc)
  have lz: "length zs + length (prevChar d p) = nat p"
    using arg_cong[OF zs, of length] assms by simp
  then have le: "int (length (prevChar d p)) \<le> p"
    using assms(1) by linarith
  have n: "nat (p - int (length (prevChar d p))) = length zs"
    using lz assms(1) by linarith
  have "sliceString d (p - int (length (prevChar d p))) p =
          drop (length zs) (take (nat p) d)"
    by (simp add: sliceString_def Let_def drop_take nat_max_zero n lz[symmetric])
  also have "\<dots> = prevChar d p"
    by (simp add: zs)
  finally show ?thesis
    using le by simp
qed

lemma nextChar_slice:
  assumes "0 \<le> p"
  shows "sliceString d p (p + int (length (nextChar d p))) = nextChar d p"
proof -
  let ?next = "sliceString d p (p + 2)"
  let ?s = "codePointSize (codePointAt ?next 0)"
  have nx: "?next = take 2 (drop (nat p) d)"
    using assms by (simp add: sliceString_def Let_def nat_add_distrib)
  have c: "nextChar d p = take ?s ?next"
    by (simp add: nextChar_def Let_def)
  have s2: "?s \<le> 2"
    by (simp add: codePointSize_def split: option.splits)
  have "sliceString d p (p + int (length (nextChar d p))) =
          take (length (nextChar d p)) (drop (nat p) d)"
    using assms by (simp add: sliceString_def Let_def nat_add_distrib)
  also have "\<dots> = take (min ?s (length ?next)) (drop (nat p) d)"
    by (simp add: c min.commute)
  also have "\<dots> = take ?s ?next"
    unfolding nx using s2 by (simp add: min_def take_all_iff)
  finally show ?thesis
    by (simp add: c)
qed

lemma sliceString_join:
  assumes "0 \<le> a" "a \<le> p" "p \<le> b"
  shows "sliceString d a p @ sliceString d p b = sliceString d a b"
proof -
  define k where "k = nat p - nat a"
  define m where "m = nat b - nat p"
  have km: "nat b - nat a = k + m" "k + nat a = nat p"
    using assms by (simp_all add: k_def m_def)
  have "take (k + m) (drop (nat a) d) = take k (drop (nat a) d) @ take m (drop (nat p) d)"
    by (simp add: take_add km(2))
  then show ?thesis
    by (simp add: sliceString_def Let_def nat_max_zero km(1) k_def[symmetric] m_def[symmetric])
qed

lemma deleteBracketPair_tokens_missing:
  assumes "b \<notin> set tokens \<or> nextChar (doc st) (head r) \<noteq> closing (codePointAt b 0)"
  shows "deleteBracketPair_tokens st r b tokens = None"
  using assms by (induction tokens) auto

lemma deleteBracketPair_at_caret:
  assumes sel: "selection st = \<lparr>ranges = [cursor q], mainIndex = 0\<rparr>"
    and q: "0 \<le> q" "q \<le> int (length (doc st))"
    and ro: "\<not> readOnly st"
    and marks: "marks_ok (int (length (doc st))) (bracketState st)"
    and tok: "tok = prevChar (doc st) q"
    and n: "n = int (length tok)"
  shows "if tok \<in> set (conf_tokens (config st q)) \<and>
            nextChar (doc st) q = closing (codePointAt tok 0)
         then \<exists>tr st2. deleteBracketPair st = Inr (True, Some tr) \<and> tr_state tr = Inr st2 \<and>
                doc st2 = take (nat (q - n)) (doc st) @ drop (nat (q + n)) (doc st) \<and>
                selection st2 = \<lparr>ranges = [cursor (q - n)], mainIndex = 0\<rparr>
         else deleteBracketPair st = Inr (False, None)"
proof (cases "tok \<in> set (conf_tokens (config st q)) \<and>
            nextChar (doc st) q = closing (codePointAt tok 0)")
  case False
  then have "deleteBracketPair_tokens st (cursor q) tok (conf_tokens (config st q)) = None"
    by (intro deleteBracketPair_tokens_missing) auto
  then have "deleteBracketPair_range st (conf_tokens (config st q)) (cursor q) =
               dont_result (cursor q)"
    by (simp add: deleteBracketPair_range_def tok)
  then have "deleteBracketPair st = Inr (False, None)"
    using ro run_dont_single[OF sel, of None]
    by (simp add: deleteBracketPair_def sel Let_def)
  with False show ?thesis
    by simp
next
  case True
  let ?len = "int (length (doc st))"
  let ?tokens = "conf_tokens (config st q)"
  let ?res = "deleteBracketPair_range st ?tokens (cursor q)"
  let ?a = "q - n"
  let ?b = "q + n"
  have res: "?res = \<lparr>rr_changes = [\<lparr>cs_from = ?a, cs_to = ?b, cs_insert = []\<rparr>],
                 rr_effects = [], rr_range = cursor ?a, rr_dont = False\<rparr>"
    using deleteBracketPair_tokens_found[of tok ?tokens st "cursor q"] True
    by (simp add: deleteBracketPair_range_def tok[symmetric] n)
  have a0: "0 \<le> ?a"
    using prevChar_slice[OF q] by (simp add: n tok)
  have cp: "code_points tok \<le> 1"
    unfolding tok by (rule code_points_prevChar)
  have nle: "length tok \<le> length (closing (codePointAt tok 0))"
    by (rule length_closing_ge[OF cp])
  have blen: "?b \<le> ?len"
  proof (cases "tok = []")
    case True
    then show ?thesis
      using q by (simp add: n)
  next
    case False
    with nle have "closing (codePointAt tok 0) \<noteq> []"
      by auto
    with nextChar_in_doc[OF q(1), of "doc st" "closing (codePointAt tok 0)"] True
    have "q + int (length (closing (codePointAt tok 0))) \<le> ?len"
      by simp
    with nle show ?thesis
      by (simp add: n)
  qed
  have bounds: "0 \<le> ?a" "?a \<le> ?b" "?b \<le> ?len"
    using a0 blen by (simp_all add: n)
  have cs: "changeSet_of (rr_changes ?res) ?len = Inr (single_change ?a ?b [] ?len)"
    unfolding res using bounds by (simp add: changeSet_of_single)
  have "\<exists>tr v. run_transaction st [?res] None = Inr (Some tr) \<and>
           startState tr = st \<and>
           newDoc tr = take (nat ?a) (doc st) @ [] @ drop (nat ?b) (doc st) \<and>
           tr_selection tr = Some \<lparr>ranges = [cursor ?a], mainIndex = 0\<rparr> \<and>
           effects tr = rr_effects ?res \<and>
           tr_state tr =
             Inr \<lparr>doc = take (nat ?a) (doc st) @ [] @ drop (nat ?b) (doc st),
                  selection = \<lparr>ranges = [cursor ?a], mainIndex = 0\<rparr>,
                  readOnly = readOnly st,
                  bracketState = foldl apply_effect v (rr_effects ?res),
                  language = language st\<rparr> \<and>
           marks_ok (?len + int (length ([]::jsstring)) - (?b - ?a)) v \<and>
           (?a = ?b \<and> ([]::jsstring) = [] \<longrightarrow> v = [] \<or> v = bracketState st)"
    using bounds
    by (intro run_single_change[OF sel q marks cs]) (simp_all add: res)
  then obtain tr v where run: "run_transaction st [?res] None = Inr (Some tr)"
    and st2: "tr_state tr =
             Inr \<lparr>doc = take (nat ?a) (doc st) @ [] @ drop (nat ?b) (doc st),
                  selection = \<lparr>ranges = [cursor ?a], mainIndex = 0\<rparr>,
                  readOnly = readOnly st,
                  bracketState = foldl apply_effect v (rr_effects ?res),
                  language = language st\<rparr>"
    by blast
  have "deleteBracketPair st = Inr (True, Some tr)"
    using run ro by (simp add: deleteBracketPair_def sel Let_def)
  with st2 True show ?thesis
    by auto
qed

lemma deleteBracketPair_range_slice:
  assumes nd: "\<not> rr_dont (deleteBracketPair_range st tokens r)"
    and h: "0 \<le> head r" "head r \<le> int (length (doc st))"
    and tok: "tok = prevChar (doc st) (head r)"
    and ne: "tok \<noteq> []" "tok \<noteq> [0xFFFF]"
  shows "sliceDoc st (head r - int (length tok)) (head r + int (length tok)) =
           tok @ closing (codePointAt tok 0)"
proof -
  obtain res where res: "deleteBracketPair_tokens st r tok tokens = Some res"
    using nd by (auto simp: deleteBracketPair_range_def dont_result_def tok
        split: if_splits option.splits)
  from deleteBracketPair_tokens_Some[OF res]
  have nx: "nextChar (doc st) (head r) = closing (codePointAt tok 0)"
    by simp
  have cp: "code_points tok \<le> 1"
    unfolding tok by (rule code_points_prevChar)
  have len: "length (closing (codePointAt tok 0)) = length tok"
    by (rule length_closing_token[OF cp ne])
  have p: "int (length tok) \<le> head r"
    "sliceString (doc st) (head r - int (length tok)) (head r) = tok"
    using prevChar_slice[OF h] by (simp_all add: tok)
  have "sliceString (doc st) (head r) (head r + int (length (nextChar (doc st) (head r)))) =
          nextChar (doc st) (head r)"
    by (rule nextChar_slice[OF h(1)])
  then have nxs: "sliceString (doc st) (head r) (head r + int (length tok)) =
                    closing (codePointAt tok 0)"
    by (simp add: nx len)
  have "sliceString (doc st) (head r - int (length tok)) (head r) @
        sliceString (doc st) (head r) (head r + int (length tok)) =
        sliceString (doc st) (head r - int (length tok)) (head r + int (length tok))"
    using p(1) by (intro sliceString_join) simp_all
  then show ?thesis
    by (simp add: sliceDoc_def p(2) nxs)
qed

lemma noncharacter_deleted:
  "result_doc (after_deleteBracketPair noncharacter_state) = Inr (Some [0xDC00])"
proof -
  let ?st = noncharacter_state
  have pv: "prevChar (doc ?st) 1 = [0xFFFF]"
    by (simp add: noncharacter_state_def prevChar_def sliceString_def codePointAt_def
        charCodeAt_def codePointSize_def surrogateHigh_def)
  have nx: "nextChar (doc ?st) 1 = [0xD800, 0xDC00]"
    by (simp add: noncharacter_state_def nextChar_def sliceString_def codePointAt_def
        charCodeAt_def codePointSize_def surrogateHigh_def surrogateLow_def)
  have cl: "closing (codePointAt [0xFFFF] 0) = [0xD800, 0xDC00]"
    by (simp add: closing_of_char closing_fallback fromCodePoint_def fromCharCode_def)
  have cfg: "conf_tokens (config ?st 1) = [[0xFFFF]]"
    by (simp add: config_def conf_tokens_def noncharacter_state_def noncharacter_language_def)
  from deleteBracketPair_at_caret[of ?st 1 "[0xFFFF]" 1]
  obtain tr st2 where "deleteBracketPair ?st = Inr (True, Some tr)" "tr_state tr = Inr st2"
    "doc st2 = [0xDC00]"
    by (auto simp: pv nx cl cfg) (auto simp: noncharacter_state_def marks_ok_def)
  then show ?thesis
    by (simp add: result_doc_def after_deleteBracketPair_def)
qed

text \<open>
  C10: the character before the caret is at most one code point, so a token of more
  than one code point (a triple of quotes) never equals it. Whenever the command
  changes the document at a range, the range is a caret, the character before it is a
  configured token of at most one code point, the character behind it is the closer of
  that token, and the change removes the text from one token length before the caret to
  one token length behind it; for every token but U+FFFF that text is the token and
  its closer. For a selection of one caret in a writable document the command
  dispatches that removal when the caret stands between a configured token and its
  closer, and otherwise returns false without a transaction. For the token U+FFFF,
  whose closer U+10000 is two code units long, the removed text is the token and the
  first half of its closer: in the example state the second half, \<open>0xDC00\<close>, is what
  is left of the document.
\<close>

theorem deleteBracketPair_single_code_point:
  "(1 < code_points token \<longrightarrow> prevChar (doc st) (head r) \<noteq> token) \<and>
   (\<not> rr_dont (deleteBracketPair_range st tokens r) \<longrightarrow>
      (\<exists>tok. tok \<in> set tokens \<and> tok = prevChar (doc st) (head r) \<and>
         code_points tok \<le> 1 \<and> length tok \<le> 2 \<and> range_empty r \<and>
         nextChar (doc st) (head r) = closing (codePointAt tok 0) \<and>
         rr_changes (deleteBracketPair_range st tokens r) =
           [\<lparr>cs_from = head r - int (length tok), cs_to = head r + int (length tok),
             cs_insert = []\<rparr>] \<and>
         (0 \<le> head r \<and> head r \<le> int (length (doc st)) \<and> tok \<noteq> [] \<and> tok \<noteq> [0xFFFF] \<longrightarrow>
            sliceDoc st (head r - int (length tok)) (head r + int (length tok)) =
              tok @ closing (codePointAt tok 0)))) \<and>
   (selection st = \<lparr>ranges = [cursor q], mainIndex = 0\<rparr> \<and> 0 \<le> q \<and>
    q \<le> int (length (doc st)) \<and> \<not> readOnly st \<and>
    marks_ok (int (length (doc st))) (bracketState st) \<longrightarrow>
      (if prevChar (doc st) q \<in> set (conf_tokens (config st q)) \<and>
          nextChar (doc st) q = closing (codePointAt (prevChar (doc st) q) 0)
       then \<exists>tr st2. deleteBracketPair st = Inr (True, Some tr) \<and> tr_state tr = Inr st2 \<and>
              doc st2 = take (nat (q - int (length (prevChar (doc st) q)))) (doc st) @
                        drop (nat (q + int (length (prevChar (doc st) q)))) (doc st) \<and>
              selection st2 =
                \<lparr>ranges = [cursor (q - int (length (prevChar (doc st) q)))], mainIndex = 0\<rparr>
       else deleteBracketPair st = Inr (False, None))) \<and>
   result_doc (after_deleteBracketPair noncharacter_state) = Inr (Some [0xDC00])"
proof (intro conjI impI)
  assume "1 < code_points token"
  then show "prevChar (doc st) (head r) \<noteq> token"
    using code_points_prevChar[of "doc st" "head r"] by auto
next
  let ?b = "prevChar (doc st) (head r)"
  assume nd: "\<not> rr_dont (deleteBracketPair_range st tokens r)"
  then have e: "range_empty r"
    by (auto simp: deleteBracketPair_range_def dont_result_def split: if_splits)
  from nd obtain res where res: "deleteBracketPair_tokens st r ?b tokens = Some res"
    and eq: "deleteBracketPair_range st tokens r = res"
    by (auto simp: deleteBracketPair_range_def dont_result_def split: if_splits option.splits)
  from deleteBracketPair_tokens_Some[OF res] eq
  have "?b \<in> set tokens"
    and "nextChar (doc st) (head r) = closing (codePointAt ?b 0)"
    and "rr_changes (deleteBracketPair_range st tokens r) =
           [\<lparr>cs_from = head r - int (length ?b), cs_to = head r + int (length ?b),
             cs_insert = []\<rparr>]"
    by simp_all
  moreover have "code_points ?b \<le> 1"
    by (rule code_points_prevChar)
  moreover from this have "length ?b \<le> 2"
    by (rule code_points_length)
  moreover have "0 \<le> head r \<and> head r \<le> int (length (doc st)) \<and> ?b \<noteq> [] \<and> ?b \<noteq> [0xFFFF] \<longrightarrow>
            sliceDoc st (head r - int (length ?b)) (head r + int (length ?b)) =
              ?b @ closing (codePointAt ?b 0)"
    using deleteBracketPair_range_slice[OF nd _ _ refl] by blast
  ultimately show "\<exists>tok. tok \<in> set tokens \<and> tok = ?b \<and> code_points tok \<le> 1 \<and>
      length tok \<le> 2 \<and> range_empty r \<and>
      nextChar (doc st) (head r) = closing (codePointAt tok 0) \<and>
      rr_changes (deleteBracketPair_range st tokens r) =
        [\<lparr>cs_from = head r - int (length tok), cs_to = head r + int (length tok),
          cs_insert = []\<rparr>] \<and>
      (0 \<le> head r \<and> head r \<le> int (length (doc st)) \<and> tok \<noteq> [] \<and> tok \<noteq> [0xFFFF] \<longrightarrow>
         sliceDoc st (head r - int (length tok)) (head r + int (length tok)) =
           tok @ closing (codePointAt tok 0))"
    using e by blast
next
  assume a: "selection st = \<lparr>ranges = [cursor q], mainIndex = 0\<rparr> \<and> 0 \<le> q \<and>
    q \<le> int (length (doc st)) \<and> \<not> readOnly st \<and>
    marks_ok (int (length (doc st))) (bracketState st)"
  then show "if prevChar (doc st) q \<in> set (conf_tokens (config st q)) \<and>
          nextChar (doc st) q = closing (codePointAt (prevChar (doc st) q) 0)
       then \<exists>tr st2. deleteBracketPair st = Inr (True, Some tr) \<and> tr_state tr = Inr st2 \<and>
              doc st2 = take (nat (q - int (length (prevChar (doc st) q)))) (doc st) @
                        drop (nat (q + int (length (prevChar (doc st) q)))) (doc st) \<and>
              selection st2 =
                \<lparr>ranges = [cursor (q - int (length (prevChar (doc st) q)))], mainIndex = 0\<rparr>
       else deleteBracketPair st = Inr (False, None)"
    by (intro deleteBracketPair_at_caret) simp_all
next
  show "result_doc (after_deleteBracketPair noncharacter_state) = Inr (Some [0xDC00])"
    by (rule noncharacter_deleted)
qed

theorem deleteBracketPair_single_code_point_witness:
  "prevChar (js ''()'') 1 \<noteq> js [CHR 0x27, CHR 0x27, CHR 0x27] \<and>
   rr_changes (deleteBracketPair_range (plain_state (js ''()'') [cursor 1] [])
                 defaults_brackets (cursor 1)) =
     [\<lparr>cs_from = 0, cs_to = 2, cs_insert = []\<rparr>] \<and>
   sliceDoc (plain_state (js ''()'') [cursor 1] []) 0 2 = js ''()'' \<and>
   (\<exists>tr st2. deleteBracketPair (plain_state (js ''()'') [cursor 1] []) = Inr (True, Some tr) \<and>
      tr_state tr = Inr st2 \<and> doc st2 = [] \<and>
      selection st2 = \<lparr>ranges = [cursor 0], mainIndex = 0\<rparr>) \<and>
   deleteBracketPair (plain_state (js ''(a'') [cursor 1] []) = Inr (False, None)"
proof -
  let ?st = "plain_state (js ''()'') [cursor 1] []"
  let ?st' = "plain_state (js ''(a'') [cursor 1] []"
  have long: "1 < code_points (js [CHR 0x27, CHR 0x27, CHR 0x27])"
    by (simp add: string_eval)
  have nd: "\<not> rr_dont (deleteBracketPair_range ?st defaults_brackets (cursor 1))"
    by (simp add: deleteBracketPair_range_def plain_state_def defaults_brackets_def
        string_eval range_eval closing_table)
  have prev: "prevChar [40, 41] 1 = [40]" "prevChar [40, 97] 1 = [40]"
    by (simp_all add: string_eval)
  have nxt: "nextChar [40, 41] 1 = [41]" "nextChar [40, 97] 1 = [97]"
    by (simp_all add: string_eval)
  have sl: "sliceString [40, 41] 0 2 = [40, 41]"
    by (simp add: sliceString_def)
  have cl: "closing (codePointAt [40] 0) = [41]"
    by (simp add: closing_of_char closing_table)
  have m: "[40] \<in> set defaults_brackets" "marks_ok 2 []"
    by (simp_all add: defaults_brackets_def js_def marks_ok_def)
  have d: "js ''()'' = [40, 41]" "js ''(a'' = [40, 97]"
    by (simp_all add: js_def)
  have ne: "[40] \<noteq> [(0xFFFF :: code_unit)]"
    by simp
  from deleteBracketPair_single_code_point
         [of "js [CHR 0x27, CHR 0x27, CHR 0x27]" ?st "cursor 1" defaults_brackets 1]
       deleteBracketPair_single_code_point
         [of "js [CHR 0x27, CHR 0x27, CHR 0x27]" ?st' "cursor 1" defaults_brackets 1]
       long nd
  show ?thesis
    by (simp add: prev nxt cl m d sliceDoc_def sl)
qed

section \<open>Insertion of a pair followed by pair deletion\<close>









end
